(* ===== verification/Prelude.thy ===== *)
theory Prelude
  imports Main "HOL-Library.Word" "HOL-Library.Char_ord" "HOL-Library.List_Lexorder"
begin

text \<open>
  Shared vocabulary of the development: the Go types that every component uses, Go's errors
  and panics as values, and the generic lemmas on lists, options and sums that carry the
  component proofs.

  \<^item> A Go \<^verbatim>\<open>string\<close> is a sequence of bytes, which is what \<open>string\<close> (a list of 8-bit
    characters) is; \<^verbatim>\<open>[]byte\<close> is a list of \<open>8 word\<close>.
  \<^item> \<^verbatim>\<open>uint64\<close> and \<^verbatim>\<open>uint32\<close> are words of their width; \<^verbatim>\<open>int\<close> counters that cannot overflow are
    \<open>nat\<close> or \<open>int\<close>.
  \<^item> \<^verbatim>\<open>time.Time\<close> is the number of nanoseconds since the epoch and \<^verbatim>\<open>time.Duration\<close> a number of
    nanoseconds, both \<open>int\<close>.
  \<^item> The error interface is the datatype \<open>goerror\<close>: the sentinel errors and error types that
    the code tests for, an opaque error, and the wrapping of \<^verbatim>\<open>fmt.Errorf("...%w", err)\<close>.
  \<^item> A run-time panic (a nil dereference, an index out of range) is the constructor \<open>Panic\<close>
    of \<open>outcome\<close>, so that no operation of the model hides one.
\<close>

section \<open>Types\<close>

type_synonym bytes = "8 word list"
type_synonym u64 = "64 word"
type_synonym u32 = "32 word"
type_synonym gotime = int
type_synonym duration = int

datatype goerror =
    EOF
  | StatusErr nat string
  | Err string
  | Wrap string goerror

fun error_text :: "goerror \<Rightarrow> string" where
  "error_text EOF = ''EOF''"
| "error_text (StatusErr code t) = t"
| "error_text (Err t) = t"
| "error_text (Wrap t e) = t @ error_text e"

text \<open>\<^verbatim>\<open>errors.Is(err, io.EOF)\<close> and \<^verbatim>\<open>schwift.Is(err, code)\<close> look through wrapped errors.\<close>

fun is_eof :: "goerror \<Rightarrow> bool" where
  "is_eof EOF = True"
| "is_eof (StatusErr code t) = False"
| "is_eof (Err t) = False"
| "is_eof (Wrap t e) = is_eof e"

fun schwift_is :: "goerror \<Rightarrow> nat \<Rightarrow> bool" where
  "schwift_is EOF c = False"
| "schwift_is (StatusErr code t) c = (code = c)"
| "schwift_is (Err t) c = False"
| "schwift_is (Wrap t e) c = schwift_is e c"

datatype 'a outcome = Ret 'a | Panic string

fun panics :: "'a outcome \<Rightarrow> bool" where
  "panics (Ret x) = False"
| "panics (Panic m) = True"

section \<open>Collections of facts\<close>

named_theorems strs \<open>rewriting of Go string and path operations\<close>

section \<open>Lists\<close>

lemma take_length_eq_append: "take (length p) s = p \<longleftrightarrow> (\<exists>t. s = p @ t)"
  by (metis append_eq_conv_conj)

lemma takeWhile_append_all:
  "\<forall>x\<in>set xs. P x \<Longrightarrow> takeWhile P (xs @ ys) = xs @ takeWhile P ys"
  by simp

lemma dropWhile_append_all:
  "\<forall>x\<in>set xs. P x \<Longrightarrow> dropWhile P (xs @ ys) = dropWhile P ys"
  by (induction xs) auto

lemma takeWhile_stop: "ys = [] \<or> \<not> P (hd ys) \<Longrightarrow> takeWhile P ys = []"
  by (cases ys) auto

lemma dropWhile_stop: "ys = [] \<or> \<not> P (hd ys) \<Longrightarrow> dropWhile P ys = ys"
  by (cases ys) auto

lemma concat_map_singleton_filter: "concat (map (\<lambda>x. if P x then [f x] else []) xs) = map f (filter P xs)"
  by (induction xs) auto

section \<open>Words\<close>

lemma unat_of_nat_u64 [simp]: "n < 2 ^ 64 \<Longrightarrow> unat (of_nat n :: u64) = n"
  by (simp add: unsigned_of_nat take_bit_nat_eq_self)

lemma unat_u64_less [simp]: "unat (x :: u64) < 2 ^ 64"
  using unsigned_less[of x] by simp

end
