(* ===== verification/Http.thy ===== *)
theory Http
  imports GoStrings
begin

text \<open>
  The vocabulary of \<^verbatim>\<open>net/http\<close> that the program shares with its servers: header maps with
  canonical keys, requests, responses and the client. What a server answers is not code of the
  repository, so the client is a record of functions over an abstract state \<open>'w\<close> of the outside
  world, and the components take it as an argument.
\<close>

section \<open>Headers\<close>

text \<open>
  \<^verbatim>\<open>http.CanonicalHeaderKey\<close>: the first letter and every letter after a hyphen in upper case, the
  others in lower case; a key with a character that no header name has is left alone.
\<close>

definition is_token_char :: "char \<Rightarrow> bool" where
  "is_token_char c \<longleftrightarrow>
     (let n = of_char c :: nat in
      (48 \<le> n \<and> n \<le> 57) \<or> (65 \<le> n \<and> n \<le> 90) \<or> (97 \<le> n \<and> n \<le> 122) \<or>
      c \<in> set ''!#$%&*+-.^_|~'' \<or> n = 39 \<or> n = 96)"

definition upper :: "char \<Rightarrow> char" where
  "upper c = (let n = of_char c :: nat in if 97 \<le> n \<and> n \<le> 122 then char_of (n - 32) else c)"

definition lower :: "char \<Rightarrow> char" where
  "lower c = (let n = of_char c :: nat in if 65 \<le> n \<and> n \<le> 90 then char_of (n + 32) else c)"

fun canonical_from :: "bool \<Rightarrow> string \<Rightarrow> string" where
  "canonical_from up [] = []"
| "canonical_from up (c # cs) =
     (if up then upper c else lower c) # canonical_from (c = CHR ''-'') cs"

definition canonicalKey :: "string \<Rightarrow> string" where
  "canonicalKey k = (if list_all is_token_char k then canonical_from True k else k)"

lemma length_canonicalKey [simp]: "length (canonicalKey k) = length k"
proof -
  have "length (canonical_from up k) = length k" for up by (induction k arbitrary: up) auto
  then show ?thesis by (simp add: canonicalKey_def)
qed

lemma canonicalKey_neq: "length a \<noteq> length b \<Longrightarrow> canonicalKey a \<noteq> canonicalKey b"
  by (metis length_canonicalKey)

text \<open>\<^verbatim>\<open>http.Header\<close> maps a key to all its values, \<^verbatim>\<open>schwift.Headers\<close> to one value.\<close>

type_synonym header = "string \<Rightarrow> string list"
type_synonym headers = "string \<rightharpoonup> string"

definition header_get :: "header \<Rightarrow> string \<Rightarrow> string" where
  "header_get h k = (case h (canonicalKey k) of [] \<Rightarrow> [] | v # vs \<Rightarrow> v)"

definition header_set :: "header \<Rightarrow> string \<Rightarrow> string \<Rightarrow> header" where
  "header_set h k v = h(canonicalKey k := [v])"

definition no_header :: header where
  "no_header = (\<lambda>k. [])"

text \<open>\<^verbatim>\<open>maps.Copy(dst, src)\<close> on header maps: the keys of the source win.\<close>

definition header_copy :: "header \<Rightarrow> header \<Rightarrow> header" where
  "header_copy dst src = (\<lambda>k. if src k = [] then dst k else src k)"

definition headers_get :: "headers \<Rightarrow> string \<Rightarrow> string" where
  "headers_get h k = (case h (canonicalKey k) of None \<Rightarrow> [] | Some v \<Rightarrow> v)"

definition headers_set :: "headers \<Rightarrow> string \<Rightarrow> string \<Rightarrow> headers" where
  "headers_set h k v = h(canonicalKey k \<mapsto> v)"

definition to_http :: "headers \<Rightarrow> header" where
  "to_http h = (\<lambda>k. case h k of None \<Rightarrow> [] | Some v \<Rightarrow> [v])"

lemma header_get_set [simp]:
  "header_get (header_set h k v) k' =
     (if canonicalKey k' = canonicalKey k then v else header_get h k')"
  by (simp add: header_get_def header_set_def)

lemma headers_get_set [simp]:
  "headers_get (headers_set h k v) k' =
     (if canonicalKey k' = canonicalKey k then v else headers_get h k')"
  by (simp add: headers_get_def headers_set_def)

lemma headers_get_empty [simp]: "headers_get Map.empty k = []"
  by (simp add: headers_get_def)

lemma header_get_no_header [simp]: "header_get no_header k = []"
  by (simp add: header_get_def no_header_def)

lemma header_get_to_http [simp]: "header_get (to_http h) k = headers_get h k"
  by (simp add: header_get_def to_http_def headers_get_def split: option.splits)

section \<open>Requests, responses, clients\<close>

text \<open>
  All requests of the program are GET requests without a body. \<^verbatim>\<open>ContentLength\<close> is an \<^verbatim>\<open>int64\<close>,
  negative when the length is not known.
\<close>

record request =
  req_uri :: string
  req_header :: header

record 'b response =
  resp_status :: string
  resp_code :: nat
  resp_header :: header
  resp_length :: "64 word"
  resp_body :: 'b

text \<open>
  \<open>cl_newRequest\<close> is the error of \<^verbatim>\<open>http.NewRequestWithContext\<close> for a URL, \<open>cl_do\<close> is \<^verbatim>\<open>Client.Do\<close>, which
  documents that there is no response when there is an error, and \<open>cl_read\<close> and \<open>cl_close\<close> are
  the operations of a response body.
\<close>

record ('w, 'b) client =
  cl_newRequest :: "string \<Rightarrow> goerror option"
  cl_do :: "'w \<Rightarrow> request \<Rightarrow> 'w \<times> (goerror + 'b response)"
  cl_read :: "'b \<Rightarrow> nat \<Rightarrow> bytes \<times> goerror option \<times> 'b"
  cl_close :: "'b \<Rightarrow> goerror option"

definition StatusOK :: nat where "StatusOK = 200"
definition StatusPartialContent :: nat where "StatusPartialContent = 206"
definition StatusNotModified :: nat where "StatusNotModified = 304"
definition StatusBadRequest :: nat where "StatusBadRequest = 400"
definition StatusNotFound :: nat where "StatusNotFound = 404"
definition StatusRangeNotSatisfiable :: nat where "StatusRangeNotSatisfiable = 416"

lemmas status_defs = StatusOK_def StatusPartialContent_def StatusNotModified_def
  StatusBadRequest_def StatusNotFound_def StatusRangeNotSatisfiable_def

end
