(* ===== verification/Numeric.thy ===== *)
theory Numeric
  imports Prelude
begin

text \<open>
  \<^verbatim>\<open>pkg/util/numeric.go\<close>: the conversion of signed counts to \<^verbatim>\<open>uint64\<close>. A Go \<^verbatim>\<open>int\<close> or \<^verbatim>\<open>int64\<close> is a
  64-bit word read with \<open>sint\<close>.
\<close>

type_synonym i64 = "64 word"

definition AtLeastZero :: "i64 \<Rightarrow> u64" where
  "AtLeastZero x = (if sint x < 0 then 0 else x)"

lemma uint_eq_sint_if_nonneg: "0 \<le> sint (x :: i64) \<Longrightarrow> uint x = sint x"
proof -
  assume nn: "0 \<le> sint x"
  have "uint (word_of_int (sint x) :: i64) = sint x mod 2 ^ LENGTH(64)"
    by (rule uint_word_of_int)
  then have "uint x = sint x mod 2 ^ 64" by simp
  also have "\<dots> = sint x" using nn sint_lt[of x] by (intro mod_pos_pos_trivial) simp_all
  finally show ?thesis .
qed

text \<open>The value is the argument clamped at zero, and it always fits a signed 64-bit integer again.\<close>

lemma uint_AtLeastZero: "uint (AtLeastZero x) = max 0 (sint x)"
  by (simp add: AtLeastZero_def uint_eq_sint_if_nonneg)

lemma AtLeastZero_bound: "unat (AtLeastZero x) < 2 ^ 63"
proof -
  have "uint (AtLeastZero x) < 2 ^ 63"
    using sint_lt[of x] by (simp add: uint_AtLeastZero)
  then have "int (unat (AtLeastZero x)) < int (2 ^ 63)" by simp
  then show ?thesis by (simp only: of_nat_less_iff)
qed

lemma AtLeastZero_of_nat:
  assumes "n < 2 ^ 63"
  shows "AtLeastZero (of_nat n) = of_nat n"
proof -
  have "sint (word_of_int (int n) :: i64) = signed_take_bit (LENGTH(64) - 1) (int n)"
    by (rule sint_sbintrunc')
  also have "\<dots> = int n" using assms by (intro signed_take_bit_int_eq_self) simp_all
  finally have "sint (of_nat n :: i64) = int n" by simp
  then show ?thesis by (simp add: AtLeastZero_def)
qed

end
