(* ===== verification/IoReader.thy ===== *)
theory IoReader
  imports GoStrings
begin

text \<open>
  Readers. \<^verbatim>\<open>Read(buf)\<close> of an \<^verbatim>\<open>io.Reader\<close> is a function of the reader's state and the length of
  the buffer; it gives the bytes that were put into the buffer (their number is the first
  result of the Go method), the error and the new state, or panics. The interfaces:
  \<^item> \<open>io_reader\<close>: \<^verbatim>\<open>Read\<close> never writes more than the buffer holds;
  \<^item> \<open>content_reader\<close>: while \<open>ok\<close> holds, what is read is the reader's \<open>content\<close>, in order, and
    an \<^verbatim>\<open>io.EOF\<close> comes only at its end;
  \<^item> \<open>progress_reader\<close>: calls that return nothing, not even an error, are bounded by a rank.

  The component \<^verbatim>\<open>pkg/util/io.go\<close> is \<open>FullReader_Read\<close>, the client of all three. Providers
  are \<^verbatim>\<open>bytes.Reader\<close> (below), from which files downloaded during scraping are uploaded, and
  the segmented downloader of \<^verbatim>\<open>pkg/util/http.go\<close>.
\<close>

type_synonym 'r read_result = "(bytes \<times> goerror option \<times> 'r) outcome"
type_synonym 'r read_fun = "'r \<Rightarrow> nat \<Rightarrow> 'r read_result"

section \<open>FullReader\<close>

text \<open>
  The loop of \<^verbatim>\<open>FullReader.Read\<close>: \<open>acc\<close> is the part \<^verbatim>\<open>buf[:numRead]\<close>, \<open>n\<close> is \<^verbatim>\<open>len(buf)\<close>. The loop need
  not end, so the result is an option, and \<open>None\<close> is a call that never returns.
\<close>

partial_function (option) FullReader_loop ::
  "'r read_fun \<Rightarrow> 'r \<Rightarrow> nat \<Rightarrow> bytes \<Rightarrow> 'r read_result option" where
  "FullReader_loop rd r n acc =
     (if length acc < n then
        (case rd r (n - length acc) of
           Panic m \<Rightarrow> Some (Panic m)
         | Ret x \<Rightarrow>
             (case fst (snd x) of
                Some e \<Rightarrow> Some (Ret (acc @ fst x, Some e, snd (snd x)))
              | None \<Rightarrow> FullReader_loop rd (snd (snd x)) n (acc @ fst x)))
      else Some (Ret (acc, None, r)))"

definition FullReader_Read :: "'r read_fun \<Rightarrow> 'r \<Rightarrow> nat \<Rightarrow> 'r read_result option" where
  "FullReader_Read rd r n = FullReader_loop rd r n []"

definition FullReader_Close :: "('r \<Rightarrow> goerror option) \<Rightarrow> 'r \<Rightarrow> goerror option" where
  "FullReader_Close cl r = cl r"

lemma FullReader_loop_done: "n \<le> length acc \<Longrightarrow> FullReader_loop rd r n acc = Some (Ret (acc, None, r))"
  by (simp add: FullReader_loop.simps)

lemma FullReader_loop_step:
  "length acc < n \<Longrightarrow> rd r (n - length acc) = Ret (bs, None, r') \<Longrightarrow>
     FullReader_loop rd r n acc = FullReader_loop rd r' n (acc @ bs)"
  by (subst FullReader_loop.simps) simp

lemma FullReader_loop_error:
  "length acc < n \<Longrightarrow> rd r (n - length acc) = Ret (bs, Some e, r') \<Longrightarrow>
     FullReader_loop rd r n acc = Some (Ret (acc @ bs, Some e, r'))"
  by (subst FullReader_loop.simps) simp

lemma FullReader_loop_panic:
  "length acc < n \<Longrightarrow> rd r (n - length acc) = Panic m \<Longrightarrow>
     FullReader_loop rd r n acc = Some (Panic m)"
  by (subst FullReader_loop.simps) simp

text \<open>
  Partial-correctness rule for the loop: a property of states, bytes read so far and results
  that is kept by a step and holds where the loop stops.
\<close>

lemma FullReader_loop_rule:
  assumes ret: "FullReader_loop rd r n acc = Some (Ret (bs, e, r'))"
    and init: "I acc r"
    and step: "\<And>a s b s'. I a s \<Longrightarrow> length a < n \<Longrightarrow> rd s (n - length a) = Ret (b, None, s') \<Longrightarrow> I (a @ b) s'"
    and stop: "\<And>a s. I a s \<Longrightarrow> n \<le> length a \<Longrightarrow> Q a None s"
    and err: "\<And>a s b x s'. I a s \<Longrightarrow> length a < n \<Longrightarrow> rd s (n - length a) = Ret (b, Some x, s') \<Longrightarrow> Q (a @ b) (Some x) s'"
  shows "Q bs e r'"
proof -
  have "rd' = rd \<longrightarrow> n' = n \<longrightarrow> I acc' r0 \<longrightarrow> (case y of Panic m \<Rightarrow> True | Ret (bs, e, r') \<Rightarrow> Q bs e r')"
    if "FullReader_loop rd' r0 n' acc' = Some y" for rd' r0 n' acc' y
  proof (rule FullReader_loop.raw_induct
      [where P = "\<lambda>rd' r0 n' acc' y. rd' = rd \<longrightarrow> n' = n \<longrightarrow> I acc' r0 \<longrightarrow>
         (case y of Panic m \<Rightarrow> True | Ret (bs, e, r') \<Rightarrow> Q bs e r')", OF _ that])
    fix f rd' r0 n' acc' y
    assume IH: "\<And>rd' r0 n' acc' y. f rd' r0 n' acc' = Some y \<Longrightarrow>
        rd' = rd \<longrightarrow> n' = n \<longrightarrow> I acc' r0 \<longrightarrow> (case y of Panic m \<Rightarrow> True | Ret (bs, e, r') \<Rightarrow> Q bs e r')"
      and eq: "(if length acc' < n' then
        (case rd' r0 (n' - length acc') of
           Panic m \<Rightarrow> Some (Panic m)
         | Ret x \<Rightarrow>
             (case fst (snd x) of
                Some e \<Rightarrow> Some (Ret (acc' @ fst x, Some e, snd (snd x)))
              | None \<Rightarrow> f rd' (snd (snd x)) n' (acc' @ fst x)))
      else Some (Ret (acc', None, r0))) = Some y"
    show "rd' = rd \<longrightarrow> n' = n \<longrightarrow> I acc' r0 \<longrightarrow> (case y of Panic m \<Rightarrow> True | Ret (bs, e, r') \<Rightarrow> Q bs e r')"
    proof (intro impI)
      assume [simp]: "rd' = rd" "n' = n" and inv: "I acc' r0"
      show "case y of Panic m \<Rightarrow> True | Ret (bs, e, r') \<Rightarrow> Q bs e r'"
      proof (cases "length acc' < n")
        case True
        show ?thesis
        proof (cases "rd r0 (n - length acc')")
          case (Ret x)
          obtain b x' s' where x: "x = (b, x', s')" by (cases x)
          show ?thesis
          proof (cases x')
            case None
            with eq True Ret x have "f rd s' n (acc' @ b) = Some y" by simp
            moreover have "I (acc' @ b) s'" using step[OF inv True] Ret x None by simp
            ultimately show ?thesis using IH by blast
          next
            case (Some ee)
            with eq True Ret x err[OF inv True] show ?thesis by auto
          qed
        next
          case (Panic m)
          with eq True show ?thesis by auto
        qed
      next
        case False
        with eq stop[OF inv] show ?thesis by auto
      qed
    qed
  qed
  from this[OF ret] init show ?thesis by simp
qed

text \<open>A loop whose every step delivers nothing and no error does not return.\<close>

lemma FullReader_Read_diverges:
  assumes "J r" "0 < n" and stuck: "\<And>s. J s \<Longrightarrow> \<exists>s'. rd s n = Ret ([], None, s') \<and> J s'"
  shows "FullReader_Read rd r n = None"
proof (rule ccontr)
  assume "FullReader_Read rd r n \<noteq> None"
  then obtain y where ret: "FullReader_loop rd r n [] = Some y" by (auto simp: FullReader_Read_def)
  have "\<not> (rd = rd \<and> J r \<and> n = n \<and> [] = ([] :: bytes))"
  proof (rule FullReader_loop.raw_induct
      [where P = "\<lambda>rd' r' n' acc y. \<not> (rd' = rd \<and> J r' \<and> n' = n \<and> acc = [])", OF _ ret])
    fix f :: "'a read_fun \<Rightarrow> 'a \<Rightarrow> nat \<Rightarrow> bytes \<Rightarrow> 'a read_result option" and rd' r' n' acc y
    assume IH: "\<And>rd' r' n' acc y. f rd' r' n' acc = Some y \<Longrightarrow> \<not> (rd' = rd \<and> J r' \<and> n' = n \<and> acc = [])"
      and eq: "(if length acc < n' then
        (case rd' r' (n' - length acc) of
           Panic m \<Rightarrow> Some (Panic m)
         | Ret x \<Rightarrow>
             (case fst (snd x) of
                Some e \<Rightarrow> Some (Ret (acc @ fst x, Some e, snd (snd x)))
              | None \<Rightarrow> f rd' (snd (snd x)) n' (acc @ fst x)))
      else Some (Ret (acc, None, r'))) = Some y"
    show "\<not> (rd' = rd \<and> J r' \<and> n' = n \<and> acc = [])"
    proof
      assume a: "rd' = rd \<and> J r' \<and> n' = n \<and> acc = []"
      then obtain s' where "rd r' n = Ret ([], None, s')" "J s'" using stuck by blast
      with a eq assms(2) have "f rd s' n [] = Some y" by simp
      with \<open>J s'\<close> IH show False by blast
    qed
  qed
  with assms(1) show False by simp
qed

section \<open>The contracts\<close>

locale io_reader =
  fixes read :: "'r read_fun" and ok :: "'r \<Rightarrow> bool"
  assumes read_len: "ok r \<Longrightarrow> read r n = Ret (bs, e, r') \<Longrightarrow> length bs \<le> n"
    and read_ok: "ok r \<Longrightarrow> read r n = Ret (bs, None, r') \<Longrightarrow> ok r'"
begin

lemma full_read_shape:
  assumes "ok r" "FullReader_Read read r n = Some (Ret (bs, e, r'))"
  shows "length bs \<le> n \<and> (e = None \<longrightarrow> length bs = n \<and> ok r')"
proof -
  let ?I = "\<lambda>a s. length a \<le> n \<and> ok s"
  let ?Q = "\<lambda>bs e s. length bs \<le> n \<and> (e = None \<longrightarrow> length bs = n \<and> ok s)"
  have bound: "length (a @ b) \<le> n" if "?I a s" "read s (n - length a) = Ret (b, e, s')" for a s b e s'
    using that read_len[of s "n - length a" b e s'] by (simp; arith)
  have "FullReader_loop read r n [] = Some (Ret (bs, e, r'))"
    using assms by (simp add: FullReader_Read_def)
  then show ?thesis
    by (rule FullReader_loop_rule[where I = ?I and Q = ?Q])
      (use assms bound read_ok in \<open>fastforce+\<close>)
qed

end

locale content_reader = io_reader +
  fixes content :: "'r \<Rightarrow> bytes"
  assumes read_more: "ok r \<Longrightarrow> read r n = Ret (bs, None, r') \<Longrightarrow> content r = bs @ content r'"
    and read_eof: "ok r \<Longrightarrow> read r n = Ret (bs, Some EOF, r') \<Longrightarrow> content r = bs"
    and read_err: "ok r \<Longrightarrow> read r n = Ret (bs, Some e, r') \<Longrightarrow> hasPrefix (content r) bs"
begin

text \<open>Whatever the sizes of the buffers, a FullReader keeps the contract of the reader it wraps.\<close>

lemma full_read_content:
  assumes "ok r" "FullReader_Read read r n = Some (Ret (bs, e, r'))"
  shows "(case e of None \<Rightarrow> ok r' \<and> content r = bs @ content r'
            | Some x \<Rightarrow> hasPrefix (content r) bs \<and> (x = EOF \<longrightarrow> content r = bs))"
proof -
  let ?I = "\<lambda>a s. ok s \<and> content r = a @ content s"
  let ?Q = "\<lambda>bs e r'. case e of None \<Rightarrow> ok r' \<and> content r = bs @ content r'
            | Some x \<Rightarrow> hasPrefix (content r) bs \<and> (x = EOF \<longrightarrow> content r = bs)"
  have err: "?Q (a @ b) (Some x) s'"
    if "?I a s" "length a < n" "read s (n - length a) = Ret (b, Some x, s')" for a s b x s'
  proof -
    from that have "hasPrefix (content s) b" using read_err by blast
    moreover have "x = EOF \<Longrightarrow> content s = b" using that read_eof by blast
    ultimately show ?thesis using that by (auto simp: hasPrefix_iff)
  qed
  have "FullReader_loop read r n [] = Some (Ret (bs, e, r'))"
    using assms by (simp add: FullReader_Read_def)
  then show ?thesis
  proof (rule FullReader_loop_rule[where I = ?I and Q = ?Q])
    show "?I [] r" using assms by simp
    show "?Q (a @ b) (Some x) s'"
      if "?I a s" "length a < n" "read s (n - length a) = Ret (b, Some x, s')" for a s b x s'
      using that by (rule err)
  qed (auto dest: read_more read_ok)
qed

end

locale progress_reader = content_reader +
  fixes rank :: "'r \<Rightarrow> nat"
  assumes progress: "ok r \<Longrightarrow> 0 < n \<Longrightarrow> read r n = Ret ([], None, r') \<Longrightarrow> rank r' < rank r"
    and no_panic: "ok r \<Longrightarrow> read r n \<noteq> Panic m"
begin

text \<open>
  A FullReader over a reader that makes progress returns: each step shortens the missing part
  of the buffer or lowers the rank.
\<close>

lemma loop_returns: "ok r \<Longrightarrow> \<exists>y. FullReader_loop read r n acc = Some (Ret y)"
proof (induction "n - length acc" arbitrary: acc r rule: less_induct)
  case less
  from less.prems show ?case
  proof (induction "rank r" arbitrary: r rule: less_induct)
    case (less r)
    show ?case
    proof (cases "length acc < n")
      case False
      then show ?thesis by (simp add: FullReader_loop_done)
    next
      case True
      show ?thesis
      proof (cases "read r (n - length acc)")
        case (Panic m)
        with less.prems show ?thesis by (simp add: no_panic)
      next
        case (Ret x)
        obtain bs e r' where x: "x = (bs, e, r')" by (cases x)
        show ?thesis
        proof (cases e)
          case (Some err)
          with True Ret x show ?thesis by (simp add: FullReader_loop_error)
        next
          case None
          with Ret x have rd: "read r (n - length acc) = Ret (bs, None, r')" by simp
          with less.prems have ok': "ok r'" using read_ok by blast
          show ?thesis
          proof (cases "bs = []")
            case True
            with rd have "read r (n - length acc) = Ret ([], None, r')" by simp
            moreover have "0 < n - length acc" using \<open>length acc < n\<close> by simp
            ultimately have "rank r' < rank r" using less.prems progress by blast
            then have "\<exists>y. FullReader_loop read r' n acc = Some (Ret y)" using ok' by (rule less.hyps)
            with rd True \<open>length acc < n\<close> show ?thesis by (simp add: FullReader_loop_step)
          next
            case False
            then have "n - length (acc @ bs) < n - length acc" using True by (cases bs) auto
            then have "\<exists>y. FullReader_loop read r' n (acc @ bs) = Some (Ret y)"
              using ok' \<open>\<And>acc' r. n - length acc' < n - length acc \<Longrightarrow> ok r \<Longrightarrow> \<exists>y. FullReader_loop read r n acc' = Some (Ret y)\<close>
              by blast
            with rd True show ?thesis by (simp add: FullReader_loop_step)
          qed
        qed
      qed
    qed
  qed
qed

lemma full_read_returns: "ok r \<Longrightarrow> \<exists>y. FullReader_Read read r n = Some (Ret y)"
  unfolding FullReader_Read_def by (rule loop_returns)

text \<open>Such a FullReader is itself a reader that makes progress: it never returns an unfinished buffer.\<close>

lemma full_read_no_empty: "ok r \<Longrightarrow> 0 < n \<Longrightarrow> FullReader_Read read r n \<noteq> Some (Ret ([], None, r'))"
  using full_read_shape[of r n "[]" None r'] by auto

end

section \<open>Reading on\<close>

text \<open>A consumer that reads with buffers of the given sizes until an error, \<^verbatim>\<open>io.EOF\<close> included.\<close>

fun reads :: "('r \<Rightarrow> nat \<Rightarrow> 'r read_result option) \<Rightarrow> 'r \<Rightarrow> nat list \<Rightarrow> 'r read_result option" where
  "reads rd r [] = Some (Ret ([], None, r))"
| "reads rd r (n # ns) =
     (case rd r n of
        None \<Rightarrow> None
      | Some (Panic m) \<Rightarrow> Some (Panic m)
      | Some (Ret x) \<Rightarrow>
          (case fst (snd x) of
             Some e \<Rightarrow> Some (Ret x)
           | None \<Rightarrow>
               (case reads rd (snd (snd x)) ns of
                  Some (Ret y) \<Rightarrow> Some (Ret (fst x @ fst y, snd y))
                | other \<Rightarrow> other)))"

context content_reader
begin

lemma full_reads_content:
  assumes "ok r" "reads (FullReader_Read read) r ns = Some (Ret (bs, e, r'))"
  shows "hasPrefix (content r) bs \<and> (e = Some EOF \<longrightarrow> content r = bs)"
  using assms
proof (induction ns arbitrary: r bs)
  case Nil
  then show ?case by simp
next
  case (Cons n ns)
  from Cons.prems(2) obtain cs x s where rd: "FullReader_Read read r n = Some (Ret (cs, x, s))"
    by (auto split: option.splits outcome.splits)
  note c = full_read_content[OF Cons.prems(1) rd]
  show ?case
  proof (cases x)
    case (Some err)
    with Cons.prems(2) rd c show ?thesis by auto
  next
    case None
    with Cons.prems(2) rd obtain ds where ds: "reads (FullReader_Read read) s ns = Some (Ret (ds, e, r'))"
      and bs: "bs = cs @ ds"
      by (auto split: option.splits outcome.splits)
    from c None have "ok s" "content r = cs @ content s" by auto
    with Cons.IH[OF _ ds] bs show ?thesis by (auto simp: hasPrefix_iff)
  qed
qed

end

context progress_reader
begin

lemma full_reads_return: "ok r \<Longrightarrow> \<exists>x. reads (FullReader_Read read) r ns = Some (Ret x)"
proof (induction ns arbitrary: r)
  case Nil
  then show ?case by simp
next
  case (Cons n ns)
  then obtain bs e r' where rd: "FullReader_Read read r n = Some (Ret (bs, e, r'))"
    using full_read_returns by (metis prod_cases3)
  show ?case
  proof (cases e)
    case (Some x)
    with rd show ?thesis by simp
  next
    case None
    with full_read_shape[OF Cons.prems rd] have "ok r'" by simp
    with Cons.IH obtain y where "reads (FullReader_Read read) r' ns = Some (Ret y)" by blast
    with rd None show ?thesis by simp
  qed
qed

end

section \<open>bytes.Reader\<close>

text \<open>The reader of Go's \<^verbatim>\<open>bytes\<close> package over the unread part of its slice.\<close>

definition bytesReader_Read :: "bytes read_fun" where
  "bytesReader_Read r n = (if r = [] then Ret ([], Some EOF, []) else Ret (take n r, None, drop n r))"

interpretation bytes_reader: progress_reader bytesReader_Read "\<lambda>r. True" "\<lambda>r. r" "\<lambda>r. 0"
  by unfold_locales (auto simp: bytesReader_Read_def split: if_splits)

end
