(* ===== verification/GoRegexp.thy ===== *)
theory GoRegexp
  imports GoStrings
begin

text \<open>
  Go's \<^verbatim>\<open>regexp\<close> package for the constructs that the program's fixed expressions use. An
  expression is an abstract syntax tree; a match is searched from the left, and among the
  matches at one position the one that a backtracking search finds first wins (\<^verbatim>\<open>regexp\<close>
  documents exactly this choice). \<open>matches r (p, s)\<close> lists all ways in which \<open>r\<close> can match a
  prefix of \<open>s\<close>, \<open>p\<close> being the character before it, best choice first, each with the captured
  groups and what is left of the text.
\<close>

section \<open>Expressions and their matches\<close>

datatype rx =
    Lit string
  | Cls "char \<Rightarrow> bool"
  | Many "char \<Rightarrow> bool"    \<comment> \<open>a greedy \<open>*\<close> of a character class\<close>
  | Seq rx rx
  | Alt rx rx
  | Grp nat rx
  | Bol
  | Eol
  | WordB

type_synonym pos = "char option \<times> string"
type_synonym groups = "(nat \<times> string) list"

definition is_word :: "char \<Rightarrow> bool" where
  "is_word c \<longleftrightarrow> is_digit c \<or> c = CHR ''_'' \<or>
     (65 \<le> (of_char c :: nat) \<and> (of_char c :: nat) \<le> 90) \<or>
     (97 \<le> (of_char c :: nat) \<and> (of_char c :: nat) \<le> 122)"

text \<open>\<^verbatim>\<open>\s\<close> does not contain the vertical tab, unlike \<^verbatim>\<open>strings.TrimSpace\<close>.\<close>

definition rx_space :: "char \<Rightarrow> bool" where
  "rx_space c \<longleftrightarrow> c \<in> {CHR 0x09, CHR 0x0A, CHR 0x0C, CHR 0x0D, CHR '' ''}"

definition advance :: "char option \<Rightarrow> string \<Rightarrow> char option" where
  "advance p consumed = (if consumed = [] then p else Some (last consumed))"

fun many :: "(char \<Rightarrow> bool) \<Rightarrow> char option \<Rightarrow> string \<Rightarrow> pos list" where
  "many P p [] = [(p, [])]"
| "many P p (c # s) = (if P c then many P (Some c) s @ [(p, c # s)] else [(p, c # s)])"

definition opt_word :: "char option \<Rightarrow> bool" where
  "opt_word p = (case p of None \<Rightarrow> False | Some c \<Rightarrow> is_word c)"

fun matches :: "rx \<Rightarrow> pos \<Rightarrow> (pos \<times> groups) list" where
  "matches (Lit l) (p, s) =
     (if hasPrefix s l then [((advance p l, drop (length l) s), [])] else [])"
| "matches (Cls P) (p, s) =
     (case s of [] \<Rightarrow> [] | c # s' \<Rightarrow> if P c then [((Some c, s'), [])] else [])"
| "matches (Many P) (p, s) = map (\<lambda>q. (q, [])) (many P p s)"
| "matches (Seq a b) q =
     concat (map (\<lambda>(q', g). map (\<lambda>(q'', g'). (q'', g @ g')) (matches b q')) (matches a q))"
| "matches (Alt a b) q = matches a q @ matches b q"
| "matches (Grp i a) (p, s) =
     map (\<lambda>(q, g). (q, (i, take (length s - length (snd q)) s) # g)) (matches a (p, s))"
| "matches Bol (p, s) = (if p = None then [((p, s), [])] else [])"
| "matches Eol (p, s) = (if s = [] then [((p, s), [])] else [])"
| "matches WordB (p, s) =
     (if opt_word p \<noteq> (case s of [] \<Rightarrow> False | c # s' \<Rightarrow> is_word c) then [((p, s), [])] else [])"

fun seqs :: "rx list \<Rightarrow> rx" where
  "seqs [] = Lit []"
| "seqs [r] = r"
| "seqs (r # r' # rs) = Seq r (seqs (r' # rs))"

definition Some_of :: "(char \<Rightarrow> bool) \<Rightarrow> rx" where
  "Some_of P = Seq (Cls P) (Many P)"

definition Optional :: "rx \<Rightarrow> rx" where
  "Optional r = Alt r (Lit [])"

section \<open>Searching\<close>

fun find_from :: "rx \<Rightarrow> char option \<Rightarrow> string \<Rightarrow> groups option" where
  "find_from r p [] = (case matches r (p, []) of [] \<Rightarrow> None | (q, g) # _ \<Rightarrow> Some g)"
| "find_from r p (c # s) =
     (case matches r (p, c # s) of
        [] \<Rightarrow> find_from r (Some c) s
      | (q, g) # _ \<Rightarrow> Some g)"

text \<open>\<^verbatim>\<open>FindStringSubmatch\<close> and \<^verbatim>\<open>MatchString\<close>; a group that did not take part is empty.\<close>

definition find_submatch :: "rx \<Rightarrow> string \<Rightarrow> groups option" where
  "find_submatch r s = find_from r None s"

definition match_string :: "rx \<Rightarrow> string \<Rightarrow> bool" where
  "match_string r s \<longleftrightarrow> find_submatch r s \<noteq> None"

definition group :: "groups \<Rightarrow> nat \<Rightarrow> string" where
  "group g i = (case map_of g i of None \<Rightarrow> [] | Some s \<Rightarrow> s)"

lemma group_simps [simp]:
  "group ((i, s) # g) j = (if i = j then s else group g j)"
  "group [] j = []"
  by (simp_all add: group_def)

section \<open>Every match is a prefix of the text\<close>

lemma many_suffix: "(p', s') \<in> set (many P p s) \<Longrightarrow> \<exists>a. s = a @ s' \<and> (\<forall>c\<in>set a. P c)"
proof (induction P p s rule: many.induct)
  case (2 P p c s)
  show ?case
  proof (cases "P c \<and> (p', s') \<in> set (many P (Some c) s)")
    case True
    with 2 obtain a where "s = a @ s'" "\<forall>c\<in>set a. P c" by blast
    with True show ?thesis by (intro exI[of _ "c # a"]) auto
  next
    case False
    with "2.prems" have "s' = c # s" by (auto split: if_splits)
    then show ?thesis by simp
  qed
qed simp

lemma matches_suffix: "((p', s'), g) \<in> set (matches r q) \<Longrightarrow> \<exists>a. snd q = a @ s'"
proof (induction r q arbitrary: p' s' g rule: matches.induct)
  case (1 l p s)
  then show ?case by (auto simp: hasPrefix_def split: if_splits) (metis append_take_drop_id)
next
  case (2 P p s)
  then show ?case by (auto split: list.splits if_splits)
next
  case (3 P p s)
  then show ?case by (auto dest: many_suffix)
next
  case (4 a b q)
  from "4.prems" obtain q1 g1 g2 where ab: "(q1, g1) \<in> set (matches a q)"
    "((p', s'), g2) \<in> set (matches b q1)" by auto
  then obtain x where x: "snd q = x @ snd q1" using "4.IH"(1)[of "fst q1" "snd q1" g1] by auto
  from ab "4.IH"(2)[OF ab(1)] obtain y where "snd q1 = y @ s'" by fastforce
  with x show ?case by simp
next
  case (5 a b q)
  then show ?case by auto
next
  case (6 i a p s)
  then show ?case by auto
qed (auto split: if_splits)

lemma find_from_sound:
  "find_from r p s = Some g \<Longrightarrow> \<exists>p' a b q. s = a @ b \<and> (q, g) \<in> set (matches r (p', b))"
proof (induction r p s rule: find_from.induct)
  case (1 r p)
  then show ?case by (auto split: list.splits) (metis list.set_intros(1))
next
  case (2 r p c s)
  show ?case
  proof (cases "matches r (p, c # s)")
    case Nil
    with "2.prems" have "find_from r (Some c) s = Some g" by simp
    with "2.IH" Nil obtain p' a b q where "s = a @ b" "(q, g) \<in> set (matches r (p', b))" by blast
    then show ?thesis by (intro exI[of _ p'] exI[of _ "c # a"] exI[of _ b] exI[of _ q]) simp
  next
    case (Cons m ms)
    with "2.prems" have "(fst m, g) \<in> set (matches r (p, c # s))" by (cases m) simp
    then have "c # s = [] @ (c # s) \<and> (fst m, g) \<in> set (matches r (p, c # s))" by simp
    then show ?thesis by blast
  qed
qed

section \<open>Anchored expressions\<close>

text \<open>An expression that starts with \<^verbatim>\<open>^\<close> is only tried at the start of the text.\<close>

lemma find_from_anchored_Some: "find_from (Seq Bol r) (Some c) s = None"
  by (induction s arbitrary: c) auto

lemma find_from_anchored:
  "find_from (Seq Bol r) None s =
     (case matches r (None, s) of [] \<Rightarrow> None | (q, g) # _ \<Rightarrow> Some g)"
  by (cases s) (auto simp: find_from_anchored_Some split: list.splits prod.splits)

lemma find_submatch_anchored:
  "find_submatch (Seq Bol r) s =
     (case matches r (None, s) of [] \<Rightarrow> None | (q, g) # _ \<Rightarrow> Some g)"
  by (simp add: find_submatch_def find_from_anchored)

section \<open>Matches of the common building blocks\<close>

text \<open>
  When what follows a greedy repetition can neither start with a character of the class nor
  be empty, only the longest repetition can succeed.
\<close>

definition refuses :: "rx \<Rightarrow> (char \<Rightarrow> bool) \<Rightarrow> bool" where
  "refuses r P \<longleftrightarrow> (\<forall>p c s. P c \<longrightarrow> matches r (p, c # s) = [])"

lemma many_seq_refuses:
  assumes "refuses r P"
  shows "concat (map (matches r) (many P p s)) =
         matches r (advance p (takeWhile P s), dropWhile P s)"
proof (induction s arbitrary: p)
  case Nil
  then show ?case by (simp add: advance_def)
next
  case (Cons c s)
  with assms show ?case by (auto simp: refuses_def advance_def)
qed

lemma matches_Many_Seq:
  assumes "refuses r P"
  shows "matches (Seq (Many P) r) (p, s) =
         matches r (advance p (takeWhile P s), dropWhile P s)"
proof -
  have "matches (Seq (Many P) r) (p, s) = concat (map (matches r) (many P p s))"
    by (simp add: comp_def case_prod_beta)
  then show ?thesis by (simp add: many_seq_refuses[OF assms])
qed

lemma refuses_Eol [simp]: "refuses Eol P"
  by (simp add: refuses_def)

lemma refuses_Lit [simp]: "l \<noteq> [] \<Longrightarrow> \<not> P (hd l) \<Longrightarrow> refuses (Lit l) P"
  by (cases l) (auto simp: refuses_def hasPrefix_def)

lemma refuses_Seq [simp]: "refuses r P \<Longrightarrow> refuses (Seq r r') P"
  by (simp add: refuses_def)

lemma refuses_Cls [simp]: "(\<And>c. P c \<Longrightarrow> \<not> Q c) \<Longrightarrow> refuses (Cls Q) P"
  by (auto simp: refuses_def)

lemma refuses_Grp [simp]: "refuses r P \<Longrightarrow> refuses (Grp i r) P"
  by (simp add: refuses_def)

lemma refuses_Alt [simp]: "refuses r P \<Longrightarrow> refuses r' P \<Longrightarrow> refuses (Alt r r') P"
  by (simp add: refuses_def)

lemma refuses_Some_of [simp]: "(\<And>c. P c \<Longrightarrow> \<not> Q c) \<Longrightarrow> refuses (Some_of Q) P"
  by (simp add: Some_of_def)

lemma take_takeWhile_eq: "take (length s - length (dropWhile P s)) s = takeWhile P s"
proof -
  have "length s - length (dropWhile P s) = length (takeWhile P s)"
    by (metis add_diff_cancel_right' length_append takeWhile_dropWhile_id)
  then show ?thesis by (metis append_eq_conv_conj takeWhile_dropWhile_id)
qed

text \<open>A captured non-empty greedy repetition before something that refuses its class.\<close>

lemma matches_Grp_Some_of:
  assumes "refuses r P"
  shows "matches (Seq (Grp i (Some_of P)) r) (p, s) =
     (if takeWhile P s = [] then []
      else map (\<lambda>(q, g). (q, (i, takeWhile P s) # g))
             (matches r (advance p (takeWhile P s), dropWhile P s)))"
proof (cases s)
  case Nil
  then show ?thesis by (simp add: Some_of_def)
next
  case (Cons c s')
  let ?K = "\<lambda>q :: pos. map (\<lambda>(q', g'). (q', (i, take (length s - length (snd q)) s) # g')) (matches r q)"
  have K: "concat (map ?K (many P (Some c) t)) = ?K (advance (Some c) (takeWhile P t), dropWhile P t)"
    if "refuses r P" for t :: string
  proof -
    have "concat (map ?K (many P p t)) = ?K (advance p (takeWhile P t), dropWhile P t)" for p
      using that by (induction t arbitrary: p) (auto simp: refuses_def advance_def)
    then show ?thesis .
  qed
  show ?thesis
  proof (cases "P c")
    case True
    have "matches (Seq (Grp i (Some_of P)) r) (p, s) = concat (map ?K (many P (Some c) s'))"
      using Cons True by (simp add: Some_of_def comp_def case_prod_beta map_concat)
    also have "\<dots> = ?K (advance (Some c) (takeWhile P s'), dropWhile P s')"
      by (rule K[OF assms])
    also have "\<dots> = map (\<lambda>(q, g). (q, (i, takeWhile P s) # g))
             (matches r (advance p (takeWhile P s), dropWhile P s))"
      using Cons True take_takeWhile_eq[of s P] by (auto simp: advance_def)
    finally show ?thesis using Cons True by simp
  next
    case False
    with Cons show ?thesis by (simp add: Some_of_def)
  qed
qed

text \<open>A text that splits into a repetition and a rest that does not continue it.\<close>

lemma takeWhile_split:
  "\<forall>c\<in>set a. P c \<Longrightarrow> b = [] \<or> \<not> P (hd b) \<Longrightarrow> takeWhile P (a @ b) = a \<and> dropWhile P (a @ b) = b"
  by (simp add: takeWhile_append_all dropWhile_append_all takeWhile_stop dropWhile_stop)

text \<open>A literal, and the anchor at the end.\<close>

lemma matches_Lit_Seq:
  "matches (Seq (Lit l) r) (p, s) =
     (case cutPrefix s l of None \<Rightarrow> [] | Some t \<Rightarrow> matches r (advance p l, t))"
  by (simp add: cutPrefix_def)

lemma matches_Bol_Seq: "matches (Seq Bol r) (None, s) = matches r (None, s)"
  by simp

lemma cutPrefix_append [simp]: "cutPrefix (p @ t) p = Some t"
  by (simp add: cutPrefix_Some_iff)

lemma takeWhile_eq_self_iff: "takeWhile P s = s \<longleftrightarrow> list_all P s"
  by (induction s) auto

lemma dropWhile_Nil_iff: "dropWhile P s = [] \<longleftrightarrow> list_all P s"
  by (induction s) auto

lemma takeWhile_Nil_iff: "takeWhile P s = [] \<longleftrightarrow> s = [] \<or> \<not> P (hd s)"
  by (cases s) auto

lemma matches_Grp_Some_of_Eol:
  "matches (Seq (Grp i (Some_of P)) Eol) (p, s) =
     (if s \<noteq> [] \<and> list_all P s then [((Some (last s), []), [(i, s)])] else [])"
proof (cases "list_all P s")
  case True
  then have "dropWhile P s = []" "takeWhile P s = s"
    by (simp_all only: dropWhile_Nil_iff takeWhile_eq_self_iff)
  then show ?thesis
    unfolding matches_Grp_Some_of[OF refuses_Eol] \<open>dropWhile P s = []\<close> \<open>takeWhile P s = s\<close>
    using True by (simp add: advance_def)
next
  case False
  then have "dropWhile P s \<noteq> []" by (simp only: dropWhile_Nil_iff not_False_eq_True)
  then show ?thesis
    unfolding matches_Grp_Some_of[OF refuses_Eol] using False by (simp del: dropWhile_eq_Nil_conv)
qed

lemma takeWhile_cutPrefix:
  "cutPrefix (dropWhile P s) l = Some t \<Longrightarrow> takeWhile P s @ l @ t = s"
  by (metis cutPrefix_Some_iff takeWhile_dropWhile_id)

end
