(* ===== verification/Downloader.thy ===== *)
theory Downloader
  imports Http Numeric IoReader GoRegexp
begin

text \<open>
  \<^verbatim>\<open>pkg/util/http.go\<close>: the download of a file in segments. The record \<open>downloader\<close> is
  \<^verbatim>\<open>struct downloader\<close> without its context and client, which are arguments here (its field
  \<^verbatim>\<open>Err\<close> is never written or read by the code); \<open>'w\<close> is the state of the outside world that
  requests change, \<open>'b\<close> a response body. A nil dereference is a \<open>Panic\<close>.
\<close>

section \<open>Content-Range\<close>

definition contentRangeRx :: rx where
  "contentRangeRx =
     seqs [Bol, Lit ''bytes '', Grp 1 (Some_of is_digit), Lit ''-'', Grp 2 (Some_of is_digit),
           Lit ''/'', Grp 3 (Alt (Lit ''*'') (Some_of is_digit)), Eol]"

text \<open>The result is \<open>None\<close> where the code returns \<^verbatim>\<open>ok = false\<close> with zero values.\<close>

definition parseContentRange :: "string \<Rightarrow> (u64 \<times> u64 \<times> u64 option) option" where
  "parseContentRange headerValue =
     (case find_submatch contentRangeRx headerValue of
        None \<Rightarrow> None
      | Some match \<Rightarrow>
          (case parseUint 64 (group match 1) of
             Inl err \<Rightarrow> None
           | Inr start \<Rightarrow>
               (case parseUint 64 (group match 2) of
                  Inl err \<Rightarrow> None
                | Inr stop \<Rightarrow>
                    if stop < start then None
                    else if group match 3 \<noteq> ''*'' then
                      (case parseUint 64 (group match 3) of
                         Inl err \<Rightarrow> None
                       | Inr totalValue \<Rightarrow> Some (of_nat start, of_nat stop, Some (of_nat totalValue)))
                    else Some (of_nat start, of_nat stop, None))))"

section \<open>State\<close>

definition maxTotalRetryCount :: nat where "maxTotalRetryCount = 10"
definition maxRetryCount :: nat where "maxRetryCount = 3"

record 'b downloader =
  dURI :: string
  dRequestHeaders :: header
  dSegmentBytes :: u64
  dEtag :: string
  dBytesRead :: u64
  dBytesTotal :: "u64 option"
  dReader :: "'b option"
  dLastErrorAtBytesRead :: u64
  dLastErrorRetryCount :: nat
  dTotalRetryCount :: nat

record parsedResponseHeaders =
  ContentRangeStart :: u64
  ContentRangeLength :: u64

definition newDownloader :: "string \<Rightarrow> header \<Rightarrow> u64 \<Rightarrow> 'b downloader" where
  "newDownloader uri requestHeaders segmentBytes =
     \<lparr>dURI = uri, dRequestHeaders = requestHeaders, dSegmentBytes = segmentBytes, dEtag = [],
      dBytesRead = 0, dBytesTotal = None, dReader = None, dLastErrorAtBytesRead = 0,
      dLastErrorRetryCount = 0, dTotalRetryCount = 0\<rparr>"

section \<open>Requests\<close>

definition buildRequest :: "('w, 'b) client \<Rightarrow> 'b downloader \<Rightarrow> goerror + request" where
  "buildRequest cl d =
     (case cl_newRequest cl (dURI d) of
        Some err \<Rightarrow> Inl err
      | None \<Rightarrow> Inr \<lparr>req_uri = dURI d, req_header = header_copy no_header (dRequestHeaders d)\<rparr>)"

definition chunkEnd :: "'b downloader \<Rightarrow> u64" where
  "chunkEnd d =
     (let end = dBytesRead d + dSegmentBytes d
      in case dBytesTotal d of
           None \<Rightarrow> end
         | Some tot \<Rightarrow> if 0 < tot \<and> tot < end then tot else end)"

definition rangeHeader :: "u64 \<Rightarrow> u64 \<Rightarrow> string" where
  "rangeHeader start end =
     ''bytes='' @ decimal (unat start) @ ''-'' @ decimal (unat (end - 1))"

text \<open>
  \<^verbatim>\<open>getNextChunk\<close> returns a response, the parsed headers and an error, any of which can be nil.
\<close>

type_synonym 'b chunk_result =
  "('b response option \<times> parsedResponseHeaders option \<times> goerror option) outcome"

definition checkContentRange ::
  "'b downloader \<Rightarrow> 'b response \<Rightarrow> 'b downloader \<times> 'b chunk_result" where
  "checkContentRange d resp =
     (let contentRange = header_get (resp_header resp) ''Content-Range''
      in (case parseContentRange contentRange of
           None \<Rightarrow>
             (d, Ret (None, None, Some (Err (''malformed response header: Content-Range: '' @ contentRange))))
         | Some (start, stop, tot) \<Rightarrow>
             let headers = \<lparr>ContentRangeStart = start, ContentRangeLength = stop - start + 1\<rparr>
             in (case dBytesTotal d of
                  None \<Rightarrow> (d\<lparr>dBytesTotal := tot\<rparr>, Ret (Some resp, Some headers, None))
                | Some known \<Rightarrow>
                    (case tot of
                       None \<Rightarrow> (d, Panic ''nil dereference of total'')
                     | Some t \<Rightarrow>
                         if known \<noteq> t then
                           (d, Ret (None, None, Some (Err (''Content-Length has changed mid-transfer: '' @
                              decimal (unat known) @ '' -> '' @ decimal (unat t)))))
                         else (d, Ret (Some resp, Some headers, None))))))"

definition getNextChunk ::
  "('w, 'b) client \<Rightarrow> 'w \<Rightarrow> 'b downloader \<Rightarrow> 'w \<times> 'b downloader \<times> 'b chunk_result" where
  "getNextChunk cl w d =
     (case buildRequest cl d of
        Inl err \<Rightarrow> (w, d, Ret (None, None, Some err))
      | Inr req0 \<Rightarrow>
          let req = req0\<lparr>req_header :=
                header_set (req_header req0) ''Range'' (rangeHeader (dBytesRead d) (chunkEnd d))\<rparr>
          in (case cl_do cl w req of
               (w', Inl err) \<Rightarrow> (w', d, Ret (None, None, Some err))
             | (w', Inr resp) \<Rightarrow>
                 let etag = header_get (resp_header resp) ''Etag''
                 in if dEtag d \<noteq> [] \<and> dEtag d \<noteq> etag then
                      (w', d, Ret (None, None, Some (Err (''value of Etag has changed mid-transfer: '' @
                         quote (dEtag d) @ '' -> '' @ quote etag))))
                    else
                      let d1 = (if dEtag d = [] then d\<lparr>dEtag := etag\<rparr> else d)
                      in if resp_code resp = StatusPartialContent
                         then (w', checkContentRange d1 resp)
                         else (w', d1, Ret (Some resp,
                                 Some \<lparr>ContentRangeStart = 0, ContentRangeLength = 0\<rparr>, None))))"

section \<open>Retries\<close>

definition shouldRetry :: "'b downloader \<Rightarrow> bool \<times> 'b downloader" where
  "shouldRetry d0 =
     (let d = d0\<lparr>dTotalRetryCount := dTotalRetryCount d0 + 1\<rparr>
      in if maxTotalRetryCount < dTotalRetryCount d then (False, d)
         else if dLastErrorAtBytesRead d \<noteq> dBytesRead d
         then (True, d\<lparr>dLastErrorAtBytesRead := dBytesRead d, dLastErrorRetryCount := 0\<rparr>)
         else
           let d' = d\<lparr>dLastErrorRetryCount := dLastErrorRetryCount d + 1\<rparr>
           in (dLastErrorRetryCount d' \<le> maxRetryCount, d'))"

section \<open>Read and Close\<close>

text \<open>The part of \<^verbatim>\<open>Read\<close> after the switch: the current body gave \<open>bs\<close> and is used up.\<close>

definition readNextChunk ::
  "('w, 'b) client \<Rightarrow> 'w \<Rightarrow> 'b downloader \<Rightarrow> bytes \<Rightarrow> ('w \<times> 'b downloader) read_result" where
  "readNextChunk cl w d bs =
     (if dBytesTotal d = Some (dBytesRead d) then Ret (bs, Some EOF, (w, d))
      else
        (case getNextChunk cl w d of
           (w', d', Panic m) \<Rightarrow> Panic m
         | (w', d', Ret (resp, headers, err)) \<Rightarrow>
             (case err of
                Some e \<Rightarrow> Ret (bs, Some e, (w', d'))
              | None \<Rightarrow>
                  (case headers of
                     None \<Rightarrow> Panic ''nil dereference of headers''
                   | Some h \<Rightarrow>
                       if ContentRangeStart h \<noteq> dBytesRead d' then
                         Ret (bs, Some (Err (''expected next segment to start at offset '' @
                                decimal (unat (dBytesRead d')) @ '', but starts at '' @
                                decimal (unat (ContentRangeStart h)))), (w', d'))
                       else
                         (case resp of
                            None \<Rightarrow> Panic ''nil dereference of resp''
                          | Some r \<Rightarrow> Ret (bs, None, (w', d'\<lparr>dReader := Some (resp_body r)\<rparr>)))))))"

definition downloader_Read :: "('w, 'b) client \<Rightarrow> ('w \<times> 'b downloader) read_fun" where
  "downloader_Read cl wd n =
     (let w = fst wd; d = snd wd
      in case dReader d of
           None \<Rightarrow> Ret ([], Some EOF, (w, d))
         | Some body \<Rightarrow>
             (case cl_read cl body n of (bs, err, body') \<Rightarrow>
               let d1 = d\<lparr>dReader := Some body',
                          dBytesRead := dBytesRead d + AtLeastZero (of_nat (length bs))\<rparr>
               in (case err of
                    None \<Rightarrow> Ret (bs, None, (w, d1))
                  | Some e \<Rightarrow>
                      if is_eof e then
                        (let d2 = d1\<lparr>dReader := None\<rparr>
                         in (case cl_close cl body' of
                               Some e' \<Rightarrow> Ret (bs, Some e', (w, d2))
                             | None \<Rightarrow> readNextChunk cl w d2 bs))
                      else
                        (case shouldRetry d1 of (retry, d2) \<Rightarrow>
                           if \<not> retry then Ret (bs, Some e, (w, d2))
                           else readNextChunk cl w d2 bs))))"

definition downloader_Close :: "('w, 'b) client \<Rightarrow> 'b downloader \<Rightarrow> goerror option" where
  "downloader_Close cl d = (case dReader d of None \<Rightarrow> None | Some body \<Rightarrow> cl_close cl body)"

section \<open>EnhancedGet\<close>

text \<open>The body of the response that \<^verbatim>\<open>EnhancedGet\<close> returns, a FullReader around the downloader if hijacked.\<close>

datatype 'b getBody = Plain 'b | Hijacked "'b downloader"

definition with_body :: "('b \<Rightarrow> 'c) \<Rightarrow> 'b response \<Rightarrow> 'c response" where
  "with_body f resp =
     \<lparr>resp_status = resp_status resp, resp_code = resp_code resp, resp_header = resp_header resp,
      resp_length = resp_length resp, resp_body = f (resp_body resp)\<rparr>"

definition MaxInt64 :: u64 where "MaxInt64 = 9223372036854775807"

definition hijack :: "'b downloader \<Rightarrow> 'b response \<Rightarrow> parsedResponseHeaders \<Rightarrow>
    ('b getBody response option \<times> goerror option) outcome" where
  "hijack d resp headers =
     (let ok = resp\<lparr>resp_status := ''200 OK'', resp_code := StatusOK\<rparr>
      in case dBytesTotal d of
           None \<Rightarrow> Panic ''nil dereference of d.BytesTotal''
         | Some tot \<Rightarrow>
             if 0 < tot \<and> tot = ContentRangeLength headers then Ret (Some (with_body Plain ok), None)
             else
               let resp' = with_body (\<lambda>b. Hijacked (d\<lparr>dReader := Some b\<rparr>)) ok
               in if 0 < tot then
                    if MaxInt64 < tot then Ret (Some resp', Some (Err ''total bytes exceed int64''))
                    else Ret (Some (resp'\<lparr>resp_length := tot\<rparr>), None)
                  else Ret (Some resp', None))"

definition EnhancedGet :: "('w, 'b) client \<Rightarrow> 'w \<Rightarrow> string \<Rightarrow> header \<Rightarrow> u64 \<Rightarrow>
    'w \<times> ('b getBody response option \<times> goerror option) outcome" where
  "EnhancedGet cl w uri requestHeaders segmentBytes =
     (case getNextChunk cl w (newDownloader uri requestHeaders segmentBytes) of
        (w', d, Panic m) \<Rightarrow> (w', Panic m)
      | (w', d, Ret (resp, headers, err)) \<Rightarrow>
          (case resp of
             None \<Rightarrow> (w', if err = None then Panic ''nil dereference of resp'' else Ret (None, err))
           | Some r \<Rightarrow>
               if resp_code r = StatusRangeNotSatisfiable then
                 (case buildRequest cl d of
                    Inl e \<Rightarrow> (w', Ret (None, Some e))
                  | Inr req \<Rightarrow>
                      (case cl_do cl w' req of
                         (w'', Inl e) \<Rightarrow> (w'', Ret (None, Some e))
                       | (w'', Inr r') \<Rightarrow> (w'', Ret (Some (with_body Plain r'), None))))
               else if err \<noteq> None \<or> resp_code r \<noteq> StatusPartialContent then
                 (w', Ret (Some (with_body Plain r), err))
               else
                 (case headers of
                    None \<Rightarrow> (w', Panic ''nil dereference of headers'')
                  | Some h \<Rightarrow> (w', hijack d r h))))"

end
