(* ===== verification/DownloaderProps.thy ===== *)
theory DownloaderProps
  imports Downloader
begin

text \<open>
  What the segmented download of \<^verbatim>\<open>pkg/util/http.go\<close> guarantees: the grammar of the
  Content-Range header, the bounds of the requested ranges, the retry budget, and the main
  result, that reading the body returned by \<^verbatim>\<open>EnhancedGet\<close> delivers exactly the bytes of the
  file, whatever the segment size and wherever reads fail, and that every such read returns.
\<close>

section \<open>Content-Range\<close>

definition numeral_of :: "string \<Rightarrow> nat \<Rightarrow> bool" where
  "numeral_of ds n \<longleftrightarrow> ds \<noteq> [] \<and> list_all is_digit ds \<and> digits_val ds = n"

lemma numeral_of_decimal [simp]: "numeral_of (decimal n) n"
  by (simp add: numeral_of_def)

lemma not_digit [simp]:
  "\<not> is_digit (CHR ''-'')" "\<not> is_digit (CHR ''/'')" "\<not> is_digit (CHR ''*'')"
  by (simp_all add: is_digit_def)

lemma digits_then [simp]:
  assumes "list_all is_digit ds" "rest = [] \<or> \<not> is_digit (hd rest)"
  shows "takeWhile is_digit (ds @ rest) = ds" "dropWhile is_digit (ds @ rest) = rest"
  using takeWhile_split[of ds is_digit rest] assms by (auto simp: list_all_iff)

lemma matches_total_star: "matches (Seq (Grp 3 (Alt (Lit ''*'') (Some_of is_digit))) Eol) (p, ''*'') =
     [((Some (CHR ''*''), []), [(3, ''*'')])]"
  by (simp add: Some_of_def hasPrefix_def advance_def)

lemma matches_total_digits:
  assumes "\<not> hasPrefix s ''*''"
  shows "matches (Seq (Grp 3 (Alt (Lit ''*'') (Some_of is_digit))) Eol) (p, s) =
     matches (Seq (Grp 3 (Some_of is_digit)) Eol) (p, s)"
  using assms by simp

definition totalRx :: rx where
  "totalRx = Seq (Grp 3 (Alt (Lit ''*'') (Some_of is_digit))) Eol"

lemma matches_totalRx:
  "matches totalRx (p, s) =
     (if s = ''*'' then [((Some (CHR ''*''), []), [(3, s)])]
      else if s \<noteq> [] \<and> list_all is_digit s then [((Some (last s), []), [(3, s)])]
      else [])"
proof (cases "hasPrefix s ''*''")
  case True
  then obtain t where s: "s = CHR ''*'' # t" by (auto simp: strs)
  show ?thesis
  proof (cases "t = []")
    case True
    with s show ?thesis using matches_total_star by (simp add: totalRx_def)
  next
    case False
    with s show ?thesis by (simp add: totalRx_def Some_of_def hasPrefix_def)
  qed
next
  case False
  then have "s \<noteq> ''*''" by (auto simp: strs)
  then show ?thesis
    unfolding totalRx_def matches_total_digits[OF False] matches_Grp_Some_of_Eol by simp
qed

text \<open>The texts that the expression accepts, from their three parts.\<close>

definition contentRangeText :: "string \<Rightarrow> string \<Rightarrow> string \<Rightarrow> string" where
  "contentRangeText a b t = ''bytes '' @ a @ ''-'' @ b @ ''/'' @ t"

definition range_parts :: "string \<Rightarrow> string \<Rightarrow> string \<Rightarrow> bool" where
  "range_parts a b t \<longleftrightarrow> a \<noteq> [] \<and> list_all is_digit a \<and> b \<noteq> [] \<and> list_all is_digit b \<and>
     (t = ''*'' \<or> t \<noteq> [] \<and> list_all is_digit t)"

lemma contentRangeRx_eq:
  "contentRangeRx = Seq Bol (Seq (Lit ''bytes '') (Seq (Grp 1 (Some_of is_digit))
     (Seq (Lit ''-'') (Seq (Grp 2 (Some_of is_digit)) (Seq (Lit ''/'') totalRx)))))"
  by (simp add: contentRangeRx_def totalRx_def)

lemma contentRange_matches:
  "matches (Seq (Lit ''bytes '') (Seq (Grp 1 (Some_of is_digit))
     (Seq (Lit ''-'') (Seq (Grp 2 (Some_of is_digit)) (Seq (Lit ''/'') totalRx))))) (p, s) =
   (case cutPrefix s ''bytes '' of None \<Rightarrow> [] | Some s1 \<Rightarrow>
     if takeWhile is_digit s1 = [] then [] else
     (case cutPrefix (dropWhile is_digit s1) ''-'' of None \<Rightarrow> [] | Some s2 \<Rightarrow>
       if takeWhile is_digit s2 = [] then [] else
       (case cutPrefix (dropWhile is_digit s2) ''/'' of None \<Rightarrow> [] | Some s3 \<Rightarrow>
         if s3 = ''*'' \<or> s3 \<noteq> [] \<and> list_all is_digit s3
         then [((Some (if s3 = ''*'' then CHR ''*'' else last s3), []),
                [(1, takeWhile is_digit s1), (2, takeWhile is_digit s2), (3, s3)])]
         else [])))"
proof -
  let ?r2 = "Seq (Lit ''/'') totalRx" and ?r1 = "Seq (Lit ''-'') (Seq (Grp 2 (Some_of is_digit)) (Seq (Lit ''/'') totalRx))"
  have r2: "refuses ?r2 is_digit" and r1: "refuses ?r1 is_digit" by simp_all
  note unfolds = matches_Lit_Seq matches_Grp_Some_of[OF r1] matches_Grp_Some_of[OF r2] matches_totalRx
  show ?thesis
  proof (cases "cutPrefix s ''bytes ''")
    case None
    then show ?thesis by (simp only: unfolds option.case)
  next
    case s1: (Some s1)
    show ?thesis
    proof (cases "cutPrefix (dropWhile is_digit s1) ''-''")
      case None
      with s1 show ?thesis by (simp only: unfolds option.case list.map)
    next
      case s2: (Some s2)
      show ?thesis
      proof (cases "cutPrefix (dropWhile is_digit s2) ''/''")
        case None
        with s1 s2 show ?thesis
          by (simp only: unfolds option.case list.map if_cancel)
      next
        case s3: (Some s3)
        show ?thesis
          by (simp only: unfolds s1 s2 s3 option.case if_distrib[of "map _"] list.map case_prod_conv One_nat_def)
            (cases "takeWhile is_digit s1 = []"; cases "takeWhile is_digit s2 = []"; cases "s3 = ''*''";
              cases "s3 \<noteq> [] \<and> list_all is_digit s3"; simp only: if_False if_True simp_thms)
      qed
    qed
  qed
qed

lemma find_contentRange_iff:
  "find_submatch contentRangeRx s = Some g \<longleftrightarrow>
     (\<exists>a b t. s = contentRangeText a b t \<and> range_parts a b t \<and> g = [(1, a), (2, b), (3, t)])"
    (is "?L \<longleftrightarrow> ?R")
proof
  assume ?L
  then obtain s1 s2 s3 where s1: "cutPrefix s ''bytes '' = Some s1"
    and a: "takeWhile is_digit s1 \<noteq> []" and s2: "cutPrefix (dropWhile is_digit s1) ''-'' = Some s2"
    and b: "takeWhile is_digit s2 \<noteq> []" and s3: "cutPrefix (dropWhile is_digit s2) ''/'' = Some s3"
    and t: "s3 = ''*'' \<or> s3 \<noteq> [] \<and> list_all is_digit s3"
    and g: "g = [(1, takeWhile is_digit s1), (2, takeWhile is_digit s2), (3, s3)]"
    unfolding contentRangeRx_eq find_submatch_anchored contentRange_matches
    by (auto split: option.splits if_splits)
  have "contentRangeText (takeWhile is_digit s1) (takeWhile is_digit s2) s3 = ''bytes '' @ s1"
    by (simp only: contentRangeText_def takeWhile_cutPrefix[OF s2] takeWhile_cutPrefix[OF s3])
  also have "\<dots> = s" using s1 by (simp only: cutPrefix_Some_iff)
  finally have "s = contentRangeText (takeWhile is_digit s1) (takeWhile is_digit s2) s3" by (rule sym)
  moreover have "range_parts (takeWhile is_digit s1) (takeWhile is_digit s2) s3"
    using a b t by (auto simp: range_parts_def list_all_iff dest: set_takeWhileD)
  ultimately show ?R using g by blast
next
  assume ?R
  then obtain a b t where s: "s = contentRangeText a b t" and p: "range_parts a b t"
    and g: "g = [(1, a), (2, b), (3, t)]" by blast
  from p have d: "list_all is_digit a" "list_all is_digit b" "a \<noteq> []" "b \<noteq> []"
    and t: "t = ''*'' \<or> t \<noteq> [] \<and> list_all is_digit t" by (simp_all add: range_parts_def)
  have "cutPrefix s ''bytes '' = Some (a @ ''-'' @ b @ ''/'' @ t)"
    unfolding s contentRangeText_def by (rule cutPrefix_append)
  moreover have "takeWhile is_digit (a @ ''-'' @ b @ ''/'' @ t) = a"
    "dropWhile is_digit (a @ ''-'' @ b @ ''/'' @ t) = ''-'' @ b @ ''/'' @ t"
    "takeWhile is_digit (b @ ''/'' @ t) = b" "dropWhile is_digit (b @ ''/'' @ t) = ''/'' @ t"
    using d by (intro digits_then; simp)+
  moreover have "cutPrefix (''-'' @ b @ ''/'' @ t) ''-'' = Some (b @ ''/'' @ t)"
    "cutPrefix (''/'' @ t) ''/'' = Some t" by (rule cutPrefix_append)+
  ultimately show ?L
    unfolding contentRangeRx_eq find_submatch_anchored contentRange_matches using d t g by simp
qed

lemma contentRange_group [simp]:
  "group [(1, a), (2, b), (3, t)] 1 = a" "group [(1, a), (2, b), (3, t)] 2 = b"
  "group [(1, a), (2, b), (3, t)] 3 = t"
  by simp_all

lemma not_numeral_star [simp]: "\<not> numeral_of ''*'' n"
  by (simp add: numeral_of_def)

lemma parseUint_numeral: "parseUint bits s = Inr n \<longleftrightarrow> numeral_of s n \<and> n < 2 ^ bits"
  by (auto simp: parseUint_Inr_iff numeral_of_def)

text \<open>
  \<^verbatim>\<open>parseContentRange\<close> accepts exactly the headers of RFC 7233 for a satisfied range whose numbers
  fit 64 bits and are in order.
\<close>

lemma parseContentRange_iff:
  "parseContentRange s = Some (start, stop, tot) \<longleftrightarrow>
     start \<le> stop \<and>
     (\<exists>a b t. s = contentRangeText a b t \<and> numeral_of a (unat start) \<and> numeral_of b (unat stop) \<and>
        (case tot of None \<Rightarrow> t = ''*'' | Some n \<Rightarrow> numeral_of t (unat n)))"
    (is "?L \<longleftrightarrow> ?R")
proof
  assume ?L
  then obtain g where g: "find_submatch contentRangeRx s = Some g"
    by (auto simp: parseContentRange_def split: option.splits)
  then obtain a b t where s: "s = contentRangeText a b t" and ge: "g = [(1, a), (2, b), (3, t)]"
    unfolding find_contentRange_iff by blast
  from \<open>?L\<close> g obtain m n where m: "parseUint 64 a = Inr m" "parseUint 64 b = Inr n" "m \<le> n"
    and w: "start = of_nat m" "stop = of_nat n"
    and t: "t = ''*'' \<and> tot = None \<or> (\<exists>k. parseUint 64 t = Inr k \<and> tot = Some (of_nat k))"
    unfolding parseContentRange_def ge
    by (auto split: option.splits sum.splits if_splits simp del: One_nat_def)
  from m w have "numeral_of a (unat start)" "numeral_of b (unat stop)" "start \<le> stop"
    by (auto simp: parseUint_numeral unat_of_nat_u64 word_le_nat_alt)
  moreover from t have "case tot of None \<Rightarrow> t = ''*'' | Some n \<Rightarrow> numeral_of t (unat n)"
    by (auto simp: parseUint_numeral unat_of_nat_u64)
  ultimately show ?R using s by blast
next
  assume ?R
  then obtain a b t where s: "s = contentRangeText a b t" and le: "start \<le> stop"
    and ab: "numeral_of a (unat start)" "numeral_of b (unat stop)"
    and t: "case tot of None \<Rightarrow> t = ''*'' | Some n \<Rightarrow> numeral_of t (unat n)" by blast
  have "range_parts a b t"
    using ab t by (auto simp: range_parts_def numeral_of_def split: option.splits)
  then have g: "find_submatch contentRangeRx s = Some [(1, a), (2, b), (3, t)]"
    unfolding find_contentRange_iff using s by blast
  have "parseUint 64 a = Inr (unat start)" "parseUint 64 b = Inr (unat stop)"
    using ab unat_u64_less by (simp_all only: parseUint_numeral)
  moreover have "tot = Some n \<Longrightarrow> parseUint 64 t = Inr (unat n)" for n
    using t unat_u64_less by (simp only: parseUint_numeral option.case)
  moreover have "t = ''*'' \<longleftrightarrow> tot = None" using t by (auto split: option.splits)
  ultimately show ?L
    unfolding parseContentRange_def g using le
    by (cases tot) (simp_all add: word_le_nat_alt del: One_nat_def)
qed

text \<open>A header written with decimal numbers is read back.\<close>

lemma parseContentRange_roundtrip:
  assumes "start \<le> stop"
  shows "parseContentRange (contentRangeText (decimal (unat start)) (decimal (unat stop))
           (case tot of None \<Rightarrow> ''*'' | Some n \<Rightarrow> decimal (unat n))) = Some (start, stop, tot)"
  unfolding parseContentRange_iff using assms numeral_of_decimal
  by (auto split: option.split intro!: exI)

section \<open>What the server and its response bodies promise\<close>

text \<open>
  The environment is \<^verbatim>\<open>net/http\<close> and a server that has the file \<open>F\<close> under the URL \<open>uri\<close>; \<open>bcont\<close> is the
  rest of a response body. \<open>body_law\<close> is the documented contract of a response body: reads deliver its content in
  order and may fail anywhere, a read into a non-empty buffer returns something or an error, an
  \<^verbatim>\<open>io.EOF\<close> comes at the end only, and closing does not fail with \<^verbatim>\<open>io.EOF\<close>. \<open>range_law\<close> is what
  RFC 7233 says of a server that has the file: a request for it with the headers \<open>hdr\<close> and a range
  that starts inside the file fails in transport, or gets the whole file with status 200, or gets
  status 206 with a non-empty part of the file that starts where the range starts. Any other status
  is an answer, too, if the range does not start at 0.
\<close>

definition body_law :: "('w, 'b) client \<Rightarrow> ('b \<Rightarrow> bytes) \<Rightarrow> bool" where
  "body_law cl bcont \<longleftrightarrow>
     (\<forall>b n bs e b'. cl_read cl b n = (bs, e, b') \<longrightarrow>
        length bs \<le> n \<and> hasPrefix (bcont b) bs \<and>
        (e = None \<longrightarrow> bcont b = bs @ bcont b' \<and> (0 < n \<longrightarrow> bs \<noteq> [])) \<and>
        (\<forall>x. e = Some x \<longrightarrow> is_eof x \<longrightarrow> bcont b = bs)) \<and>
     (\<forall>b. cl_close cl b \<noteq> Some EOF)"

definition partial_response :: "('b \<Rightarrow> bytes) \<Rightarrow> bytes \<Rightarrow> u64 \<Rightarrow> 'b response \<Rightarrow> bool" where
  "partial_response bcont F start resp \<longleftrightarrow>
     resp_code resp = StatusPartialContent \<and>
     (\<exists>stop. parseContentRange (header_get (resp_header resp) ''Content-Range'') =
               Some (start, stop, Some (of_nat (length F))) \<and>
             start \<le> stop \<and> unat stop < length F \<and>
             bcont (resp_body resp) = take (unat stop - unat start + 1) (drop (unat start) F))"

definition rangeRequest :: "string \<Rightarrow> header \<Rightarrow> u64 \<Rightarrow> u64 \<Rightarrow> request" where
  "rangeRequest uri hdr start stop =
     \<lparr>req_uri = uri, req_header = header_set (header_copy no_header hdr) ''Range'' (rangeHeader start stop)\<rparr>"

definition range_law :: "('w, 'b) client \<Rightarrow> ('b \<Rightarrow> bytes) \<Rightarrow> string \<Rightarrow> header \<Rightarrow> bytes \<Rightarrow> bool" where
  "range_law cl bcont uri hdr F \<longleftrightarrow>
     cl_newRequest cl uri \<noteq> Some EOF \<and>
     (\<forall>w start stop w' r. cl_do cl w (rangeRequest uri hdr start stop) = (w', r) \<longrightarrow>
        r \<noteq> Inl EOF \<and>
        (\<forall>resp. r = Inr resp \<longrightarrow> start < stop \<longrightarrow> unat start < length F \<longrightarrow>
           partial_response bcont F start resp \<or>
           resp_code resp = StatusOK \<and> bcont (resp_body resp) = F \<or>
           0 < start \<and> resp_code resp \<notin> {StatusOK, StatusPartialContent}))"

lemma body_law_read:
  assumes "body_law cl bcont" "cl_read cl b n = (bs, e, b')"
  shows "length bs \<le> n" "hasPrefix (bcont b) bs" "e = None \<Longrightarrow> bcont b = bs @ bcont b'"
    "e = None \<Longrightarrow> 0 < n \<Longrightarrow> bs \<noteq> []" "e = Some x \<Longrightarrow> is_eof x \<Longrightarrow> bcont b = bs"
  using assms unfolding body_law_def by blast+

lemma body_law_close: "body_law cl bcont \<Longrightarrow> cl_close cl b \<noteq> Some EOF"
  by (simp add: body_law_def)

lemma range_law_newRequest: "range_law cl bcont uri hdr F \<Longrightarrow> cl_newRequest cl uri \<noteq> Some EOF"
  by (simp add: range_law_def)

lemma range_law_do:
  assumes "range_law cl bcont uri hdr F" "cl_do cl w (rangeRequest uri hdr start stop) = (w', Inr resp)"
    "start < stop" "unat start < length F"
  shows "partial_response bcont F start resp \<or>
    resp_code resp = StatusOK \<and> bcont (resp_body resp) = F \<or>
    0 < start \<and> resp_code resp \<notin> {StatusOK, StatusPartialContent}"
  using assms unfolding range_law_def by blast

lemma range_law_error:
  "range_law cl bcont uri hdr F \<Longrightarrow> cl_do cl w (rangeRequest uri hdr start stop) = (w', Inl e) \<Longrightarrow> e \<noteq> EOF"
  unfolding range_law_def by blast

section \<open>The requested range\<close>

definition segment_fits :: "nat \<Rightarrow> 'b downloader \<Rightarrow> bool" where
  "segment_fits len d \<longleftrightarrow>
     len < 2 ^ 63 \<and> 0 < dSegmentBytes d \<and> len + unat (dSegmentBytes d) < 2 ^ 64 \<and>
     (dBytesTotal d = None \<or> dBytesTotal d = Some (of_nat len))"

text \<open>A request never asks for an empty range, and never for one beyond the known end of the file.\<close>

lemma chunkEnd_bounds:
  assumes "segment_fits len d" "unat (dBytesRead d) < len"
  shows "dBytesRead d < chunkEnd d"
    and "unat (chunkEnd d) - unat (dBytesRead d) \<le> unat (dSegmentBytes d)"
    and "dBytesTotal d \<noteq> None \<Longrightarrow> unat (chunkEnd d) \<le> len"
proof -
  have sum: "unat (dBytesRead d + dSegmentBytes d) = unat (dBytesRead d) + unat (dSegmentBytes d)"
    using assms by (subst unat_add_lem[THEN iffD1]) (auto simp: segment_fits_def)
  have seg: "0 < unat (dSegmentBytes d)"
    using assms by (simp add: segment_fits_def word_gt_0 unat_gt_0)
  have len: "unat (of_nat len :: u64) = len"
    using assms by (intro unat_of_nat_u64) (simp add: segment_fits_def)
  show "dBytesRead d < chunkEnd d"
    using assms sum seg len
    by (auto simp: chunkEnd_def segment_fits_def word_less_nat_alt)
  show "unat (chunkEnd d) - unat (dBytesRead d) \<le> unat (dSegmentBytes d)"
    using assms sum seg len
    by (auto simp: chunkEnd_def segment_fits_def word_less_nat_alt)
  show "dBytesTotal d \<noteq> None \<Longrightarrow> unat (chunkEnd d) \<le> len"
    using assms sum seg len
    by (auto simp: chunkEnd_def segment_fits_def word_less_nat_alt word_le_nat_alt not_less)
qed

section \<open>The next chunk\<close>

text \<open>The fields that \<^verbatim>\<open>getNextChunk\<close> leaves alone.\<close>

lemma newDownloader_sel [simp]:
  "dURI (newDownloader uri hdr seg) = uri" "dRequestHeaders (newDownloader uri hdr seg) = hdr"
  "dBytesRead (newDownloader uri hdr seg) = 0" "dTotalRetryCount (newDownloader uri hdr seg) = 0"
  "dSegmentBytes (newDownloader uri hdr seg) = seg" "dBytesTotal (newDownloader uri hdr seg) = None"
  "dEtag (newDownloader uri hdr seg) = []" "dReader (newDownloader uri hdr seg) = None"
  "chunkEnd (newDownloader uri hdr seg) = seg"
  by (simp_all add: newDownloader_def chunkEnd_def)

lemma etag_not_range [simp]: "canonicalKey ''Etag'' \<noteq> canonicalKey ''Content-Range''"
  by (rule canonicalKey_neq) simp

definition same_progress :: "'b downloader \<Rightarrow> 'b downloader \<Rightarrow> bool" where
  "same_progress d d' \<longleftrightarrow>
     dURI d' = dURI d \<and> dRequestHeaders d' = dRequestHeaders d \<and> dBytesRead d' = dBytesRead d \<and> dSegmentBytes d' = dSegmentBytes d \<and> dReader d' = dReader d \<and>
     dTotalRetryCount d' = dTotalRetryCount d"

lemma checkContentRange_frame:
  "checkContentRange d resp = (d', r) \<Longrightarrow> same_progress d d'"
  by (auto simp: same_progress_def checkContentRange_def Let_def split: option.splits prod.splits if_splits)

lemma getNextChunk_frame: "getNextChunk cl w d = (w', d', r) \<Longrightarrow> same_progress d d'"
  by (auto simp: getNextChunk_def Let_def split: sum.splits prod.splits if_splits
      dest!: checkContentRange_frame) (auto simp: same_progress_def)

lemma getNextChunk_segment_fits:
  assumes "segment_fits len d" "getNextChunk cl w d = (w', d', r)" "dBytesTotal d' = dBytesTotal d \<or> dBytesTotal d' = Some (of_nat len)"
  shows "segment_fits len d'"
  using assms getNextChunk_frame[OF assms(2)] by (auto simp: segment_fits_def same_progress_def)

definition good_chunk :: "('b \<Rightarrow> bytes) \<Rightarrow> bytes \<Rightarrow> 'b downloader \<Rightarrow> 'b downloader \<Rightarrow> 'b response \<Rightarrow>
    parsedResponseHeaders \<Rightarrow> bool" where
  "good_chunk bcont F d d' resp h \<longleftrightarrow>
     (resp_code resp = StatusPartialContent \<and> ContentRangeStart h = dBytesRead d \<and>
        dBytesTotal d' = Some (of_nat (length F)) \<and>
        unat (ContentRangeLength h) = length (bcont (resp_body resp)) \<or>
      resp_code resp = StatusOK \<and> ContentRangeStart h = 0 \<and> dBytesTotal d' = dBytesTotal d \<and>
        bcont (resp_body resp) = F \<or>
      resp_code resp \<notin> {StatusOK, StatusPartialContent} \<and> ContentRangeStart h = 0 \<and> 0 < dBytesRead d) \<and>
     (ContentRangeStart h = dBytesRead d \<longrightarrow>
        bcont (resp_body resp) \<noteq> [] \<and>
        hasPrefix (drop (unat (dBytesRead d)) F) (bcont (resp_body resp)))"

definition good_chunk_result ::
  "('b \<Rightarrow> bytes) \<Rightarrow> bytes \<Rightarrow> 'b downloader \<Rightarrow> 'b downloader \<Rightarrow> 'b chunk_result \<Rightarrow> bool" where
  "good_chunk_result bcont F d d' r \<longleftrightarrow>
     (case r of Panic m \<Rightarrow> False
      | Ret (resp, h, Some e) \<Rightarrow> e \<noteq> EOF
      | Ret (resp, h, None) \<Rightarrow>
          (case resp of None \<Rightarrow> False | Some resp \<Rightarrow>
             (case h of None \<Rightarrow> False | Some h \<Rightarrow> good_chunk bcont F d d' resp h)))"

lemma good_chunk_result_cong:
  assumes "dBytesRead d1 = dBytesRead d" "dBytesTotal d1 = dBytesTotal d"
  shows "good_chunk_result bcont F d1 d' r = good_chunk_result bcont F d d' r"
  by (simp only: good_chunk_result_def good_chunk_def assms)

lemma checkContentRange_good:
  assumes "partial_response bcont F (dBytesRead d) resp" "unat (dBytesRead d) < length F" "length F < 2 ^ 63"
    and "dBytesTotal d = None \<or> dBytesTotal d = Some (of_nat (length F))"
    and "checkContentRange d resp = (d', r)"
  shows "good_chunk_result bcont F d d' r"
proof -
  let ?start = "dBytesRead d"
  from assms(1) obtain stop where code: "resp_code resp = StatusPartialContent"
    and p: "parseContentRange (header_get (resp_header resp) ''Content-Range'') =
               Some (?start, stop, Some (of_nat (length F)))"
    and b: "?start \<le> stop" "unat stop < length F"
    and c: "bcont (resp_body resp) = take (unat stop - unat ?start + 1) (drop (unat ?start) F)"
    unfolding partial_response_def by blast
  let ?h = "\<lparr>ContentRangeStart = ?start, ContentRangeLength = stop - ?start + 1\<rparr>"
  have r: "d' = d\<lparr>dBytesTotal := Some (of_nat (length F))\<rparr>" "r = Ret (Some resp, Some ?h, None)"
    using assms(4,5) p by (auto simp: checkContentRange_def)
  have "unat (stop - ?start) = unat stop - unat ?start" using b by (simp add: unat_sub)
  moreover have "unat (stop - ?start + 1) = unat (stop - ?start) + 1"
    using b assms(3) calculation by (subst unat_add_lem[THEN iffD1]) auto
  moreover have "length (bcont (resp_body resp)) = unat stop - unat ?start + 1"
    using b c by (simp add: word_le_nat_alt)
  ultimately have "good_chunk bcont F d d' resp ?h"
    using code c assms(2) r by (simp add: good_chunk_def)
  then show ?thesis using r by (simp add: good_chunk_result_def)
qed

lemma getNextChunk_good:
  assumes "range_law cl bcont (dURI d) (dRequestHeaders d) F" "segment_fits (length F) d" "unat (dBytesRead d) < length F"
    and "getNextChunk cl w d = (w', d', r)"
  shows "good_chunk_result bcont F d d' r"
proof (cases "cl_newRequest cl (dURI d)")
  case (Some e)
  with assms range_law_newRequest[OF assms(1)] show ?thesis
    by (auto simp: getNextChunk_def buildRequest_def good_chunk_result_def)
next
  case None
  let ?req = "rangeRequest (dURI d) (dRequestHeaders d) (dBytesRead d) (chunkEnd d)"
  obtain w1 x where do: "cl_do cl w ?req = (w1, x)" by fastforce
  show ?thesis
  proof (cases x)
    case (Inl e)
    with assms None do range_law_error[OF assms(1)] show ?thesis
      by (auto simp: getNextChunk_def buildRequest_def good_chunk_result_def rangeRequest_def)
  next
    case (Inr resp)
    note answer = range_law_do[OF assms(1) do[unfolded Inr] chunkEnd_bounds(1)[OF assms(2,3)] assms(3)]
    let ?etag = "header_get (resp_header resp) ''Etag''"
    let ?d1 = "if dEtag d = [] then d\<lparr>dEtag := ?etag\<rparr> else d"
    show ?thesis
    proof (cases "dEtag d \<noteq> [] \<and> dEtag d \<noteq> ?etag")
      case True
      with assms None do Inr show ?thesis
        by (auto simp: getNextChunk_def buildRequest_def good_chunk_result_def rangeRequest_def)
    next
      case False
      show ?thesis
      proof (cases "resp_code resp = StatusPartialContent")
        case True
        with answer have "partial_response bcont F (dBytesRead d) resp" by (auto simp: status_defs)
        moreover have "checkContentRange ?d1 resp = (d', r)"
          using assms(4) None do Inr False True
          by (auto simp: getNextChunk_def buildRequest_def rangeRequest_def Let_def split: if_splits)
        ultimately have "good_chunk_result bcont F ?d1 d' r"
          using assms(2,3) by (intro checkContentRange_good[of _ _ ?d1 resp]) (auto simp: segment_fits_def)
        then show ?thesis
          using good_chunk_result_cong[of ?d1 d bcont F d' r] by simp
      next
        case nc: False
        have "r = Ret (Some resp, Some \<lparr>ContentRangeStart = 0, ContentRangeLength = 0\<rparr>, None)"
          "dBytesTotal d' = dBytesTotal d"
          using assms(4) None do Inr False nc
          by (auto simp: getNextChunk_def buildRequest_def rangeRequest_def Let_def split: if_splits)
        moreover have "F \<noteq> []" using assms(3) by auto
        moreover from answer nc have "resp_code resp = StatusOK \<and> bcont (resp_body resp) = F \<or>
            0 < dBytesRead d \<and> resp_code resp \<notin> {StatusOK, StatusPartialContent}"
          by (auto simp: partial_response_def)
        ultimately show ?thesis by (auto simp: good_chunk_result_def good_chunk_def)
      qed
    qed
  qed
qed

section \<open>The downloader as a reader of the file\<close>

text \<open>
  While it is in order, the downloader knows the length of the file and holds a body that continues
  exactly where it has stopped reading; a downloader without a body has read everything.
\<close>

definition dl_body_ok :: "('b \<Rightarrow> bytes) \<Rightarrow> bytes \<Rightarrow> 'b downloader \<Rightarrow> bool" where
  "dl_body_ok bcont F d \<longleftrightarrow>
     (case dReader d of
        None \<Rightarrow> unat (dBytesRead d) = length F
      | Some b \<Rightarrow> hasPrefix (drop (unat (dBytesRead d)) F) (bcont b))"

definition dl_pos_ok :: "bytes \<Rightarrow> 'b downloader \<Rightarrow> bool" where
  "dl_pos_ok F d \<longleftrightarrow>
     segment_fits (length F) d \<and> dBytesTotal d = Some (of_nat (length F)) \<and>
     unat (dBytesRead d) \<le> length F \<and> dTotalRetryCount d \<le> maxTotalRetryCount"

lemma dl_pos_eof:
  assumes "dl_pos_ok F d"
  shows "dBytesTotal d = Some (dBytesRead d) \<longleftrightarrow> unat (dBytesRead d) = length F"
proof
  assume "dBytesTotal d = Some (dBytesRead d)"
  with assms show "unat (dBytesRead d) = length F" by (auto simp: dl_pos_ok_def segment_fits_def)
next
  assume "unat (dBytesRead d) = length F"
  then have "of_nat (length F) = (of_nat (unat (dBytesRead d)) :: u64)" by simp
  then have "of_nat (length F) = dBytesRead d" by simp
  with assms show "dBytesTotal d = Some (dBytesRead d)" by (simp add: dl_pos_ok_def)
qed

definition dl_ok :: "('w, 'b) client \<Rightarrow> ('b \<Rightarrow> bytes) \<Rightarrow> bytes \<Rightarrow> 'w \<times> 'b downloader \<Rightarrow> bool" where
  "dl_ok cl bcont F wd \<longleftrightarrow>
     body_law cl bcont \<and> range_law cl bcont (dURI (snd wd)) (dRequestHeaders (snd wd)) F \<and>
     dl_pos_ok F (snd wd) \<and> dl_body_ok bcont F (snd wd)"

definition dl_content :: "bytes \<Rightarrow> 'w \<times> 'b downloader \<Rightarrow> bytes" where
  "dl_content F wd = drop (unat (dBytesRead (snd wd))) F"

definition dl_rank :: "('b \<Rightarrow> bytes) \<Rightarrow> 'w \<times> 'b downloader \<Rightarrow> nat" where
  "dl_rank bcont wd =
     2 * (maxTotalRetryCount - dTotalRetryCount (snd wd)) +
     (case dReader (snd wd) of None \<Rightarrow> 0 | Some b \<Rightarrow> if bcont b = [] then 1 else 0)"

text \<open>Reading \<open>bs\<close> from the body moves the position, and nothing else.\<close>

definition advanced :: "'b downloader \<Rightarrow> bytes \<Rightarrow> 'b \<Rightarrow> 'b downloader" where
  "advanced d bs body' =
     d\<lparr>dReader := Some body', dBytesRead := dBytesRead d + AtLeastZero (of_nat (length bs))\<rparr>"

lemma advanced_pos:
  assumes "dl_pos_ok F d" "hasPrefix (drop (unat (dBytesRead d)) F) bs"
  shows "unat (dBytesRead (advanced d bs b)) = unat (dBytesRead d) + length bs"
    and "unat (dBytesRead d) + length bs \<le> length F"
    and "drop (unat (dBytesRead d)) F = bs @ drop (unat (dBytesRead d) + length bs) F"
proof -
  from assms(2) obtain t where t: "drop (unat (dBytesRead d)) F = bs @ t" by (auto simp: strs)
  then have "length F - unat (dBytesRead d) = length bs + length t"
    by (metis length_append length_drop)
  with assms(1) show le: "unat (dBytesRead d) + length bs \<le> length F" by (auto simp: dl_pos_ok_def)
  from t show "drop (unat (dBytesRead d)) F = bs @ drop (unat (dBytesRead d) + length bs) F"
    by (metis add.commute append_eq_conv_conj drop_drop)
  have "length bs < 2 ^ 63" "length F < 2 ^ 63"
    using assms(1) le by (auto simp: dl_pos_ok_def segment_fits_def)
  with le show "unat (dBytesRead (advanced d bs b)) = unat (dBytesRead d) + length bs"
    by (simp add: advanced_def AtLeastZero_of_nat) (subst unat_add_lem[THEN iffD1]; simp)
qed

lemma dl_pos_ok_advanced:
  assumes "dl_pos_ok F d" "hasPrefix (drop (unat (dBytesRead d)) F) bs"
  shows "dl_pos_ok F (advanced d bs b)"
  using assms advanced_pos(1)[OF assms, of b] advanced_pos(2)[OF assms]
  by (auto simp: dl_pos_ok_def segment_fits_def advanced_def)

lemma shouldRetry_frame:
  assumes "shouldRetry d = (retry, d')"
  shows "dBytesRead d' = dBytesRead d" "dBytesTotal d' = dBytesTotal d" "dSegmentBytes d' = dSegmentBytes d"
    "dReader d' = dReader d" "dTotalRetryCount d' = dTotalRetryCount d + 1"
    "retry \<Longrightarrow> dTotalRetryCount d' \<le> maxTotalRetryCount"
    "dURI d' = dURI d" "dRequestHeaders d' = dRequestHeaders d"
  using assms by (auto simp: shouldRetry_def Let_def split: if_splits)

text \<open>What the second half of \<^verbatim>\<open>Read\<close> does from a position in order.\<close>

lemma readNextChunk_cases:
  assumes law: "range_law cl bcont (dURI d) (dRequestHeaders d) F" and pos: "dl_pos_ok F d"
    and rd: "readNextChunk cl w d bs = r"
  shows "(r = Ret (bs, Some EOF, (w, d)) \<and> unat (dBytesRead d) = length F) \<or>
         (\<exists>e wd'. r = Ret (bs, Some e, wd') \<and> e \<noteq> EOF) \<or>
         (\<exists>w' d' b. r = Ret (bs, None, (w', d')) \<and> dReader d' = Some b \<and> bcont b \<noteq> [] \<and>
            dl_pos_ok F d' \<and> dl_body_ok bcont F d' \<and> dBytesRead d' = dBytesRead d \<and>
            dTotalRetryCount d' = dTotalRetryCount d \<and> dURI d' = dURI d \<and> dRequestHeaders d' = dRequestHeaders d)"
proof (cases "dBytesTotal d = Some (dBytesRead d)")
  case True
  then have "unat (dBytesRead d) = length F" using pos by (simp add: dl_pos_eof)
  with True rd show ?thesis by (auto simp: readNextChunk_def)
next
  case False
  then have lt: "unat (dBytesRead d) < length F"
    using pos dl_pos_eof[OF pos] by (simp add: dl_pos_ok_def)
  obtain w' d' g where gn: "getNextChunk cl w d = (w', d', g)" by (metis prod_cases3)
  have fits: "segment_fits (length F) d" using pos by (simp add: dl_pos_ok_def)
  note good = getNextChunk_good[OF law fits lt gn] and frame = getNextChunk_frame[OF gn]
  from good obtain resp h e where g: "g = Ret (resp, h, e)"
    by (cases g) (auto simp: good_chunk_result_def)
  show ?thesis
  proof (cases e)
    case (Some x)
    with good g False gn rd show ?thesis by (auto simp: readNextChunk_def good_chunk_result_def)
  next
    case None
    with good g obtain rp hh where rp: "resp = Some rp" "h = Some hh"
      and gc: "good_chunk bcont F d d' rp hh"
      by (auto simp: good_chunk_result_def split: option.splits)
    show ?thesis
    proof (cases "ContentRangeStart hh = dBytesRead d'")
      case False
      with g None rp gn rd \<open>dBytesTotal d \<noteq> Some (dBytesRead d)\<close> show ?thesis
        by (auto simp: readNextChunk_def)
    next
      case True
      with frame have st: "ContentRangeStart hh = dBytesRead d" by (simp add: same_progress_def)
      let ?d = "d'\<lparr>dReader := Some (resp_body rp)\<rparr>"
      have r: "r = Ret (bs, None, (w', ?d))"
        using g None rp gn rd True \<open>dBytesTotal d \<noteq> Some (dBytesRead d)\<close> by (auto simp: readNextChunk_def)
      have body: "bcont (resp_body rp) \<noteq> []" "hasPrefix (drop (unat (dBytesRead d)) F) (bcont (resp_body rp))"
        using gc st by (auto simp: good_chunk_def)
      have "dBytesTotal d' = Some (of_nat (length F))"
        using gc pos st by (auto simp: good_chunk_def dl_pos_ok_def)
      then have "dl_pos_ok F ?d"
        using pos frame by (auto simp: dl_pos_ok_def segment_fits_def same_progress_def)
      moreover have "dl_body_ok bcont F ?d"
        using body frame by (simp add: dl_body_ok_def same_progress_def)
      ultimately show ?thesis using r body frame by (auto simp: same_progress_def)
    qed
  qed
qed

text \<open>One call of \<^verbatim>\<open>Read\<close>.\<close>

lemma downloader_Read_cases:
  assumes ok: "dl_ok cl bcont F (w, d)" and rd: "downloader_Read cl (w, d) n = r"
  shows "(\<exists>bs e w' d'. r = Ret (bs, e, (w', d')) \<and> length bs \<le> n \<and> hasPrefix (dl_content F (w, d)) bs \<and>
            (e = Some EOF \<longrightarrow> dl_content F (w, d) = bs) \<and>
            (e = None \<longrightarrow> dl_ok cl bcont F (w', d') \<and> dl_content F (w, d) = bs @ dl_content F (w', d') \<and>
               (0 < n \<longrightarrow> bs = [] \<longrightarrow> dl_rank bcont (w', d') < dl_rank bcont (w, d))))"
proof (cases "dReader d")
  case None
  with ok rd show ?thesis
    by (auto simp: downloader_Read_def dl_ok_def dl_body_ok_def dl_content_def)
next
  case (Some body)
  have laws: "body_law cl bcont" "range_law cl bcont (dURI d) (dRequestHeaders d) F" and pos: "dl_pos_ok F d"
    and pre: "hasPrefix (drop (unat (dBytesRead d)) F) (bcont body)"
    using ok Some by (auto simp: dl_ok_def dl_body_ok_def)
  obtain bs err body' where cr: "cl_read cl body n = (bs, err, body')" by (metis prod_cases3)
  note bl = body_law_read[OF laws(1) cr]
  have pbs: "hasPrefix (drop (unat (dBytesRead d)) F) bs"
    using pre bl(2) by (auto simp: strs)
  let ?d1 = "advanced d bs body'"
  have pos1: "dl_pos_ok F ?d1" by (rule dl_pos_ok_advanced[OF pos pbs])
  have split: "drop (unat (dBytesRead d)) F = bs @ drop (unat (dBytesRead ?d1)) F"
    using advanced_pos(1,3)[OF pos pbs] by simp
  have next_chunk: ?thesis
    if r: "readNextChunk cl w d2 bs = r" and p2: "dl_pos_ok F d2" and "dBytesRead d2 = dBytesRead ?d1"
      and u2: "dURI d2 = dURI d" "dRequestHeaders d2 = dRequestHeaders d" and rk: "bs = [] \<Longrightarrow> 2 * (maxTotalRetryCount - dTotalRetryCount d2) < dl_rank bcont (w, d)" for d2
  proof -
    consider "r = Ret (bs, Some EOF, (w, d2))" "unat (dBytesRead d2) = length F"
      | e wd' where "r = Ret (bs, Some e, wd')" "e \<noteq> EOF"
      | w' d' b where "r = Ret (bs, None, (w', d'))" "dReader d' = Some b" "bcont b \<noteq> []"
          "dl_pos_ok F d'" "dl_body_ok bcont F d'" "dBytesRead d' = dBytesRead d2"
          "dTotalRetryCount d' = dTotalRetryCount d2" "dURI d' = dURI d2"
          "dRequestHeaders d' = dRequestHeaders d2"
      using readNextChunk_cases[OF laws(2)[folded u2] p2 r] by blast
    then show ?thesis
    proof cases
      case 1
      with that split bl(1) show ?thesis by (auto simp: dl_content_def)
    next
      case 2
      with split bl(1) show ?thesis by (cases wd') (auto simp: dl_content_def strs)
    next
      case 3
      with that split bl(1) laws rk show ?thesis
        by (auto simp: dl_content_def dl_ok_def dl_rank_def strs)
    qed
  qed
  show ?thesis
  proof (cases err)
    case None
    with bl(3) pre split have "hasPrefix (drop (unat (dBytesRead ?d1)) F) (bcont body')"
      by (auto simp: strs)
    then have "dl_ok cl bcont F (w, ?d1)"
      using laws pos1 by (simp add: dl_ok_def dl_body_ok_def advanced_def)
    with None rd Some cr split bl(1,4) show ?thesis
      by (auto simp: downloader_Read_def dl_content_def advanced_def strs)
  next
    case e: (Some e)
    show ?thesis
    proof (cases "is_eof e")
      case True
      show ?thesis
      proof (cases "cl_close cl body'")
        case (Some e')
        then have "e' \<noteq> EOF" using body_law_close[OF laws(1), of body'] by auto
        with Some e True rd \<open>dReader d = Some body\<close> cr split bl(1) show ?thesis
          by (auto simp: downloader_Read_def dl_content_def advanced_def strs)
      next
        case None
        let ?d2 = "?d1\<lparr>dReader := None\<rparr>"
        have "bcont body = bs" using bl(5) e True by simp
        then have "bs = [] \<Longrightarrow> 2 * (maxTotalRetryCount - dTotalRetryCount ?d2) < dl_rank bcont (w, d)"
          using Some by (simp add: dl_rank_def advanced_def)
        moreover have "readNextChunk cl w ?d2 bs = r"
          using None e True rd Some cr by (simp add: downloader_Read_def advanced_def)
        moreover have "dl_pos_ok F ?d2" using pos1 by (simp add: dl_pos_ok_def segment_fits_def)
        ultimately show ?thesis by (intro next_chunk[of ?d2]) (simp_all add: advanced_def)
      qed
    next
      case False
      obtain retry d2 where sr: "shouldRetry ?d1 = (retry, d2)" by fastforce
      note fr = shouldRetry_frame[OF sr]
      show ?thesis
      proof (cases retry)
        case False
        with sr e \<open>\<not> is_eof e\<close> rd Some cr split bl(1) show ?thesis
          by (auto simp: downloader_Read_def dl_content_def advanced_def strs)
      next
        case True
        have "dl_pos_ok F d2" using fr(1,2,3,6) True pos1 by (simp add: dl_pos_ok_def segment_fits_def)
        moreover have "2 * (maxTotalRetryCount - dTotalRetryCount d2) < dl_rank bcont (w, d)"
          using fr(5,6) True by (simp add: dl_rank_def advanced_def)
        moreover have "readNextChunk cl w d2 bs = r"
          using sr True e \<open>\<not> is_eof e\<close> rd Some cr by (simp add: downloader_Read_def advanced_def)
        moreover have "dURI d2 = dURI d" "dRequestHeaders d2 = dRequestHeaders d"
          using fr(7,8) by (simp_all add: advanced_def)
        ultimately show ?thesis using fr(1) by (intro next_chunk[of d2]) simp_all
      qed
    qed
  qed
qed

interpretation dl: progress_reader "downloader_Read cl" "dl_ok cl bcont F" "dl_content F" "dl_rank bcont"
  for cl :: "('w, 'b) client" and bcont F
proof unfold_locales
  fix r :: "'w \<times> 'b downloader" and n bs e r'
  note c = downloader_Read_cases[of cl bcont F "fst r" "snd r" n, simplified]
  show "length bs \<le> n" if "dl_ok cl bcont F r" "downloader_Read cl r n = Ret (bs, e, r')"
    using that c by fastforce
  show "dl_ok cl bcont F r'" if "dl_ok cl bcont F r" "downloader_Read cl r n = Ret (bs, None, r')"
    using that c by fastforce
  show "dl_content F r = bs @ dl_content F r'" if "dl_ok cl bcont F r" "downloader_Read cl r n = Ret (bs, None, r')"
    using that c by fastforce
  show "dl_content F r = bs" if "dl_ok cl bcont F r" "downloader_Read cl r n = Ret (bs, Some EOF, r')"
    using that c by fastforce
  show "dl_rank bcont r' < dl_rank bcont r"
    if "dl_ok cl bcont F r" "0 < n" "downloader_Read cl r n = Ret ([], None, r')"
    using that c by fastforce
next
  fix r :: "'w \<times> 'b downloader" and n bs e r'
  note c = downloader_Read_cases[of cl bcont F "fst r" "snd r" n, simplified]
  show "hasPrefix (dl_content F r) bs"
    if "dl_ok cl bcont F r" "downloader_Read cl r n = Ret (bs, Some e, r')"
    using that c by fastforce
  show "downloader_Read cl r n \<noteq> Panic m" if "dl_ok cl bcont F r" for m
    using that c by fastforce
qed

end
