(* ===== verification/DownloadClaims.thy ===== *)
theory DownloadClaims
  imports DownloaderProps
begin

text \<open>
  The properties of the segmented download, and a file server after RFC 7233 on which they are
  tried out: its bodies are the bytes still to be sent.
\<close>

section \<open>EnhancedGet under the laws\<close>

lemma segment_fits_new:
  assumes "length F < 2 ^ 63" "0 < seg" "length F + unat seg < 2 ^ 64"
  shows "segment_fits (length F) (newDownloader uri hdr seg)"
  using assms by (simp add: segment_fits_def newDownloader_def)

lemma hijack_cases:
  assumes "hijack d r h = Ret (Some resp, None)" "dBytesTotal d = Some tot"
  shows "resp_code resp = StatusOK \<and>
    (resp_body resp = Plain (resp_body r) \<and> tot = ContentRangeLength h \<or>
     resp_body resp = Hijacked (d\<lparr>dReader := Some (resp_body r)\<rparr>) \<and> (0 < tot \<longrightarrow> resp_length resp = tot))"
  using assms by (auto simp: hijack_def with_body_def Let_def split: if_splits)

text \<open>What a successful \<^verbatim>\<open>EnhancedGet\<close> returns: the whole file, or a downloader at its start.\<close>

definition good_get :: "('w, 'b) client \<Rightarrow> ('b \<Rightarrow> bytes) \<Rightarrow> bytes \<Rightarrow> 'w \<Rightarrow> 'b getBody response \<Rightarrow> bool" where
  "good_get cl bcont F w resp \<longleftrightarrow>
     resp_code resp = StatusOK \<and>
     (case resp_body resp of
        Plain b \<Rightarrow> bcont b = F
      | Hijacked d \<Rightarrow> dl_ok cl bcont F (w, d) \<and> dBytesRead d = 0 \<and> unat (resp_length resp) = length F)"

lemma EnhancedGet_good:
  assumes laws: "body_law cl bcont" "range_law cl bcont uri hdr F"
    and F: "F \<noteq> []" "length F < 2 ^ 63" "0 < seg" "length F + unat seg < 2 ^ 64"
    and get: "EnhancedGet cl w uri hdr seg = (w', Ret (Some resp, None))"
  shows "good_get cl bcont F w' resp"
proof -
  let ?d0 = "newDownloader uri hdr seg :: 'b downloader"
  obtain w1 d g where gn: "getNextChunk cl w ?d0 = (w1, d, g)" by (metis prod_cases3)
  have fits: "segment_fits (length F) ?d0" using F by (intro segment_fits_new)
  have lt: "unat (dBytesRead ?d0) < length F" using F by simp
  have law: "range_law cl bcont (dURI ?d0) (dRequestHeaders ?d0) F" using laws(2) by simp
  note good = getNextChunk_good[OF law fits lt gn] and frame = getNextChunk_frame[OF gn]
  from good obtain rs hs e where g: "g = Ret (rs, hs, e)"
    by (cases g) (auto simp: good_chunk_result_def)
  have "e = None"
  proof (rule ccontr)
    assume "e \<noteq> None"
    then obtain x where e: "e = Some x" by blast
    show False
    proof (cases rs)
      case None
      with get gn g e show False by (simp add: EnhancedGet_def)
    next
      case (Some r)
      have "rs = None"
        using gn g e Some
        by (auto simp: getNextChunk_def checkContentRange_def Let_def
            split: sum.splits prod.splits if_splits option.splits)
      with Some show False by simp
    qed
  qed
  with good g obtain r h where rh: "rs = Some r" "hs = Some h" and gc: "good_chunk bcont F ?d0 d r h"
    by (auto simp: good_chunk_result_def split: option.splits)
  show ?thesis
  proof (cases "resp_code r = StatusPartialContent")
    case False
    with gc have ok: "resp_code r = StatusOK" "bcont (resp_body r) = F" by (auto simp: good_chunk_def)
    then have "resp = with_body Plain r"
      using get gn g rh \<open>e = None\<close> by (auto simp: EnhancedGet_def status_defs)
    with ok show ?thesis by (simp add: good_get_def with_body_def)
  next
    case True
    with gc have c: "ContentRangeStart h = 0" "dBytesTotal d = Some (of_nat (length F))"
      "unat (ContentRangeLength h) = length (bcont (resp_body r))" "bcont (resp_body r) \<noteq> []"
      "hasPrefix F (bcont (resp_body r))" by (auto simp: good_chunk_def status_defs)
    have lenF: "unat (of_nat (length F) :: u64) = length F" using F(2) by simp
    have hj: "hijack d r h = Ret (Some resp, None)" "w' = w1"
      using get gn g rh \<open>e = None\<close> True by (auto simp: EnhancedGet_def status_defs split: if_splits)
    from hijack_cases[OF hj(1) c(2)] consider
        "resp_code resp = StatusOK" "resp_body resp = Plain (resp_body r)" "of_nat (length F) = ContentRangeLength h"
      | "resp_code resp = StatusOK" "resp_body resp = Hijacked (d\<lparr>dReader := Some (resp_body r)\<rparr>)"
        "0 < (of_nat (length F) :: u64) \<longrightarrow> resp_length resp = of_nat (length F)" by blast
    then show ?thesis
    proof cases
      case 1
      with c(3) lenF have "length (bcont (resp_body r)) = length F" by metis
      with c(5) have "bcont (resp_body r) = F" by (auto simp: strs)
      with 1 show ?thesis by (simp add: good_get_def)
    next
      case 2
      have "0 < unat (of_nat (length F) :: u64)" using F(1) lenF by simp
      then have "0 < (of_nat (length F) :: u64)" by (simp add: word_less_nat_alt)
      moreover have "dl_ok cl bcont F (w', d\<lparr>dReader := Some (resp_body r)\<rparr>)"
        using laws fits frame c(2,5)
        by (auto simp: dl_ok_def dl_pos_ok_def dl_body_ok_def segment_fits_def same_progress_def)
      ultimately show ?thesis using 2 frame lenF by (auto simp: good_get_def same_progress_def)
    qed
  qed
qed

section \<open>A file server\<close>

definition file_response :: "nat \<Rightarrow> header \<Rightarrow> bytes \<Rightarrow> bytes response" where
  "file_response code hdr body =
     \<lparr>resp_status = decimal code, resp_code = code, resp_header = hdr,
      resp_length = of_nat (length body), resp_body = body\<rparr>"

definition file_do :: "bytes \<Rightarrow> 'w \<Rightarrow> request \<Rightarrow> 'w \<times> (goerror + bytes response)" where
  "file_do F w req =
     (case cut (CHR ''-'') (drop 6 (header_get (req_header req) ''Range'')) of
        None \<Rightarrow> (w, Inr (file_response 200 no_header F))
      | Some (a, b) \<Rightarrow>
          let start = digits_val a; stop = min (digits_val b) (length F - 1)
          in if start < length F \<and> start \<le> stop then
               (w, Inr (file_response 206
                  (header_set no_header ''Content-Range''
                     (contentRangeText (decimal start) (decimal stop) (decimal (length F))))
                  (take (stop - start + 1) (drop start F))))
             else (w, Inr (file_response 416 no_header [])))"

definition file_client :: "bytes \<Rightarrow> ('w, bytes) client" where
  "file_client F =
     \<lparr>cl_newRequest = (\<lambda>uri. None), cl_do = file_do F,
      cl_read = (\<lambda>b n. (take n b, if b = [] then Some EOF else None, drop n b)),
      cl_close = (\<lambda>b. None)\<rparr>"

lemma file_body_law: "body_law (file_client F) (\<lambda>b. b)"
  by (auto simp: body_law_def file_client_def split: if_splits)

lemma dash_not_in_decimal: "CHR ''-'' \<notin> set (decimal n)"
  using decimal_digits[of n] by (auto simp: list_all_iff)

definition file_stop :: "bytes \<Rightarrow> u64 \<Rightarrow> nat" where
  "file_stop F stop = min (unat (stop - 1)) (length F - 1)"

definition file_header :: "bytes \<Rightarrow> u64 \<Rightarrow> u64 \<Rightarrow> header" where
  "file_header F start stop =
     header_set no_header ''Content-Range''
       (contentRangeText (decimal (unat start)) (decimal (file_stop F stop)) (decimal (length F)))"

lemma file_do_eq:
  assumes "start < stop" "unat start < length F"
  shows "file_do F w (rangeRequest uri hdr start stop) = (w, Inr (file_response 206 (file_header F start stop)
           (take (file_stop F stop - unat start + 1) (drop (unat start) F))))"
proof -
  have "drop 6 (rangeHeader start stop) = decimal (unat start) @ CHR ''-'' # decimal (unat (stop - 1))"
    by (simp add: rangeHeader_def)
  then have cut: "cut (CHR ''-'') (drop 6 (header_get (req_header (rangeRequest uri hdr start stop)) ''Range'')) =
      Some (decimal (unat start), decimal (unat (stop - 1)))"
    by (simp add: rangeRequest_def cut_append[OF dash_not_in_decimal])
  have "unat (stop - 1) = unat stop - 1" using assms(1) by (intro unat_minus_one) auto
  then have "unat start \<le> unat (stop - 1)" using assms(1) by (simp add: word_less_nat_alt)
  then show ?thesis
    using cut assms(2) by (simp add: file_do_def Let_def file_stop_def file_header_def)
qed

lemma file_partial_response:
  assumes "start < stop" "unat start < length F" "length F < 2 ^ 63"
  shows "partial_response (\<lambda>b. b) F start (file_response 206 (file_header F start stop)
           (take (file_stop F stop - unat start + 1) (drop (unat start) F)))"
proof -
  let ?n = "file_stop F stop"
  have "unat (stop - 1) = unat stop - 1" using assms(1) by (intro unat_minus_one) auto
  then have "unat start \<le> unat (stop - 1)" using assms(1) by (simp add: word_less_nat_alt)
  then have n: "unat start \<le> ?n" "?n < length F" "?n < 2 ^ 64"
    using assms(2,3) by (auto simp: file_stop_def)
  then have un: "unat (of_nat ?n :: u64) = ?n" "unat (of_nat (length F) :: u64) = length F"
    using assms(3) by (simp_all only: unat_of_nat_u64) simp
  have "parseContentRange (contentRangeText (decimal (unat start)) (decimal ?n) (decimal (length F))) =
      Some (start, of_nat ?n, Some (of_nat (length F)))"
    using parseContentRange_roundtrip[of start "of_nat ?n" "Some (of_nat (length F))"] un n
    by (simp add: word_le_nat_alt)
  moreover have "start \<le> (of_nat ?n :: u64)" using un(1) n(1) by (simp only: word_le_nat_alt)
  ultimately show ?thesis
    using un n by (auto simp: partial_response_def file_response_def file_header_def status_defs)
qed

lemma file_range_law:
  assumes "length F < 2 ^ 63"
  shows "range_law (file_client F) (\<lambda>b. b) uri hdr F"
  unfolding range_law_def
proof (intro conjI allI impI)
  fix w start stop w' r
  assume do: "cl_do (file_client F) w (rangeRequest uri hdr start stop) = (w', r)"
  show "r \<noteq> Inl EOF"
    using do by (auto simp: file_client_def file_do_def Let_def split: option.splits if_splits)
  fix resp
  assume "r = Inr resp" "start < stop" "unat start < length F"
  with file_do_eq[of start stop F w] file_partial_response[of start stop F] do assms
  show "partial_response (\<lambda>b. b) F start resp \<or> resp_code resp = StatusOK \<and> resp_body resp = F \<or>
      0 < start \<and> resp_code resp \<notin> {StatusOK, StatusPartialContent}"
    by (auto simp: file_client_def)
qed (simp add: file_client_def)

section \<open>Servers that do not fail\<close>

definition reliable ::
  "('w, 'b) client \<Rightarrow> ('b \<Rightarrow> bytes) \<Rightarrow> string \<Rightarrow> header \<Rightarrow> bytes \<Rightarrow> string \<Rightarrow> bool" where
  "reliable cl bcont uri hdr F tag \<longleftrightarrow>
     cl_newRequest cl uri = None \<and> (\<forall>b. cl_close cl b = None) \<and>
     (\<forall>b n bs e b'. cl_read cl b n = (bs, Some e, b') \<longrightarrow> is_eof e) \<and>
     (\<forall>w start stop. start < stop \<longrightarrow> unat start < length F \<longrightarrow>
        (\<exists>w' resp. cl_do cl w (rangeRequest uri hdr start stop) = (w', Inr resp) \<and>
           partial_response bcont F start resp \<and> header_get (resp_header resp) ''Etag'' = tag))"

lemma reliable_chunk:
  assumes "reliable cl bcont (dURI d) (dRequestHeaders d) F tag" "segment_fits (length F) d" "unat (dBytesRead d) < length F"
    and "dEtag d = [] \<or> dEtag d = tag" and "getNextChunk cl w d = (w', d', r)"
  shows "\<exists>resp h. r = Ret (Some resp, Some h, None) \<and> resp_code resp = StatusPartialContent \<and>
           ContentRangeStart h = dBytesRead d \<and> (dEtag d' = [] \<or> dEtag d' = tag)"
proof -
  let ?req = "rangeRequest (dURI d) (dRequestHeaders d) (dBytesRead d) (chunkEnd d)"
  from assms(1,3) chunkEnd_bounds(1)[OF assms(2,3)] obtain w1 resp where
    do: "cl_do cl w ?req = (w1, Inr resp)" and p: "partial_response bcont F (dBytesRead d) resp"
    and tag: "header_get (resp_header resp) ''Etag'' = tag"
    unfolding reliable_def by blast
  from p obtain stop where code: "resp_code resp = StatusPartialContent"
    and pc: "parseContentRange (header_get (resp_header resp) ''Content-Range'') =
               Some (dBytesRead d, stop, Some (of_nat (length F)))"
    by (auto simp: partial_response_def)
  have "cl_newRequest cl (dURI d) = None" using assms(1) by (simp add: reliable_def)
  then have "getNextChunk cl w d = (w1, checkContentRange (if dEtag d = [] then d\<lparr>dEtag := tag\<rparr> else d) resp)"
    using do tag code assms(4) by (auto simp: getNextChunk_def buildRequest_def rangeRequest_def)
  with assms(2,4,5) pc code show ?thesis
    by (auto simp: checkContentRange_def segment_fits_def split: if_splits)
qed

lemma reliable_Read:
  assumes rel: "reliable cl bcont (dURI d) (dRequestHeaders d) F tag" and ok: "dl_ok cl bcont F (w, d)"
    and tag: "dEtag d = [] \<or> dEtag d = tag"
    and rd: "downloader_Read cl (w, d) n = Ret (bs, e, (w', d'))"
  shows "(e = None \<or> e = Some EOF) \<and> (dEtag d' = [] \<or> dEtag d' = tag) \<and>
    dURI d' = dURI d \<and> dRequestHeaders d' = dRequestHeaders d"
proof (cases "dReader d")
  case None
  with rd tag show ?thesis by (auto simp: downloader_Read_def)
next
  case (Some body)
  obtain bs' err body' where cr: "cl_read cl body n = (bs', err, body')" by (metis prod_cases3)
  show ?thesis
  proof (cases err)
    case None
    with rd Some cr tag show ?thesis by (auto simp: downloader_Read_def)
  next
    case e': (Some e')
    with rel cr have eof: "is_eof e'" unfolding reliable_def by blast
    have close: "cl_close cl body' = None" using rel by (simp add: reliable_def)
    let ?d2 = "(advanced d bs' body')\<lparr>dReader := None\<rparr>"
    have nx: "readNextChunk cl w ?d2 bs' = Ret (bs, e, (w', d'))"
      using rd Some cr e' eof close by (simp add: downloader_Read_def advanced_def)
    have laws: "body_law cl bcont" and pos: "dl_pos_ok F d"
      and pre: "hasPrefix (drop (unat (dBytesRead d)) F) (bcont body)"
      using ok Some by (auto simp: dl_ok_def dl_body_ok_def)
    have "hasPrefix (drop (unat (dBytesRead d)) F) bs'"
      using pre body_law_read(2)[OF laws cr] by (auto simp: strs)
    from dl_pos_ok_advanced[OF pos this, of body'] have pos2: "dl_pos_ok F ?d2"
      by (simp add: dl_pos_ok_def segment_fits_def)
    show ?thesis
    proof (cases "dBytesTotal ?d2 = Some (dBytesRead ?d2)")
      case True
      with nx tag show ?thesis by (auto simp: readNextChunk_def advanced_def)
    next
      case False
      with pos2 have lt: "unat (dBytesRead ?d2) < length F" and fits: "segment_fits (length F) ?d2"
        using dl_pos_eof[OF pos2] by (simp_all add: dl_pos_ok_def)
      obtain w1 d1 g where gn: "getNextChunk cl w ?d2 = (w1, d1, g)" by (metis prod_cases3)
      have "reliable cl bcont (dURI ?d2) (dRequestHeaders ?d2) F tag" "dEtag ?d2 = [] \<or> dEtag ?d2 = tag"
        using rel tag by (simp_all add: advanced_def)
      from reliable_chunk[OF this(1) fits lt this(2) gn] obtain resp h where
        g: "g = Ret (Some resp, Some h, None)" "ContentRangeStart h = dBytesRead ?d2"
        "dEtag d1 = [] \<or> dEtag d1 = tag" by blast
      have "dBytesRead d1 = dBytesRead ?d2"
        using getNextChunk_frame[OF gn] by (simp add: same_progress_def)
      moreover have "dURI d1 = dURI d" "dRequestHeaders d1 = dRequestHeaders d"
        using getNextChunk_frame[OF gn] by (simp_all add: same_progress_def advanced_def)
      ultimately show ?thesis using g gn nx False by (auto simp: readNextChunk_def)
    qed
  qed
qed

lemma file_reliable:
  assumes "length F < 2 ^ 63"
  shows "reliable (file_client F) (\<lambda>b. b) uri hdr F []"
proof -
  have "\<exists>w' resp. cl_do (file_client F) w (rangeRequest uri hdr start stop) = (w', Inr resp) \<and>
           partial_response (\<lambda>b. b) F start resp \<and>
           header_get (resp_header resp) ''Etag'' = []"
    if "start < stop" "unat start < length F" for w :: 'w and start stop
    using file_do_eq[OF that, of w] file_partial_response[OF that assms]
    by (simp add: file_client_def file_response_def file_header_def)
  then show ?thesis
    unfolding reliable_def by (auto simp: file_client_def split: if_splits)
qed

lemma reliable_full_read:
  assumes rel: "reliable cl bcont (dURI d) (dRequestHeaders d) F tag" and ok: "dl_ok cl bcont F (w, d)"
    and tag: "dEtag d = [] \<or> dEtag d = tag" and n: "length (dl_content F (w, d)) < n"
  shows "\<exists>r'. FullReader_Read (downloader_Read cl) (w, d) n = Some (Ret (dl_content F (w, d), Some EOF, r'))"
proof -
  obtain bs e r' where fr: "FullReader_Read (downloader_Read cl) (w, d) n = Some (Ret (bs, e, r'))"
    using dl.full_read_returns[OF ok] by (metis prod_cases3)
  let ?I = "\<lambda>a s. dl_ok cl bcont F s \<and> (dEtag (snd s) = [] \<or> dEtag (snd s) = tag) \<and>
    dURI (snd s) = dURI d \<and> dRequestHeaders (snd s) = dRequestHeaders d"
  let ?Q = "\<lambda>a e (s :: 'a \<times> 'b downloader). e = None \<or> e = Some EOF"
  have "FullReader_loop (downloader_Read cl) (w, d) n [] = Some (Ret (bs, e, r'))"
    using fr by (simp add: FullReader_Read_def)
  then have "?Q bs e r'"
  proof (rule FullReader_loop_rule[where I = ?I and Q = ?Q])
    show "?I [] (w, d)" using ok tag by simp
    show "?I (a @ b) s'"
      if "?I a s" "length a < n" "downloader_Read cl s (n - length a) = Ret (b, None, s')" for a s b s'
      using that rel dl.read_ok[of cl bcont F s "n - length a" b s']
        reliable_Read[of cl bcont "snd s" F tag "fst s" "n - length a" b None "fst s'" "snd s'"] by auto
    show "?Q (a @ b) (Some x) s'"
      if "?I a s" "length a < n" "downloader_Read cl s (n - length a) = Ret (b, Some x, s')" for a s b x s'
      using that rel reliable_Read[of cl bcont "snd s" F tag "fst s" "n - length a" b "Some x" "fst s'" "snd s'"] by auto
  qed simp
  moreover have "e \<noteq> None"
  proof
    assume "e = None"
    then have "length bs = n" "dl_content F (w, d) = bs @ dl_content F r'"
      using dl.full_read_shape[OF ok fr] dl.full_read_content[OF ok fr] by auto
    with n show False by (metis length_append not_add_less1)
  qed
  ultimately have "e = Some EOF" by simp
  with dl.full_read_content[OF ok fr] fr show ?thesis by simp
qed

lemma of_nat_le_MaxInt64: "n < 2 ^ 63 \<Longrightarrow> \<not> MaxInt64 < of_nat n"
proof -
  assume n: "n < 2 ^ 63"
  then have "unat (of_nat n :: u64) = n" by (intro unat_of_nat_u64) simp
  with n show ?thesis by (simp add: MaxInt64_def word_less_nat_alt)
qed

lemma EnhancedGet_reliable:
  assumes laws: "reliable cl bcont uri hdr F tag" "range_law cl bcont uri hdr F"
    and F: "F \<noteq> []" "length F < 2 ^ 63" "0 < seg" "length F + unat seg < 2 ^ 64"
  shows "\<exists>w' resp. EnhancedGet cl w uri hdr seg = (w', Ret (Some resp, None)) \<and>
           (\<forall>d. resp_body resp = Hijacked d \<longrightarrow> (dEtag d = [] \<or> dEtag d = tag) \<and>
             dURI d = uri \<and> dRequestHeaders d = hdr)"
proof -
  let ?d0 = "newDownloader uri hdr seg :: 'b downloader"
  obtain w1 d g where gn: "getNextChunk cl w ?d0 = (w1, d, g)" by (metis prod_cases3)
  have fits: "segment_fits (length F) ?d0" using F by (intro segment_fits_new)
  have lt: "unat (dBytesRead ?d0) < length F" using F by simp
  have "dEtag ?d0 = [] \<or> dEtag ?d0 = tag" by (simp add: newDownloader_def)
  from reliable_chunk[of cl bcont ?d0 F tag, OF _ fits lt this gn] laws(1) obtain r h where
    g: "g = Ret (Some r, Some h, None)" and code: "resp_code r = StatusPartialContent"
    and tag: "dEtag d = [] \<or> dEtag d = tag" by auto
  have tot: "dBytesTotal d = Some (of_nat (length F))"
    using getNextChunk_good[OF _ fits lt gn] laws(2) g code
    by (auto simp: good_chunk_result_def good_chunk_def status_defs)
  have "\<exists>resp. hijack d r h = Ret (Some resp, None) \<and>
          (\<forall>d'. resp_body resp = Hijacked d' \<longrightarrow> dEtag d' = dEtag d \<and> dURI d' = dURI d \<and> dRequestHeaders d' = dRequestHeaders d)"
    using tot of_nat_le_MaxInt64[OF F(2)] by (auto simp: hijack_def with_body_def Let_def)
  then obtain resp where "hijack d r h = Ret (Some resp, None)"
    "\<forall>d'. resp_body resp = Hijacked d' \<longrightarrow> dEtag d' = dEtag d \<and> dURI d' = dURI d \<and> dRequestHeaders d' = dRequestHeaders d" by blast
  moreover have "dURI d = uri" "dRequestHeaders d = hdr"
    using getNextChunk_frame[OF gn] by (simp_all add: same_progress_def)
  ultimately show ?thesis
    using gn g code tag by (auto simp: EnhancedGet_def status_defs)
qed

text \<open>The file server splits a file that is longer than a segment.\<close>

lemma EnhancedGet_file:
  fixes w :: 'a
  assumes "0 < seg" "unat seg < length F" "length F + unat seg < 2 ^ 64" "length F < 2 ^ 63"
  shows "\<exists>resp d. EnhancedGet (file_client F) w uri hdr seg = (w, Ret (Some resp, None)) \<and>
           resp_body resp = Hijacked d"
proof -
  let ?d0 = "newDownloader uri hdr seg :: bytes downloader"
  let ?cl = "file_client F :: ('a, bytes) client"
  have F: "F \<noteq> []" using assms(2) by auto
  have fits: "segment_fits (length F) ?d0" using assms by (intro segment_fits_new)
  have lt: "unat (dBytesRead ?d0) < length F" using F by simp
  have "file_do F w (rangeRequest uri hdr 0 seg) = (w, Inr (file_response 206 (file_header F 0 seg)
           (take (file_stop F seg - unat (0 :: u64) + 1) (drop (unat (0 :: u64)) F))))"
    using assms(1) F by (intro file_do_eq) simp_all
  moreover have "chunkEnd ?d0 = seg" by (simp add: chunkEnd_def)
  moreover have "buildRequest ?cl ?d0 = Inr \<lparr>req_uri = uri, req_header = header_copy no_header hdr\<rparr>"
    by (simp add: buildRequest_def file_client_def newDownloader_def)
  ultimately have gn': "getNextChunk ?cl w ?d0 = (w, checkContentRange ?d0 (file_response 206 (file_header F 0 seg) (take (file_stop F seg + 1) F)))"
    by (simp add: getNextChunk_def rangeRequest_def file_client_def file_response_def file_header_def
        status_defs newDownloader_def)
  then obtain d g where gn: "getNextChunk ?cl w ?d0 = (w, d, g)" by (metis surj_pair)
  have rg: "range_law (file_client F) (\<lambda>b. b) (dURI ?d0) (dRequestHeaders ?d0) F" by (rule file_range_law[OF assms(4)])
  note good = getNextChunk_good[OF rg fits lt gn]
  from gn gn' have dg: "checkContentRange ?d0 (file_response 206 (file_header F 0 seg) (take (file_stop F seg + 1) F)) = (d, g)"
    by simp
  moreover define resp where "resp = file_response 206 (file_header F 0 seg) (take (file_stop F seg + 1) F)"
  moreover have "partial_response (\<lambda>b. b) F 0 resp"
    using file_partial_response[of 0 seg F] assms F by (simp add: resp_def)
  ultimately obtain h where g: "g = Ret (Some resp, Some h, None)"
    by (auto simp: checkContentRange_def partial_response_def)
  note resp = resp_def
  have gc: "dBytesTotal d = Some (of_nat (length F))" "unat (ContentRangeLength h) = length (resp_body resp)"
    using good g resp by (auto simp: good_chunk_result_def good_chunk_def file_response_def status_defs)
  have "unat (seg - 1) = unat seg - 1" using assms(1) by (intro unat_minus_one) auto
  then have "length (resp_body resp) < length F"
    using assms(2) F unsigned_less[of seg] assms(1)
    by (simp add: resp file_response_def file_stop_def word_less_nat_alt)
  moreover have "unat (of_nat (length F) :: u64) = length F" using assms(4) by simp
  ultimately have "ContentRangeLength h \<noteq> of_nat (length F)" using gc(2) by (metis less_irrefl)
  then have "\<exists>r. hijack d resp h = Ret (Some r, None) \<and> resp_body r = Hijacked (d\<lparr>dReader := Some (resp_body resp)\<rparr>)"
    using gc(1) of_nat_le_MaxInt64[OF assms(4)] by (auto simp: hijack_def with_body_def Let_def)
  then show ?thesis
    using gn g by (auto simp: EnhancedGet_def resp file_response_def status_defs)
qed

text \<open>With a reliable server, the response of \<^verbatim>\<open>EnhancedGet\<close> delivers the whole file.\<close>

lemma segmented_get_complete:
  assumes "body_law cl bcont" "range_law cl bcont uri hdr F" "reliable cl bcont uri hdr F tag"
    and "F \<noteq> []" "length F < 2 ^ 63" "0 < seg" "length F + unat seg < 2 ^ 64"
  shows "\<exists>w' resp. EnhancedGet cl w uri hdr seg = (w', Ret (Some resp, None)) \<and>
     resp_code resp = StatusOK \<and>
     (case resp_body resp of
        Plain b \<Rightarrow> bcont b = F
      | Hijacked d \<Rightarrow> \<forall>n. length F < n \<longrightarrow>
          (\<exists>r'. FullReader_Read (downloader_Read cl) (w', d) n = Some (Ret (F, Some EOF, r'))))"
proof -
  from EnhancedGet_reliable[OF assms(3,2,4-7)] obtain w' resp where
    get: "EnhancedGet cl w uri hdr seg = (w', Ret (Some resp, None))"
    and tag: "\<forall>d. resp_body resp = Hijacked d \<longrightarrow> (dEtag d = [] \<or> dEtag d = tag) \<and>
      dURI d = uri \<and> dRequestHeaders d = hdr" by blast
  have good: "good_get cl bcont F w' resp" using EnhancedGet_good[OF assms(1,2,4-7) get] .
  show ?thesis
  proof (cases "resp_body resp")
    case (Plain b)
    with good get show ?thesis by (auto simp: good_get_def)
  next
    case (Hijacked d)
    with good tag have "dl_ok cl bcont F (w', d)" "dl_content F (w', d) = F" "dEtag d = [] \<or> dEtag d = tag"
      "reliable cl bcont (dURI d) (dRequestHeaders d) F tag"
      using assms(3) by (auto simp: good_get_def dl_content_def)
    with reliable_full_read[of cl bcont d F tag w'] good get Hijacked show ?thesis
      by (auto simp: good_get_def)
  qed
qed

section \<open>Properties\<close>

text \<open>C4: a segmented download is exact. Take a server that has the file F under the URL and answers as
  RFC 7233 describes it, and response bodies that keep the contract of net/http. Requests may fail at
  any time, bodies may break off anywhere, and any request but those for the start of the file may be
  refused with an error status. When EnhancedGet returns a response with a hijacked body, whatever is
  read from that body (through the FullReader, with buffers of any sizes) is an initial part of F, an
  io.EOF comes only once all of F has been read, and the announced Content-Length is the length of
  F.\<close>

theorem download_exact:
  assumes "body_law cl bcont" "range_law cl bcont uri hdr F"
    and "F \<noteq> []" "length F < 2 ^ 63" "0 < seg" "length F + unat seg < 2 ^ 64"
    and "EnhancedGet cl w uri hdr seg = (w', Ret (Some resp, None))" "resp_body resp = Hijacked d"
    and "reads (FullReader_Read (downloader_Read cl)) (w', d) ns = Some (Ret (bs, e, wd'))"
  shows "hasPrefix F bs \<and> (e = Some EOF \<longrightarrow> bs = F) \<and> unat (resp_length resp) = length F"
proof -
  have "good_get cl bcont F w' resp" using assms(1-7) by (rule EnhancedGet_good)
  with assms(8) have ok: "dl_ok cl bcont F (w', d)" and len: "unat (resp_length resp) = length F"
    and c: "dl_content F (w', d) = F" by (simp_all add: good_get_def dl_content_def)
  from dl.full_reads_content[OF ok assms(9)] c len show ?thesis by simp
qed

text \<open>C5: a segmented download completes. If neither the server nor the reading of its responses fails
  (and the Etag stays the same), EnhancedGet returns a response with status 200, and reading its body
  with a buffer longer than the file gives exactly the file and io.EOF: no segment size and no order
  of chunk ends makes the loop of the FullReader run on, and no chunk is lost or repeated.\<close>

theorem download_complete:
  assumes "body_law cl bcont" "range_law cl bcont uri hdr F" "reliable cl bcont uri hdr F tag"
    and "F \<noteq> []" "length F < 2 ^ 63" "0 < seg" "length F + unat seg < 2 ^ 64"
  shows "\<exists>w' resp. EnhancedGet cl w uri hdr seg = (w', Ret (Some resp, None)) \<and>
     resp_code resp = StatusOK \<and>
     (case resp_body resp of
        Plain b \<Rightarrow> bcont b = F
      | Hijacked d \<Rightarrow> \<forall>n. length F < n \<longrightarrow>
          (\<exists>r'. FullReader_Read (downloader_Read cl) (w', d) n = Some (Ret (F, Some EOF, r'))))"
  using assms by (rule segmented_get_complete)

text \<open>A file of five bytes, downloaded in segments of two.\<close>

definition demo_file :: bytes where "demo_file = [10, 20, 30, 40, 50]"

lemma demo_bounds: "demo_file \<noteq> []" "length demo_file < 2 ^ 63" "0 < (2 :: u64)"
  "length demo_file + unat (2 :: u64) < 2 ^ 64" "unat (2 :: u64) < length demo_file"
  by (simp_all add: demo_file_def)

theorem download_exact_witness:
  "\<exists>resp d bs e r'. EnhancedGet (file_client demo_file) () ''http://host/f'' no_header 2 = ((), Ret (Some resp, None)) \<and>
     resp_body resp = Hijacked d \<and>
     reads (FullReader_Read (downloader_Read (file_client demo_file))) ((), d) [3, 1, 4] = Some (Ret (bs, e, r')) \<and>
     hasPrefix demo_file bs \<and> unat (resp_length resp) = 5"
proof -
  note laws = file_body_law[of demo_file] file_range_law[OF demo_bounds(2)]
  obtain resp d where get: "EnhancedGet (file_client demo_file) () ''http://host/f'' no_header 2 = ((), Ret (Some resp, None))"
    and hj: "resp_body resp = Hijacked d"
    using EnhancedGet_file[OF demo_bounds(3,5,4,2), of "()" "''http://host/f''" no_header] by blast
  have "dl_ok (file_client demo_file) (\<lambda>b. b) demo_file ((), d)"
    using EnhancedGet_good[OF laws demo_bounds(1-4) get] hj by (simp add: good_get_def)
  then obtain bs e r' where
    rd: "reads (FullReader_Read (downloader_Read (file_client demo_file))) ((), d) [3, 1, 4] = Some (Ret (bs, e, r'))"
    using dl.full_reads_return by (metis prod_cases3)
  have "hasPrefix demo_file bs \<and> unat (resp_length resp) = 5"
    using download_exact[OF laws demo_bounds(1-4) get hj rd] by (simp add: demo_file_def)
  with get hj rd show ?thesis by blast
qed

theorem download_complete_witness:
  "\<exists>resp d r'. EnhancedGet (file_client demo_file) () ''http://host/f'' no_header 2 = ((), Ret (Some resp, None)) \<and>
     resp_body resp = Hijacked d \<and>
     FullReader_Read (downloader_Read (file_client demo_file)) ((), d) 6 = Some (Ret ([10, 20, 30, 40, 50], Some EOF, r'))"
proof -
  obtain resp d where get: "EnhancedGet (file_client demo_file) () ''http://host/f'' no_header 2 = ((), Ret (Some resp, None))"
    and hj: "resp_body resp = Hijacked d"
    using EnhancedGet_file[OF demo_bounds(3,5,4,2), of "()" "''http://host/f''" no_header] by blast
  with download_complete[OF file_body_law file_range_law[OF demo_bounds(2)] file_reliable[OF demo_bounds(2)]
      demo_bounds(1-4), of "()" "''http://host/f''" no_header]
  show ?thesis by (auto simp: demo_file_def)
qed

end
