(* ===== verification/DownloadRobust.thy ===== *)
theory DownloadRobust
  imports DownloaderProps
begin

text \<open>
  What holds of a download whatever the server does: the headers that are accepted, the retry
  budget, the continuity of chunks, and where the code panics or runs on.
\<close>

section \<open>A canned server\<close>

text \<open>A server that answers every request alike, with an empty body.\<close>

definition canned_client :: "nat \<Rightarrow> string \<Rightarrow> (unit, bytes) client" where
  "canned_client code crange =
     \<lparr>cl_newRequest = (\<lambda>uri. None),
      cl_do = (\<lambda>w req. (w, Inr \<lparr>resp_status = decimal code, resp_code = code,
        resp_header = header_set no_header ''Content-Range'' crange, resp_length = 0, resp_body = []\<rparr>)),
      cl_read = (\<lambda>b n. (take n b, if b = [] then Some EOF else None, drop n b)),
      cl_close = (\<lambda>b. None)\<rparr>"

lemma demo_range: "contentRangeText (decimal 0) (decimal 9) (decimal 42) = ''bytes 0-9/42''"
  by (simp add: contentRangeText_def decimal.simps digit_char_def) code_simp

lemma parse_demo_range: "parseContentRange ''bytes 0-9/42'' = Some (0, 9, Some 42)"
  using parseContentRange_roundtrip[of 0 9 "Some 42"] by (simp add: demo_range)

section \<open>Headers\<close>

text \<open>Content-Range headers. A header written with decimal numbers in order is read back to exactly
  those numbers and length; and conversely whatever is accepted is of the form "bytes a-b/t" with
  decimal numerals a and b for the start and stop that are returned, start not after stop, and t a
  numeral or "*": numbers that do not fit 64 bits and reversed ranges are rejected.\<close>

theorem contentRange_roundtrip:
  "(start \<le> stop \<longrightarrow>
      parseContentRange (contentRangeText (decimal (unat start)) (decimal (unat stop))
        (case tot of None \<Rightarrow> ''*'' | Some n \<Rightarrow> decimal (unat n))) = Some (start, stop, tot)) \<and>
   (parseContentRange s = Some (start, stop, tot) \<longrightarrow>
      start \<le> stop \<and>
      (\<exists>a b t. s = contentRangeText a b t \<and> numeral_of a (unat start) \<and> numeral_of b (unat stop) \<and>
         (case tot of None \<Rightarrow> t = ''*'' | Some n \<Rightarrow> numeral_of t (unat n))))"
  using parseContentRange_roundtrip parseContentRange_iff by blast

theorem contentRange_roundtrip_witness:
  "parseContentRange (contentRangeText (decimal 0) (decimal 9) (decimal 42)) = Some (0, 9, Some 42) \<and>
   contentRangeText (decimal 0) (decimal 9) (decimal 42) = ''bytes 0-9/42'' \<and>
   (\<exists>a b t. ''bytes 0-9/42'' = contentRangeText a b t \<and> numeral_of a 0 \<and> numeral_of b 9 \<and> numeral_of t 42)"
proof -
  note 1 = demo_range
  have 2: "parseContentRange ''bytes 0-9/42'' = Some (0, 9, Some 42)"
    using contentRange_roundtrip[of 0 9 "Some 42", THEN conjunct1] by (simp add: 1)
  with contentRange_roundtrip[of 0 9 "Some 42" "''bytes 0-9/42''", THEN conjunct2]
  have "\<exists>a b t. ''bytes 0-9/42'' = contentRangeText a b t \<and> numeral_of a 0 \<and> numeral_of b 9 \<and> numeral_of t 42"
    by (auto simp del: One_nat_def)
  with 1 2 show ?thesis by simp
qed

section \<open>Retries\<close>

text \<open>
  The same client with a list of the requests that were sent, and what a sequence of reads with buffers of
  any sizes does with it: for each read, whether the body of the response failed, the bytes that came, the
  requests that were sent, and the offset afterwards. It follows the states of the downloader, also past
  errors, and ends with a panic.
\<close>

definition recorded :: "('w, 'b) client \<Rightarrow> ('w \<times> request list, 'b) client" where
  "recorded cl =
     \<lparr>cl_newRequest = cl_newRequest cl,
      cl_do = (\<lambda>wl req. case cl_do cl (fst wl) req of (w, r) \<Rightarrow> ((w, snd wl @ [req]), r)),
      cl_read = cl_read cl, cl_close = cl_close cl\<rparr>"

definition body_fails :: "('w, 'b) client \<Rightarrow> 'b downloader \<Rightarrow> nat \<Rightarrow> bool" where
  "body_fails cl d n \<longleftrightarrow>
     (case dReader d of
        None \<Rightarrow> False
      | Some body \<Rightarrow> (case cl_read cl body n of (bs, e, body') \<Rightarrow> (case e of None \<Rightarrow> False | Some err \<Rightarrow> \<not> is_eof err)))"

type_synonym read_log = "bool \<times> bytes \<times> request list \<times> u64"

fun session :: "('w, 'b) client \<Rightarrow> 'w \<times> 'b downloader \<Rightarrow> nat list \<Rightarrow> read_log list" where
  "session cl wd [] = []"
| "session cl wd (n # ns) =
     (case downloader_Read (recorded cl) ((fst wd, []), snd wd) n of
        Panic m \<Rightarrow> []
      | Ret (bs, err, ((w', reqs), d')) \<Rightarrow>
          (body_fails cl (snd wd) n, bs, reqs, dBytesRead d') # session cl (w', d') ns)"

text \<open>The restarts: the requests that are sent in a read whose body failed, with their offsets.\<close>

definition restarts_of :: "read_log \<Rightarrow> (u64 \<times> request) list" where
  "restarts_of x = (case x of (failed, bs, reqs, off) \<Rightarrow> if failed then map (Pair off) reqs else [])"

definition restarts :: "read_log list \<Rightarrow> (u64 \<times> request) list" where
  "restarts s = concat (map restarts_of s)"

definition bytes_of :: "read_log list \<Rightarrow> bytes" where
  "bytes_of s = concat (map (\<lambda>(failed, bs, reqs, off). bs) s)"

lemma session_lists [simp]:
  "restarts [] = []" "bytes_of [] = []"
  "restarts (x # s) = restarts_of x @ restarts s"
  "bytes_of ((failed, bs, reqs, off) # s) = bs @ bytes_of s"
  by (simp_all add: restarts_def bytes_of_def)

text \<open>The recording changes nothing else.\<close>

lemma recorded_getNextChunk:
  "getNextChunk (recorded cl) (w, l) d =
     (case getNextChunk cl w d of (w', d', r) \<Rightarrow>
        ((w', l @ (case buildRequest cl d of Inl e \<Rightarrow> [] | Inr req \<Rightarrow>
            [req\<lparr>req_header := header_set (req_header req) ''Range'' (rangeHeader (dBytesRead d) (chunkEnd d))\<rparr>])), d', r))"
  by (simp add: getNextChunk_def buildRequest_def recorded_def Let_def split: option.split prod.split sum.split)

definition forget :: "('w \<times> request list) \<times> 'b downloader \<Rightarrow> 'w \<times> 'b downloader" where
  "forget = map_prod fst id"

text \<open>What one read does to the retry counters: they are the business of \<open>shouldRetry\<close>.\<close>

definition counters :: "'b downloader \<Rightarrow> nat \<times> u64 \<times> nat" where
  "counters d = (dTotalRetryCount d, dLastErrorAtBytesRead d, dLastErrorRetryCount d)"

lemma getNextChunk_counters: "getNextChunk cl w d = (w', d', r) \<Longrightarrow> counters d' = counters d \<and> dBytesRead d' = dBytesRead d"
  by (auto simp: getNextChunk_def checkContentRange_def counters_def Let_def split: sum.splits prod.splits option.splits if_splits)

lemma readNextChunk_sends:
  assumes "readNextChunk (recorded cl) (w, []) d bs = Ret (bs', err, ((w', reqs), d'))"
  shows "bs' = bs \<and> counters d' = counters d \<and> dBytesRead d' = dBytesRead d \<and> length reqs \<le> 1 \<and>
    (\<forall>req\<in>set reqs. header_get (req_header req) ''Range'' = rangeHeader (dBytesRead d) (chunkEnd d))"
proof (cases "dBytesTotal d = Some (dBytesRead d)")
  case True
  with assms show ?thesis by (simp add: readNextChunk_def)
next
  case False
  obtain w1 d1 g where gn: "getNextChunk cl w d = (w1, d1, g)" by (metis prod_cases3)
  let ?reqs = "case buildRequest cl d of Inl e \<Rightarrow> [] | Inr req \<Rightarrow>
    [req\<lparr>req_header := header_set (req_header req) ''Range'' (rangeHeader (dBytesRead d) (chunkEnd d))\<rparr>]"
  have "bs' = bs \<and> reqs = ?reqs \<and> (d' = d1 \<or> (\<exists>b. d' = d1\<lparr>dReader := b\<rparr>))"
    using assms False gn
    by (auto simp: readNextChunk_def recorded_getNextChunk split: outcome.splits prod.splits option.splits if_splits)
  with getNextChunk_counters[OF gn] show ?thesis
    by (auto simp: counters_def split: sum.splits)
qed

lemma Read_sends:
  assumes "downloader_Read (recorded cl) ((w, []), d) n = Ret (bs, err, ((w', reqs), d'))"
  shows "dBytesRead d' = dBytesRead d + AtLeastZero (of_nat (length bs)) \<and> length reqs \<le> 1 \<and>
    (\<forall>req\<in>set reqs. \<exists>stop. header_get (req_header req) ''Range'' = rangeHeader (dBytesRead d') stop) \<and>
    (if body_fails cl d n
     then \<exists>retry d2. shouldRetry (d\<lparr>dBytesRead := dBytesRead d'\<rparr>) = (retry, d2) \<and> counters d' = counters d2 \<and>
       (reqs \<noteq> [] \<longrightarrow> retry)
     else counters d' = counters d)"
proof (cases "dReader d")
  case None
  with assms show ?thesis
    by (auto simp: downloader_Read_def body_fails_def AtLeastZero_def)
next
  case (Some body)
  obtain bs1 e body' where rd: "cl_read cl body n = (bs1, e, body')" by (metis prod_cases3)
  let ?d = "d\<lparr>dReader := Some body', dBytesRead := dBytesRead d + AtLeastZero (of_nat (length bs1))\<rparr>"
  have r: "cl_read (recorded cl) = cl_read cl" "cl_close (recorded cl) = cl_close cl" by (simp_all add: recorded_def)
  consider "e = None" | x where "e = Some x" "is_eof x" | x where "e = Some x" "\<not> is_eof x" by (cases e) auto
  then show ?thesis
  proof cases
    case 1
    with assms Some rd r show ?thesis by (auto simp: downloader_Read_def body_fails_def counters_def)
  next
    case (2 x)
    then have nf: "\<not> body_fails cl d n" using Some rd by (simp add: body_fails_def)
    show ?thesis
    proof (cases "cl_close cl body'")
      case c: None
      with assms Some rd r 2 have
        "readNextChunk (recorded cl) (w, []) (?d\<lparr>dReader := None\<rparr>) bs1 = Ret (bs, err, ((w', reqs), d'))"
        by (simp add: downloader_Read_def Let_def)
      from readNextChunk_sends[OF this] nf show ?thesis by (auto simp: counters_def)
    next
      case (Some e')
      with assms \<open>dReader d = Some body\<close> rd r 2 nf show ?thesis
        by (auto simp: downloader_Read_def counters_def Let_def)
    qed
  next
    case (3 x)
    then have f: "body_fails cl d n" using Some rd by (simp add: body_fails_def)
    obtain retry d2 where sr: "shouldRetry ?d = (retry, d2)" by fastforce
    note fr = shouldRetry_frame[OF sr]
    have same: "\<exists>d3. shouldRetry (d\<lparr>dBytesRead := dBytesRead ?d\<rparr>) = (retry, d3) \<and> counters d3 = counters d2"
      using sr by (auto simp: shouldRetry_def counters_def Let_def split: if_splits)
    show ?thesis
    proof (cases retry)
      case True
      with assms Some rd r 3 sr have
        "readNextChunk (recorded cl) (w, []) d2 bs1 = Ret (bs, err, ((w', reqs), d'))"
        by (simp add: downloader_Read_def Let_def)
      from readNextChunk_sends[OF this] f same fr(1) True show ?thesis by auto
    next
      case False
      with assms Some rd r 3 sr f same fr(1) show ?thesis by (auto simp: downloader_Read_def Let_def)
    qed
  qed
qed

text \<open>The budget that a downloader has left, altogether and at an offset.\<close>

lemma restarts_of_failed:
  "length reqs \<le> 1 \<Longrightarrow> restarts_of (f, bs, reqs, off) = (if f \<and> reqs \<noteq> [] then [(off, hd reqs)] else [])"
  by (cases reqs) (auto simp: restarts_of_def)

lemma session_total: "length (restarts (session cl (w, d) ns)) \<le> maxTotalRetryCount - dTotalRetryCount d"
proof (induction ns arbitrary: w d)
  case (Cons n ns)
  show ?case
  proof (cases "downloader_Read (recorded cl) ((w, []), d) n")
    case (Ret x)
    obtain bs err w' reqs d' where x: "x = (bs, err, ((w', reqs), d'))" by (metis prod.exhaust)
    note rs = Read_sends[OF Ret[unfolded x]]
    show ?thesis
    proof (cases "body_fails cl d n")
      case True
      with rs obtain retry d2 where sr: "shouldRetry (d\<lparr>dBytesRead := dBytesRead d'\<rparr>) = (retry, d2)"
        "counters d' = counters d2" "reqs \<noteq> [] \<longrightarrow> retry" by auto
      with shouldRetry_frame(5,6)[OF sr(1)] have
        "dTotalRetryCount d' = dTotalRetryCount d + 1 \<and> (reqs \<noteq> [] \<longrightarrow> dTotalRetryCount d' \<le> maxTotalRetryCount)"
        by (auto simp: counters_def)
      then show ?thesis using Cons.IH[of w' d'] Ret x rs by (auto simp: restarts_of_failed)
    next
      case False
      with Cons.IH[of w' d'] Ret x rs show ?thesis by (auto simp: restarts_of_failed counters_def)
    qed
  qed simp
qed simp

text \<open>As long as the offset has not wrapped around, it does not decrease.\<close>

lemma offset_grows:
  assumes "unat (off :: u64) + length bs + k < 2 ^ 63"
  shows "unat (off + AtLeastZero (of_nat (length bs))) = unat off + length bs"
proof -
  have "AtLeastZero (of_nat (length bs)) = of_nat (length bs)" by (rule AtLeastZero_of_nat) (use assms in simp)
  with assms show ?thesis by (simp add: unat_word_ariths unat_of_nat)
qed

lemma restarts_offsets:
  assumes "unat (dBytesRead d) + length (bytes_of (session cl (w, d) ns)) < 2 ^ 63"
    and "(off, req) \<in> set (restarts (session cl (w, d) ns))"
  shows "unat (dBytesRead d) \<le> unat off"
  using assms
proof (induction ns arbitrary: w d)
  case (Cons n ns)
  then obtain bs err w' reqs d' where
    x: "downloader_Read (recorded cl) ((w, []), d) n = Ret (bs, err, ((w', reqs), d'))"
    by (auto split: outcome.splits prod.splits)
  note rs = Read_sends[OF x]
  have g: "unat (dBytesRead d') = unat (dBytesRead d) + length bs"
    using offset_grows[of "dBytesRead d" bs "length (bytes_of (session cl (w', d') ns))"] rs Cons.prems(1) x by auto
  show ?case
  proof (cases "(off, req) \<in> set (restarts (session cl (w', d') ns))")
    case True
    from Cons.IH[OF _ this] Cons.prems(1) x g show ?thesis by simp
  next
    case False
    with Cons.prems(2) x rs g show ?thesis by (auto simp: restarts_of_failed split: if_splits)
  qed
qed simp

lemma session_at:
  assumes "unat (dBytesRead d) + length (bytes_of (session cl (w, d) ns)) < 2 ^ 63"
    and "unat (dLastErrorAtBytesRead d) \<le> unat (dBytesRead d)"
  shows "length (filter (\<lambda>r. fst r = x) (restarts (session cl (w, d) ns)))
    \<le> (if x = dLastErrorAtBytesRead d then maxRetryCount - dLastErrorRetryCount d else Suc maxRetryCount)"
  using assms
proof (induction ns arbitrary: w d)
  case (Cons n ns)
  show ?case
  proof (cases "downloader_Read (recorded cl) ((w, []), d) n")
    case (Ret y)
    obtain bs err w' reqs d' where y: "y = (bs, err, ((w', reqs), d'))" by (metis prod.exhaust)
    note rs = Read_sends[OF Ret[unfolded y]]
    have g: "unat (dBytesRead d') = unat (dBytesRead d) + length bs"
      using offset_grows[of "dBytesRead d" bs "length (bytes_of (session cl (w', d') ns))"] rs Cons.prems(1) Ret y by auto
    have b: "unat (dBytesRead d') + length (bytes_of (session cl (w', d') ns)) < 2 ^ 63"
      using Cons.prems(1) Ret y g by simp
    show ?thesis
    proof (cases "body_fails cl d n")
      case False
      with rs have "dLastErrorAtBytesRead d' = dLastErrorAtBytesRead d" "dLastErrorRetryCount d' = dLastErrorRetryCount d"
        by (simp_all add: counters_def)
      with Cons.IH[OF b] Cons.prems(2) g Ret y rs False show ?thesis by (auto simp: restarts_of_failed)
    next
      case True
      with rs obtain retry d2 where sr: "shouldRetry (d\<lparr>dBytesRead := dBytesRead d'\<rparr>) = (retry, d2)"
        "counters d' = counters d2" "reqs \<noteq> [] \<longrightarrow> retry" by auto
      let ?rest = "restarts (session cl (w', d') ns)"
      have own: "restarts (session cl (w, d) (n # ns)) = (if reqs = [] then [] else [(dBytesRead d', hd reqs)]) @ ?rest"
        using Ret y rs True by (simp add: restarts_of_failed)
      have ih: "unat (dLastErrorAtBytesRead d') \<le> unat (dBytesRead d') \<Longrightarrow> length (filter (\<lambda>r. fst r = x) ?rest) \<le>
          (if x = dLastErrorAtBytesRead d' then maxRetryCount - dLastErrorRetryCount d' else Suc maxRetryCount)"
        by (rule Cons.IH[OF b])
      show ?thesis
      proof (cases "dLastErrorAtBytesRead d \<noteq> dBytesRead d' \<and> retry")
        case True
        with sr have c: "dLastErrorAtBytesRead d' = dBytesRead d'" "dLastErrorRetryCount d' = 0"
          by (auto simp: shouldRetry_def counters_def Let_def split: if_splits)
        have "filter (\<lambda>r. fst r = x) ?rest = []" if "x = dLastErrorAtBytesRead d"
        proof -
          have "unat x < unat (dBytesRead d')"
            using that True Cons.prems(2) g by (simp add: word_unat_eq_iff)
          with restarts_offsets[OF b] show ?thesis by (fastforce simp: filter_empty_conv)
        qed
        with ih c True own show ?thesis by (auto split: if_splits)
      next
        case False
        with sr have "dLastErrorAtBytesRead d' = dLastErrorAtBytesRead d"
          "if reqs = [] then dLastErrorRetryCount d \<le> dLastErrorRetryCount d'
           else dLastErrorAtBytesRead d = dBytesRead d' \<and> dLastErrorRetryCount d' = Suc (dLastErrorRetryCount d) \<and>
             dLastErrorRetryCount d' \<le> maxRetryCount"
          by (auto simp: shouldRetry_def counters_def Let_def split: if_splits)
        moreover from this(1) have "length (filter (\<lambda>r. fst r = x) ?rest) \<le>
            (if x = dLastErrorAtBytesRead d then maxRetryCount - dLastErrorRetryCount d' else Suc maxRetryCount)"
          using ih Cons.prems(2) g by simp
        ultimately show ?thesis using own by (auto split: if_splits)
      qed
    qed
  qed simp
qed simp

text \<open>A request of a restart asks for the bytes from the offset at which the body failed.\<close>

lemma session_ranges:
  "(off, req) \<in> set (restarts (session cl (w, d) ns)) \<Longrightarrow>
     \<exists>stop. header_get (req_header req) ''Range'' = rangeHeader off stop"
proof (induction ns arbitrary: w d)
  case (Cons n ns)
  then obtain bs err w' reqs d' where
    x: "downloader_Read (recorded cl) ((w, []), d) n = Ret (bs, err, ((w', reqs), d'))"
    by (auto split: outcome.splits prod.splits)
  with Read_sends[OF x] Cons show ?case by (cases reqs) (auto simp: restarts_of_failed split: if_splits)
qed simp

lemma session_single: "\<forall>(failed, bs, reqs, off)\<in>set (session cl (w, d) ns). length reqs \<le> 1"
proof (induction ns arbitrary: w d)
  case (Cons n ns)
  show ?case
  proof (cases "downloader_Read (recorded cl) ((w, []), d) n")
    case (Ret x)
    obtain bs err w' reqs d' where x: "x = (bs, err, ((w', reqs), d'))" by (metis prod.exhaust)
    with Ret Read_sends[OF Ret[unfolded x]] Cons.IH[of w' d'] show ?thesis by simp
  qed simp
qed simp

text \<open>The recording is only an observation: without it the same bytes, errors and states come out.\<close>

lemma recorded_same:
  "downloader_Read cl (w, d) n =
     (case downloader_Read (recorded cl) ((w, l), d) n of
        Panic m \<Rightarrow> Panic m
      | Ret (bs, err, ((w', reqs), d')) \<Rightarrow> Ret (bs, err, (w', d')))"
proof -
  have r: "cl_read (recorded cl) = cl_read cl" "cl_close (recorded cl) = cl_close cl" by (simp_all add: recorded_def)
  have nx: "readNextChunk cl w d0 bs =
     (case readNextChunk (recorded cl) (w, l) d0 bs of
        Panic m \<Rightarrow> Panic m
      | Ret (bs, err, ((w', reqs), d')) \<Rightarrow> Ret (bs, err, (w', d')))" for d0 bs
    by (simp add: readNextChunk_def recorded_getNextChunk split: outcome.split prod.split option.split)
  show ?thesis
    by (simp add: downloader_Read_def r nx Let_def split: outcome.split prod.split option.split)
qed

text \<open>A download begins with its counters at zero.\<close>

lemma EnhancedGet_fresh:
  assumes "EnhancedGet cl w uri hdr seg = (w', Ret (Some resp, None))" "resp_body resp = Hijacked d"
  shows "counters d = (0, 0, 0) \<and> dBytesRead d = 0"
proof -
  obtain w1 d1 g where gn: "getNextChunk cl w (newDownloader uri hdr seg) = (w1, d1, g)" by (metis prod_cases3)
  have "\<exists>b. d = d1\<lparr>dReader := b\<rparr>"
    using assms gn by (auto simp: EnhancedGet_def hijack_def with_body_def Let_def
        split: outcome.splits option.splits sum.splits prod.splits if_splits)
  with getNextChunk_counters[OF gn] show ?thesis by (auto simp: counters_def newDownloader_def)
qed

text \<open>C31: the retry budget of a download. Take a response of EnhancedGet that continues with further segments,
  from any server, and read from it as often as wanted, with any buffers, also after errors. A restart is
  a request that a Read sends after the body failed with an error other than EOF; it asks for the bytes
  from the offset reached. There are at most 10 restarts, and, while fewer than 2^63 bytes have been
  read, at most four at one offset (the first error there and three more) and at most three at offset 0.
  A Read sends at most one request.\<close>

theorem retry_budget:
  assumes "EnhancedGet cl w uri hdr seg = (w', Ret (Some resp, None))" "resp_body resp = Hijacked d"
    and "s = session cl (w', d) ns"
  shows "length (restarts s) \<le> 10 \<and>
    (length (bytes_of s) < 2 ^ 63 \<longrightarrow> length (filter (\<lambda>r. fst r = x) (restarts s)) \<le> (if x = 0 then 3 else 4)) \<and>
    (\<forall>(off, req)\<in>set (restarts s). \<exists>stop. header_get (req_header req) ''Range'' = rangeHeader off stop) \<and>
    (\<forall>(failed, bs, reqs, off)\<in>set s. length reqs \<le> 1)"
proof (intro conjI impI)
  have d: "dTotalRetryCount d = 0" "dLastErrorAtBytesRead d = 0" "dLastErrorRetryCount d = 0" "dBytesRead d = 0"
    using EnhancedGet_fresh[OF assms(1,2)] by (simp_all add: counters_def)
  show "length (restarts s) \<le> 10"
    using session_total[of cl w' d ns] d assms(3) by (simp add: maxTotalRetryCount_def)
  show "length (filter (\<lambda>r. fst r = x) (restarts s)) \<le> (if x = 0 then 3 else 4)" if "length (bytes_of s) < 2 ^ 63"
    using session_at[of d cl w' ns x] that d assms(3) by (simp add: maxRetryCount_def split: if_splits)
  show "\<forall>(off, req)\<in>set (restarts s). \<exists>stop. header_get (req_header req) ''Range'' = rangeHeader off stop"
    using session_ranges[of _ _ cl w' d ns] assms(3) by blast
  show "\<forall>(failed, bs, reqs, off)\<in>set s. length reqs \<le> 1"
    using session_single[of cl w' d ns] assms(3) by simp
qed

text \<open>
  A server whose bodies break off: the first after the two bytes of its segment, all others before the
  first byte. The downloader restarts four times at offset 2, although the comment in the code and its log
  message speak of three.
\<close>

definition broken_client :: "(nat, bytes) client" where
  "broken_client =
     \<lparr>cl_newRequest = (\<lambda>uri. None),
      cl_do = (\<lambda>w req. (Suc w, Inr
        \<lparr>resp_status = ''206'', resp_code = 206,
         resp_header = header_set no_header ''Content-Range''
           (contentRangeText (decimal (if w = 0 then 0 else 2)) (decimal (if w = 0 then 1 else 3)) (decimal 4)),
         resp_length = 2, resp_body = (if w = 0 then [8, 9] else [])\<rparr>)),
      cl_read = (\<lambda>b n. (b, Some (Err ''connection reset''), [])),
      cl_close = (\<lambda>b. None)\<rparr>"

lemma two_ranges:
  "parseContentRange (contentRangeText (decimal 0) (decimal (Suc 0)) (decimal 4)) = Some (0, 1, Some 4)"
  "parseContentRange (contentRangeText (decimal 2) (decimal 3) (decimal 4)) = Some (2, 3, Some 4)"
  using parseContentRange_roundtrip[of 0 1 "Some 4"] parseContentRange_roundtrip[of 2 3 "Some 4"] by simp_all

lemmas segment_steps = Let_def getNextChunk_def buildRequest_def checkContentRange_def status_defs two_ranges chunkEnd_def

lemma broken_download:
  "\<exists>resp d. EnhancedGet broken_client 0 uri hdr 2 = (1, Ret (Some resp, None)) \<and> resp_body resp = Hijacked d \<and>
     map fst (restarts (session broken_client (1, d) [5, 5, 5, 5, 5, 5])) = [2, 2, 2, 2] \<and>
     length (bytes_of (session broken_client (1, d) [5, 5, 5, 5, 5, 5])) = 2"
  by (simp add: EnhancedGet_def hijack_def with_body_def MaxInt64_def newDownloader_def segment_steps broken_client_def
      downloader_Read_def readNextChunk_def shouldRetry_def recorded_def restarts_of_def body_fails_def
      maxTotalRetryCount_def maxRetryCount_def AtLeastZero_def)

theorem retry_budget_witness:
  "\<exists>resp d s. EnhancedGet broken_client 0 ''u'' no_header 2 = (1, Ret (Some resp, None)) \<and> resp_body resp = Hijacked d \<and>
     s = session broken_client (1, d) [5, 5, 5, 5, 5, 5] \<and> map fst (restarts s) = [2, 2, 2, 2] \<and>
     length (filter (\<lambda>r. fst r = 2) (restarts s)) \<le> 4"
proof -
  obtain resp d where d: "EnhancedGet broken_client 0 ''u'' no_header 2 = (1, Ret (Some resp, None))"
      "resp_body resp = Hijacked d"
    and r: "map fst (restarts (session broken_client (1, d) [5, 5, 5, 5, 5, 5])) = [2, 2, 2, 2]"
      "length (bytes_of (session broken_client (1, d) [5, 5, 5, 5, 5, 5])) = 2"
    using broken_download[of "''u''" no_header] by (elim exE conjE)
  from retry_budget[OF d refl, of "[5, 5, 5, 5, 5, 5]" 2, THEN conjunct2, THEN conjunct1] r(2)
  have "length (filter (\<lambda>r. fst r = 2) (restarts (session broken_client (1, d) [5, 5, 5, 5, 5, 5]))) \<le> 4"
    by (simp del: session.simps)
  with d r(1) show ?thesis by (intro exI[of _ resp] exI[of _ d] exI[of _ "session broken_client (1, d) [5, 5, 5, 5, 5, 5]"] conjI refl)
qed

section \<open>Against any server\<close>

text \<open>C30: which response a download goes on with after its current body is used up, whatever the server does.
  It answers a request for the bytes from the current offset, and it has the Etag seen first, if there was
  one. Once bytes have been read, it is a 206 whose Content-Range starts at the current offset and has the
  total length seen first, so that no chunk is spliced in at the wrong place. While the download is still
  at offset 0, it may also be an answer with any other status, whose Content-Range and length nobody looks
  at: an error page can become the beginning of the file (\<open>error_page_delivered\<close> below).\<close>

theorem chunk_continuity:
  assumes "readNextChunk cl w d bs = Ret (bs', None, (w', d'))"
  shows "bs' = bs \<and> dBytesRead d' = dBytesRead d \<and>
    (\<exists>req resp. cl_do cl w req = (w', Inr resp) \<and> req_uri req = dURI d \<and>
       header_get (req_header req) ''Range'' = rangeHeader (dBytesRead d) (chunkEnd d) \<and>
       dReader d' = Some (resp_body resp) \<and>
       (dEtag d \<noteq> [] \<longrightarrow> header_get (resp_header resp) ''Etag'' = dEtag d) \<and>
       (if resp_code resp = StatusPartialContent
        then \<exists>stop tot. parseContentRange (header_get (resp_header resp) ''Content-Range'') =
               Some (dBytesRead d, stop, tot) \<and>
               (\<forall>t. dBytesTotal d = Some t \<longrightarrow> tot = Some t)
        else dBytesRead d = 0))"
proof -
  obtain w1 d1 g where gn: "getNextChunk cl w d = (w1, d1, g)" by (metis prod_cases3)
  with assms obtain resp h where g: "g = Ret (Some resp, Some h, None)"
    and res: "bs' = bs" "w' = w1" "d' = d1\<lparr>dReader := Some (resp_body resp)\<rparr>"
      "ContentRangeStart h = dBytesRead d1"
    by (auto simp: readNextChunk_def split: if_splits outcome.splits option.splits)
  have fr: "dBytesRead d1 = dBytesRead d" using getNextChunk_frame[OF gn] by (simp add: same_progress_def)
  define req where "req = \<lparr>req_uri = dURI d, req_header =
    header_set (header_copy no_header (dRequestHeaders d)) ''Range'' (rangeHeader (dBytesRead d) (chunkEnd d))\<rparr>"
  from gn g obtain resp0 where do: "cl_do cl w req = (w1, Inr resp0)"
    and et: "dEtag d \<noteq> [] \<longrightarrow> header_get (resp_header resp0) ''Etag'' = dEtag d"
    and cc: "if resp_code resp0 = StatusPartialContent
        then checkContentRange (if dEtag d = [] then d\<lparr>dEtag := header_get (resp_header resp0) ''Etag''\<rparr> else d) resp0
               = (d1, Ret (Some resp, Some h, None))
        else resp0 = resp \<and> ContentRangeStart h = 0"
    by (auto simp: getNextChunk_def buildRequest_def req_def Let_def
        split: option.splits sum.splits prod.splits if_splits)
  have "resp0 = resp \<and> (if resp_code resp = StatusPartialContent
        then \<exists>stop tot. parseContentRange (header_get (resp_header resp) ''Content-Range'') =
               Some (dBytesRead d, stop, tot) \<and>
               (\<forall>t. dBytesTotal d = Some t \<longrightarrow> tot = Some t)
        else dBytesRead d = 0)"
    using cc fr res(4)
    by (auto simp: checkContentRange_def Let_def split: if_splits option.splits prod.splits)
  with do et fr res show ?thesis
    by (intro conjI exI[of _ req] exI[of _ resp]) (simp_all add: req_def)
qed

theorem chunk_continuity_witness:
  "\<exists>d'. readNextChunk (canned_client 206 ''bytes 0-9/42'') () (newDownloader ''u'' no_header 10) [] =
      Ret ([], None, ((), d')) \<and>
     dReader d' = Some [] \<and> dBytesRead d' = 0"
proof -
  obtain d' where rd: "readNextChunk (canned_client 206 ''bytes 0-9/42'') () (newDownloader ''u'' no_header 10) [] =
      Ret ([], None, ((), d'))"
    using parse_demo_range
    by (simp add: readNextChunk_def getNextChunk_def buildRequest_def canned_client_def checkContentRange_def
        status_defs)
  from chunk_continuity[OF rd] have "dReader d' = Some [] \<and> dBytesRead d' = 0"
    by (auto simp: canned_client_def)
  with rd show ?thesis by blast
qed

text \<open>What EnhancedGet makes of the first answer, for any server. After a 416 it returns the answer to
  a plain GET of the same URL without a Range header; a 206 becomes a 200 whose body continues with
  the next segments; every other answer (200, 304, 404, ...) is handed to the caller with its status,
  header and body unchanged.\<close>

theorem EnhancedGet_response:
  assumes "EnhancedGet cl w uri hdr seg = (w', Ret (Some resp, None))"
    and "getNextChunk cl w (newDownloader uri hdr seg) = (w1, d, Ret (Some first, h, e))"
  shows "if resp_code first = StatusRangeNotSatisfiable
    then \<exists>plain. cl_do cl w1 \<lparr>req_uri = uri, req_header = header_copy no_header hdr\<rparr> = (w', Inr plain) \<and>
           resp = with_body Plain plain
    else w' = w1 \<and>
      (if resp_code first = StatusPartialContent
       then resp_code resp = StatusOK \<and> resp_header resp = resp_header first \<and>
         (resp_body resp = Plain (resp_body first) \<or>
          resp_body resp = Hijacked (d\<lparr>dReader := Some (resp_body first)\<rparr>))
       else resp = with_body Plain first)"
proof -
  have fr: "dURI d = uri" "dRequestHeaders d = hdr"
    using assms(2) by (auto simp: getNextChunk_def checkContentRange_def Let_def
        split: sum.splits option.splits prod.splits if_splits)
  consider "resp_code first = StatusRangeNotSatisfiable" | "resp_code first = StatusPartialContent"
    | "resp_code first \<noteq> StatusRangeNotSatisfiable" "resp_code first \<noteq> StatusPartialContent" by blast
  then show ?thesis
  proof cases
    case 1
    with assms fr show ?thesis
      by (auto simp: EnhancedGet_def buildRequest_def split: option.splits sum.splits prod.splits)
  next
    case 2
    with assms show ?thesis
      by (auto simp: EnhancedGet_def hijack_def with_body_def Let_def status_defs
          split: if_splits option.splits)
  next
    case 3
    with assms show ?thesis by (auto simp: EnhancedGet_def)
  qed
qed

theorem EnhancedGet_response_witness:
  "\<exists>resp. EnhancedGet (canned_client 404 []) () ''u'' no_header 10 = ((), Ret (Some resp, None)) \<and>
     resp_code resp = 404 \<and> resp_body resp = Plain []"
proof -
  obtain first h d where gn: "getNextChunk (canned_client 404 []) () (newDownloader ''u'' no_header 10) =
      ((), d, Ret (Some first, Some h, None))" and f: "resp_code first = 404" "resp_body first = []"
    by (simp add: getNextChunk_def buildRequest_def canned_client_def status_defs)
  then have get: "EnhancedGet (canned_client 404 []) () ''u'' no_header 10 =
      ((), Ret (Some (with_body Plain first), None))"
    by (simp add: EnhancedGet_def status_defs)
  from EnhancedGet_response[OF get gn] get f show ?thesis by (simp add: status_defs with_body_def)
qed

text \<open>C39: the one panic of EnhancedGet. A first answer 206 whose Content-Range has the total "*" leaves
  d.BytesTotal nil, and EnhancedGet dereferences it; no other answer of any server makes it panic.\<close>

theorem EnhancedGet_panics_iff:
  "(\<exists>w' m. EnhancedGet cl w uri hdr seg = (w', Panic m)) \<longleftrightarrow>
   (\<exists>req w' resp start stop. buildRequest cl (newDownloader uri hdr seg) = Inr req \<and>
      cl_do cl w (req\<lparr>req_header := header_set (req_header req) ''Range'' (rangeHeader 0 seg)\<rparr>) = (w', Inr resp) \<and>
      resp_code resp = StatusPartialContent \<and>
      parseContentRange (header_get (resp_header resp) ''Content-Range'') = Some (start, stop, None))"
  (is "?L \<longleftrightarrow> ?R")
proof (cases "buildRequest cl (newDownloader uri hdr seg)")
  case (Inl err)
  then show ?thesis by (simp add: EnhancedGet_def getNextChunk_def)
next
  case (Inr req)
  obtain w1 x where do: "cl_do cl w (req\<lparr>req_header := header_set (req_header req) ''Range'' (rangeHeader 0 seg)\<rparr>) = (w1, x)"
    by fastforce
  show ?thesis
  proof (cases x)
    case (Inl e)
    with do Inr show ?thesis by (simp add: EnhancedGet_def getNextChunk_def)
  next
    case x: (Inr resp)
    show ?thesis
    proof (cases "resp_code resp = StatusPartialContent")
      case False
      with do Inr x show ?thesis
        by (auto simp: EnhancedGet_def getNextChunk_def split: sum.splits prod.splits)
    next
      case True
      with do Inr x show ?thesis
        by (auto simp: EnhancedGet_def getNextChunk_def checkContentRange_def hijack_def Let_def status_defs
            split: option.splits)
    qed
  qed
qed

section \<open>An error page in a file\<close>

text \<open>
  What \<open>range_law\<close> excludes: a server that refuses a retry of the first segment. It sends no Etag, its
  first body breaks off before the first byte, and the request is repeated; the answer 503 has no
  Content-Range, so that it counts as one for offset 0, where the download still is. Its body takes
  the place of the first bytes of the file \<open>[1, 2, 3, 4]\<close>, without an error.
\<close>

definition flaky_client :: "(nat, bytes option) client" where
  "flaky_client =
     \<lparr>cl_newRequest = (\<lambda>uri. None),
      cl_do = (\<lambda>w req. (Suc w, Inr
        (let code = (if w = 1 then 503 else 206)
         in \<lparr>resp_status = decimal code, resp_code = code,
             resp_header = (if w = 1 then no_header else header_set no_header ''Content-Range''
               (contentRangeText (decimal (if w = 0 then 0 else 2)) (decimal (if w = 0 then 1 else 3)) (decimal 4))),
             resp_length = 2,
             resp_body = (if w = 0 then None else if w = 1 then Some [8, 9] else Some [3, 4])\<rparr>))),
      cl_read = (\<lambda>b n. case b of
          None \<Rightarrow> ([], Some (Err ''connection reset''), None)
        | Some bs \<Rightarrow> (take n bs, if bs = [] then Some EOF else None, Some (drop n bs))),
      cl_close = (\<lambda>b. None)\<rparr>"

lemmas flaky_steps = flaky_client_def segment_steps

lemma error_page_delivered:
  "\<exists>resp d r'. EnhancedGet flaky_client 0 uri hdr 2 = (1, Ret (Some resp, None)) \<and> resp_code resp = 200 \<and>
     resp_body resp = Hijacked d \<and>
     FullReader_Read (downloader_Read flaky_client) (1, d) 5 = Some (Ret ([8, 9, 3, 4], Some EOF, r'))"
  by (simp add: EnhancedGet_def hijack_def with_body_def MaxInt64_def newDownloader_def flaky_steps
      FullReader_Read_def FullReader_loop.simps downloader_Read_def readNextChunk_def shouldRetry_def
      maxTotalRetryCount_def maxRetryCount_def AtLeastZero_def)

section \<open>A stalling server\<close>

text \<open>C40: a read that never returns. With a server whose 206 answers have an empty body but the expected
  Content-Range, the FullReader of a download asks for the same range for ever: the loop neither
  makes progress nor counts as a retry.\<close>

theorem stalled_download_diverges:
  assumes "parseContentRange crange = Some (0, stop, Some tot)" "tot \<noteq> 0"
    and "dReader d = Some []" "dBytesRead d = 0" "dBytesTotal d = Some tot" "dEtag d = []" "0 < n"
  shows "FullReader_Read (downloader_Read (canned_client 206 crange)) ((), d) n = None"
proof (rule FullReader_Read_diverges)
  let ?J = "\<lambda>s :: unit \<times> bytes downloader. dReader (snd s) = Some [] \<and> dBytesRead (snd s) = 0 \<and>
    dBytesTotal (snd s) = Some tot \<and> dEtag (snd s) = []"
  show "?J ((), d)" using assms by simp
  show "\<exists>s'. downloader_Read (canned_client 206 crange) s n = Ret ([], None, s') \<and> ?J s'" if "?J s" for s
    using that assms(1,2)
    by (auto simp: downloader_Read_def canned_client_def readNextChunk_def getNextChunk_def buildRequest_def
        checkContentRange_def Let_def AtLeastZero_def status_defs)
qed (use assms in simp)

theorem stalled_download_diverges_witness:
  "FullReader_Read (downloader_Read (canned_client 206 ''bytes 0-9/42''))
     ((), (newDownloader ''u'' no_header 10)\<lparr>dReader := Some [], dBytesTotal := Some 42\<rparr>) 1 = None"
  by (rule stalled_download_diverges[OF parse_demo_range]) simp_all

end
