(* ===== verification/GoPath.thy ===== *)
theory GoPath
  imports GoStrings
begin

text \<open>
  The lexical path functions of Go's \<^verbatim>\<open>path\<close> and (on Unix, with the same code)
  \<^verbatim>\<open>path/filepath\<close>: \<^verbatim>\<open>Clean\<close>, \<^verbatim>\<open>Join\<close>, \<^verbatim>\<open>Base\<close> and \<^verbatim>\<open>Ext\<close>. A path is cleaned by pushing its
  components on a stack, on which \<^verbatim>\<open>..\<close> removes the component before it.
\<close>

section \<open>Clean\<close>

definition clean_step :: "bool \<Rightarrow> string list \<Rightarrow> string \<Rightarrow> string list" where
  "clean_step rooted st c =
     (if c = [] \<or> c = ''.'' then st
      else if c = ''..'' then
        (case st of
           [] \<Rightarrow> if rooted then [] else [''..'']
         | t # ts \<Rightarrow> if t = ''..'' then ''..'' # st else ts)
      else c # st)"

definition clean_comps :: "string \<Rightarrow> string list" where
  "clean_comps p = rev (foldl (clean_step (hasPrefix p ''/'')) [] (split_on (CHR ''/'') p))"

definition clean :: "string \<Rightarrow> string" where
  "clean p =
     (let body = join ''/'' (clean_comps p)
      in if hasPrefix p ''/'' then ''/'' @ body
         else if body = [] then ''.''
         else body)"

definition good_comp :: "string \<Rightarrow> bool" where
  "good_comp c \<longleftrightarrow> c \<noteq> [] \<and> c \<noteq> ''.'' \<and> CHR ''/'' \<notin> set c"

text \<open>
  The components of a cleaned path: none is empty or a dot, and a parent reference only
  stands at the front of a relative path.
\<close>

definition clean_list :: "bool \<Rightarrow> string list \<Rightarrow> bool" where
  "clean_list rooted cs \<longleftrightarrow>
     list_all good_comp cs \<and>
     (if rooted then ''..'' \<notin> set cs
      else \<exists>k ds. cs = replicate k ''..'' @ ds \<and> ''..'' \<notin> set ds)"

lemma clean_list_Nil [simp]: "clean_list rooted []"
  by (auto simp: clean_list_def intro!: exI[of _ 0])

lemma clean_step_skip [simp]: "clean_step r st [] = st" "clean_step r st ''.'' = st"
  by (simp_all add: clean_step_def)

lemma clean_list_butlast: "clean_list r (cs @ [c]) \<Longrightarrow> clean_list r cs"
proof (cases r)
  case False
  assume "clean_list r (cs @ [c])"
  with False obtain k ds where g: "list_all good_comp cs"
    and e: "cs @ [c] = replicate k ''..'' @ ds" and d: "''..'' \<notin> set ds"
    by (auto simp: clean_list_def)
  show ?thesis
  proof (cases ds rule: rev_cases)
    case Nil
    with e have "cs = replicate (k - 1) ''..'' @ []"
      by (cases k) (auto simp: replicate_append_same[symmetric])
    with g False show ?thesis by (auto simp: clean_list_def intro!: exI[of _ "k - 1"] exI[of _ "[]"])
  next
    case (snoc ds' x)
    with e have "cs = replicate k ''..'' @ ds'" by simp
    with g d snoc False show ?thesis by (auto simp: clean_list_def)
  qed
qed (auto simp: clean_list_def)

lemma clean_list_snoc:
  assumes "clean_list r cs" "good_comp c" "c \<noteq> ''..''"
  shows "clean_list r (cs @ [c])"
proof (cases r)
  case False
  with assms obtain k ds where "cs = replicate k ''..'' @ ds" "''..'' \<notin> set ds"
    by (auto simp: clean_list_def)
  with assms False show ?thesis
    by (auto simp: clean_list_def intro!: exI[of _ k] exI[of _ "ds @ [c]"])
qed (use assms in \<open>auto simp: clean_list_def\<close>)

lemma clean_list_dotdot:
  assumes "clean_list False cs" "cs = [] \<or> last cs = ''..''"
  shows "clean_list False (cs @ [''..''])"
proof -
  from assms(1) obtain k ds where g: "list_all good_comp cs"
    and e: "cs = replicate k ''..'' @ ds" and d: "''..'' \<notin> set ds"
    by (auto simp: clean_list_def)
  from assms(2) e d have "ds = []"
    by (cases ds rule: rev_cases) auto
  with e have eq: "cs @ [''..''] = replicate (Suc k) ''..'' @ []"
    by (simp add: replicate_append_same)
  from g have "list_all good_comp (cs @ [''..''])" by (simp add: good_comp_def)
  moreover have "\<exists>k ds. cs @ [''..''] = replicate k ''..'' @ ds \<and> ''..'' \<notin> set ds"
    using eq by (intro exI[of _ "Suc k"] exI[of _ "[]"]) simp
  ultimately show ?thesis by (simp add: clean_list_def)
qed

lemma clean_step_clean_list:
  assumes "clean_list r (rev st)" "CHR ''/'' \<notin> set c"
  shows "clean_list r (rev (clean_step r st c))"
proof -
  consider "c = [] \<or> c = ''.''" | "c = ''..''" "st = []" | "c = ''..''" "st \<noteq> []" "hd st = ''..''"
    | "c = ''..''" "st \<noteq> []" "hd st \<noteq> ''..''" | "c \<notin> {[], ''.'', ''..''}" by blast
  then show ?thesis
  proof cases
    case 2
    then show ?thesis
      using clean_list_dotdot[of "[]"] by (simp add: clean_step_def)
  next
    case 3
    then have nr: "\<not> r" using assms(1) by (cases st) (auto simp: clean_list_def)
    with 3 assms(1) show ?thesis
      using clean_list_dotdot[of "rev st"] by (cases st) (auto simp: clean_step_def last_rev)
  next
    case 4
    then show ?thesis using assms(1) by (cases st) (auto simp: clean_step_def dest: clean_list_butlast)
  next
    case 5
    then show ?thesis using assms by (auto simp: clean_step_def good_comp_def intro: clean_list_snoc)
  qed (use assms in auto)
qed

lemma foldl_clean_list:
  "clean_list r (rev st) \<Longrightarrow> \<forall>c\<in>set cs. CHR ''/'' \<notin> set c \<Longrightarrow>
     clean_list r (rev (foldl (clean_step r) st cs))"
  by (induction cs arbitrary: st) (auto intro: clean_step_clean_list)

lemma clean_comps_clean_list: "clean_list (hasPrefix p ''/'') (clean_comps p)"
  by (simp add: clean_comps_def foldl_clean_list split_on_no_sep)

text \<open>Cleaning a list of components that is already clean changes nothing.\<close>

lemma foldl_clean_step_dots:
  "foldl (clean_step False) (replicate j ''..'') (replicate k ''..'') = replicate (j + k) ''..''"
proof (induction k arbitrary: j)
  case (Suc k)
  have "clean_step False (replicate j ''..'') ''..'' = replicate (Suc j) ''..''"
    by (cases j) (auto simp: clean_step_def)
  with Suc[of "Suc j"] show ?case by simp
qed simp

lemma foldl_clean_step_plain:
  "list_all good_comp ds \<Longrightarrow> ''..'' \<notin> set ds \<Longrightarrow>
     foldl (clean_step r) st ds = rev ds @ st"
  by (induction ds arbitrary: st) (auto simp: clean_step_def good_comp_def)

lemma foldl_clean_list_id:
  assumes "clean_list r cs"
  shows "foldl (clean_step r) [] cs = rev cs"
proof (cases r)
  case True
  with assms show ?thesis using foldl_clean_step_plain[of cs r "[]"] by (auto simp: clean_list_def)
next
  case False
  with assms obtain k ds where "list_all good_comp ds" "cs = replicate k ''..'' @ ds" "''..'' \<notin> set ds"
    by (auto simp: clean_list_def)
  with False show ?thesis
    using foldl_clean_step_dots[of 0 k] foldl_clean_step_plain[of ds False "replicate k ''..''"] by simp
qed

lemma good_comps_no_sep: "list_all good_comp cs \<Longrightarrow> \<forall>c\<in>set cs. CHR ''/'' \<notin> set c"
  by (auto simp: list_all_iff good_comp_def)

lemma join_good_not_rooted:
  "list_all good_comp cs \<Longrightarrow> \<not> hasPrefix (join ''/'' cs) ''/''"
proof (cases cs)
  case (Cons c ds)
  assume "list_all good_comp cs"
  with Cons have "c \<noteq> []" "hd c \<noteq> CHR ''/''"
    by (auto simp: good_comp_def hd_in_set) (metis hd_in_set)
  with Cons show ?thesis by (cases ds; cases c) (auto simp: hasPrefix_def)
qed (simp add: hasPrefix_def)

lemma clean_comps_rooted:
  "clean_list True cs \<Longrightarrow> clean_comps (''/'' @ join ''/'' cs) = cs"
  using split_on_join[of cs "CHR ''/''"] good_comps_no_sep[of cs] foldl_clean_list_id[of True cs]
  by (cases "cs = []") (auto simp: clean_comps_def clean_list_def hasPrefix_def)

lemma clean_comps_relative:
  assumes "clean_list False cs"
  shows "clean_comps (join ''/'' cs) = cs"
proof -
  have g: "list_all good_comp cs" using assms by (simp add: clean_list_def)
  then have "\<not> hasPrefix (join ''/'' cs) ''/''" by (rule join_good_not_rooted)
  then show ?thesis
    using split_on_join[of cs "CHR ''/''"] good_comps_no_sep[OF g] foldl_clean_list_id[OF assms]
    by (cases "cs = []") (auto simp: clean_comps_def)
qed

lemma join_good_empty: "list_all good_comp cs \<Longrightarrow> join ''/'' cs = [] \<longleftrightarrow> cs = []"
  by (cases cs; cases "tl cs") (auto simp: good_comp_def)

lemma clean_rooted: "hasPrefix p ''/'' \<Longrightarrow> clean p = ''/'' @ join ''/'' (clean_comps p)"
  by (simp add: clean_def)

lemma clean_idem: "clean (clean p) = clean p"
proof (cases "hasPrefix p ''/''")
  case True
  then have c: "clean_list True (clean_comps p)" using clean_comps_clean_list[of p] by simp
  from True have e: "clean p = ''/'' @ join ''/'' (clean_comps p)" by (rule clean_rooted)
  have "hasPrefix (clean p) ''/''" using e by (simp add: hasPrefix_def)
  then show ?thesis using clean_comps_rooted[OF c] e clean_rooted[of "clean p"] by simp
next
  case False
  then have c: "clean_list False (clean_comps p)" using clean_comps_clean_list[of p] by simp
  then have g: "list_all good_comp (clean_comps p)" by (simp add: clean_list_def)
  show ?thesis
  proof (cases "clean_comps p = []")
    case True
    with False have "clean p = ''.''" by (simp add: clean_def)
    moreover have "clean ''.'' = ''.''" by (simp add: clean_def clean_comps_def hasPrefix_def)
    ultimately show ?thesis by simp
  next
    case ne: False
    with False g have e: "clean p = join ''/'' (clean_comps p)"
      by (simp add: clean_def Let_def join_good_empty)
    moreover have "\<not> hasPrefix (clean p) ''/''" using join_good_not_rooted[OF g] e by simp
    ultimately show ?thesis
      using clean_comps_relative[OF c] ne g by (simp add: clean_def Let_def join_good_empty)
  qed
qed

lemma clean_root_iff: "clean p = ''/'' \<longleftrightarrow> hasPrefix p ''/'' \<and> clean_comps p = []"
proof (cases "hasPrefix p ''/''")
  case True
  then have "list_all good_comp (clean_comps p)"
    using clean_comps_clean_list[of p] by (simp add: clean_list_def)
  with True show ?thesis by (simp add: clean_rooted join_good_empty)
next
  case False
  have "list_all good_comp (clean_comps p)"
    using clean_comps_clean_list[of p] by (simp add: clean_list_def split: if_splits)
  then have "\<not> hasPrefix (join ''/'' (clean_comps p)) ''/''" by (rule join_good_not_rooted)
  with False show ?thesis by (auto simp: clean_def Let_def hasPrefix_def)
qed

section \<open>Join, Base and Ext\<close>

fun path_join :: "string list \<Rightarrow> string" where
  "path_join [] = []"
| "path_join (e # es) = (if e = [] then path_join es else clean (join ''/'' (e # es)))"

definition path_base :: "string \<Rightarrow> string" where
  "path_base p =
     (if p = [] then ''.''
      else let q = rev (dropWhile (\<lambda>c. c = CHR ''/'') (rev p))
           in if q = [] then ''/'' else last (split_on (CHR ''/'') q))"

definition path_ext :: "string \<Rightarrow> string" where
  "path_ext p =
     (let l = last (split_on (CHR ''/'') p); t = takeWhile (\<lambda>c. c \<noteq> CHR ''.'') (rev l)
      in if length t = length l then [] else CHR ''.'' # rev t)"

lemma path_join_clean: "path_join es \<noteq> [] \<Longrightarrow> clean (path_join es) = path_join es"
  by (induction es) (auto simp: clean_idem split: if_splits)

lemma path_join_empty: "list_all (\<lambda>e. e = []) es \<Longrightarrow> path_join es = []"
  by (induction es) auto

section \<open>Paths without parent references\<close>

text \<open>The components that are left of a path without \<^verbatim>\<open>..\<close>.\<close>

definition plain_comps :: "string \<Rightarrow> string list" where
  "plain_comps p = filter good_comp (split_on (CHR ''/'') p)"

lemma split_on_append: "split_on c (a @ c # b) = split_on c a @ split_on c b"
  by (induction a) auto

lemma foldl_clean_step_filter:
  "''..'' \<notin> set cs \<Longrightarrow> \<forall>c\<in>set cs. CHR ''/'' \<notin> set c \<Longrightarrow>
     foldl (clean_step r) st cs = rev (filter good_comp cs) @ st"
  by (induction cs arbitrary: st) (auto simp: clean_step_def good_comp_def)

lemma no_dotdot_comps:
  "''..'' \<notin> set (split_on (CHR ''/'') p) \<Longrightarrow> clean_comps p = plain_comps p"
  by (simp add: clean_comps_def plain_comps_def foldl_clean_step_filter split_on_no_sep)

lemma plain_comps_good: "list_all good_comp (plain_comps p)"
  by (simp add: plain_comps_def list_all_iff)

lemma hasPrefix_slash_append [simp]: "d \<noteq> [] \<Longrightarrow> hasPrefix (d @ x) ''/'' = hasPrefix d ''/''"
  by (cases d) (simp_all add: hasPrefix_def)

lemma clean_comps_clean [simp]: "clean_comps (clean p) = clean_comps p"
proof (cases "hasPrefix p ''/''")
  case True
  then have "clean_list True (clean_comps p)" using clean_comps_clean_list[of p] by simp
  from clean_comps_rooted[OF this] True show ?thesis by (simp add: clean_rooted)
next
  case False
  then have c: "clean_list False (clean_comps p)" using clean_comps_clean_list[of p] by simp
  then have g: "list_all good_comp (clean_comps p)" by (simp add: clean_list_def)
  have "clean_comps ''.'' = []" by (simp add: clean_comps_def hasPrefix_def)
  then show ?thesis
    using clean_comps_relative[OF c] False by (simp add: clean_def Let_def join_good_empty[OF g])
qed

lemma join_plain_comps:
  assumes "list_all good_comp cs"
  shows "plain_comps (join ''/'' cs) = cs"
  using assms split_on_join[of cs "CHR ''/''"] good_comps_no_sep[OF assms]
  by (cases "cs = []") (auto simp: plain_comps_def good_comp_def list_all_iff)

lemma plain_comps_slash [simp]: "plain_comps (a @ ''/'' @ b) = plain_comps a @ plain_comps b"
  by (simp add: plain_comps_def split_on_append)

lemma plain_comps_simps [simp]: "plain_comps [] = []" "plain_comps ''.'' = []"
  by (simp_all add: plain_comps_def good_comp_def)

lemma plain_comps_snoc_slash [simp]: "plain_comps (a @ ''/'') = plain_comps a"
  using plain_comps_slash[of a "[]"] by simp

lemma plain_comps_clean:
  assumes "''..'' \<notin> set (split_on (CHR ''/'') p)" "\<not> hasPrefix p ''/''"
  shows "plain_comps (clean p) = plain_comps p" "''..'' \<notin> set (split_on (CHR ''/'') (clean p))"
proof -
  have c: "clean_comps p = plain_comps p" using assms(1) by (rule no_dotdot_comps)
  have e: "clean p = (if plain_comps p = [] then ''.'' else join ''/'' (plain_comps p))"
    using assms(2) c plain_comps_good by (simp add: clean_def Let_def join_good_empty)
  then show "plain_comps (clean p) = plain_comps p"
    using plain_comps_good by (simp add: join_plain_comps)
  have "''..'' \<notin> set (plain_comps p)" using assms(1) by (simp add: plain_comps_def)
  with e show "''..'' \<notin> set (split_on (CHR ''/'') (clean p))"
    using split_on_join[of "plain_comps p" "CHR ''/''"] good_comps_no_sep[OF plain_comps_good]
    by auto
qed

text \<open>Joining a directory and a path without parent references appends the components.\<close>

lemma path_join_below:
  assumes "d \<noteq> []" "''..'' \<notin> set (split_on (CHR ''/'') l)"
  shows "clean_comps (path_join [d, l]) = clean_comps d @ plain_comps l"
proof -
  have "path_join [d, l] = clean (d @ ''/'' @ l)" using assms(1) by simp
  moreover have "clean_comps (d @ ''/'' @ l) = clean_comps d @ plain_comps l"
    using assms by (simp add: clean_comps_def split_on_append foldl_clean_step_filter split_on_no_sep plain_comps_def)
  ultimately show ?thesis by simp
qed

end
