(* ===== verification/Objects.thy ===== *)
theory Objects
  imports GoPath Http
begin

text \<open>
  The data of \<^verbatim>\<open>pkg/objects\<close> that the other components exchange: file specifications, the state
  of a file, and the errors of a listing.
\<close>

section \<open>Files\<close>

text \<open>\<^verbatim>\<open>Contents\<close> is nil unless the source has read the file while listing it.\<close>

record FileSpec =
  Path :: string
  DownloadPath :: string
  IsDirectory :: bool
  LastModified :: "gotime option"
  SymlinkTargetPath :: string
  Contents :: "bytes option"
  Headers :: header

definition fileSpec :: "string \<Rightarrow> FileSpec" where
  "fileSpec p =
     \<lparr>Path = p, DownloadPath = [], IsDirectory = False, LastModified = None, SymlinkTargetPath = [],
      Contents = None, Headers = no_header\<rparr>"

lemma fileSpec_sel [simp]:
  "Path (fileSpec p) = p" "DownloadPath (fileSpec p) = []" "\<not> IsDirectory (fileSpec p)"
  "LastModified (fileSpec p) = None" "SymlinkTargetPath (fileSpec p) = []"
  "Contents (fileSpec p) = None" "Headers (fileSpec p) = no_header"
  by (simp_all add: fileSpec_def)

text \<open>\<^verbatim>\<open>SizeBytes\<close> and \<^verbatim>\<open>ExpiryTime\<close> are pointers that can be nil.\<close>

record FileState =
  fsEtag :: string
  fsLastModified :: string
  fsSizeBytes :: "u64 option"
  fsExpiryTime :: "gotime option"
  fsSkipTransfer :: bool
  fsContentType :: string

section \<open>Listing errors\<close>

record ListEntriesError =
  leLocation :: string
  leMessage :: string
  leInner :: "goerror option"

definition FullMessage :: "ListEntriesError \<Rightarrow> string" where
  "FullMessage e =
     (case leInner e of
        None \<Rightarrow> leMessage e
      | Some inner \<Rightarrow>
          if leMessage e \<noteq> [] then leMessage e @ '': '' @ error_text inner else error_text inner)"

definition ErrMessageGPGVerificationFailed :: string where
  "ErrMessageGPGVerificationFailed = ''error while verifying GPG signature''"

definition ErrListAllFilesNotSupported :: ListEntriesError where
  "ErrListAllFilesNotSupported =
     \<lparr>leLocation = [], leMessage = ''ListAllFiles not supported by this source'', leInner = None\<rparr>"

definition ErrListEntriesNotSupported :: ListEntriesError where
  "ErrListEntriesNotSupported =
     \<lparr>leLocation = [], leMessage = ''ListEntries not supported by this source'', leInner = None\<rparr>"

end
