(* ===== verification/Matcher.thy ===== *)
theory Matcher
  imports Objects
begin

text \<open>
  \<^verbatim>\<open>pkg/objects/match.go\<close>: which files and directories a job includes. A regular expression of
  the configuration is a value of the library type \<^verbatim>\<open>regexpext.PlainRegexp\<close>: its text and its
  method \<^verbatim>\<open>MatchString\<close>.
\<close>

section \<open>Definitions\<close>

record PlainRegexp =
  rxText :: string
  rxMatchString :: "string \<Rightarrow> bool"

record Matcher =
  ExcludeRx :: "PlainRegexp option"
  IncludeRx :: "PlainRegexp option"
  ImmutableFileRx :: "PlainRegexp option"
  NotOlderThan :: "gotime option"
  SimplisticComparison :: "bool option"

datatype MatchError = MatchError (mePath: string) (meReason: string)

definition MatchError_Error :: "MatchError \<Rightarrow> string" where
  "MatchError_Error e = mePath e @ '' '' @ meReason e"

text \<open>The result is the error, if there is one.\<close>

definition Check :: "Matcher \<Rightarrow> string \<Rightarrow> gotime option \<Rightarrow> MatchError option" where
  "Check m path lastModified =
     (if clean path = ''/'' then None
      else if (case (lastModified, NotOlderThan m) of
                 (Some t, Some limit) \<Rightarrow> t < limit
               | _ \<Rightarrow> False)
      then Some (MatchError path ''is excluded because of age'')
      else
        let included =
              (case IncludeRx m of
                 Some rx \<Rightarrow>
                   if rxMatchString rx path then None
                   else Some (MatchError path (''is not included by `'' @ rxText rx @ ''`''))
               | None \<Rightarrow> None)
        in (case ExcludeRx m of
              Some rx \<Rightarrow>
                if rxMatchString rx path
                then Some (MatchError path (''is excluded by `'' @ rxText rx @ ''`''))
                else included
            | None \<Rightarrow> included))"

text \<open>The loop over the directories on the way.\<close>

fun checkSteps :: "Matcher \<Rightarrow> string list \<Rightarrow> MatchError option" where
  "checkSteps m [] = None"
| "checkSteps m (p # ps) =
     (case Check m p None of Some err \<Rightarrow> Some err | None \<Rightarrow> checkSteps m ps)"

definition CheckRecursive :: "Matcher \<Rightarrow> string \<Rightarrow> gotime option \<Rightarrow> MatchError option" where
  "CheckRecursive m path lastModified =
     (let steps = splitAfter (CHR ''/'') path
      in case checkSteps m (map (\<lambda>i. join [] (take i steps)) [1..<length steps]) of
           Some err \<Rightarrow> Some err
         | None \<Rightarrow> Check m path lastModified)"

definition CheckFile :: "Matcher \<Rightarrow> FileSpec \<Rightarrow> MatchError option" where
  "CheckFile m spec =
     (if IsDirectory spec then CheckRecursive m (Path spec @ ''/'') None
      else CheckRecursive m (Path spec) (LastModified spec))"

section \<open>The directories on the way to a path\<close>

definition dir_prefixes :: "string \<Rightarrow> string list" where
  "dir_prefixes path =
     (let steps = splitAfter (CHR ''/'') path
      in map (\<lambda>i. join [] (take i steps)) [1..<length steps])"

lemma join_Nil_concat [simp]: "join [] xs = concat xs"
  by (induction "[] :: string" xs rule: join.induct) auto

lemma dir_prefixes_Nil [simp]: "dir_prefixes [] = []"
  by (simp add: dir_prefixes_def)

lemma dir_prefixes_Cons [simp]:
  "dir_prefixes (x # xs) =
     (if x = CHR ''/'' then [x] # map ((#) x) (dir_prefixes xs) else map ((#) x) (dir_prefixes xs))"
proof -
  obtain y ys where s: "splitAfter (CHR ''/'') xs = y # ys" by (meson neq_Nil_conv splitAfter_nonempty)
  have "map (\<lambda>i. concat (take i ([x] # y # ys))) [1..<Suc (Suc (length ys))] =
    [x] # map (\<lambda>i. x # concat (take i (y # ys))) [1..<Suc (length ys)]"
  proof -
    have "[1..<Suc (Suc (length ys))] = 1 # map Suc [1..<Suc (length ys)]"
      by (simp add: map_Suc_upt upt_conv_Cons del: upt_Suc)
    then show ?thesis by (simp del: upt_Suc)
  qed
  moreover have "map (\<lambda>i. concat (take i ((x # y) # ys))) [1..<Suc (length ys)] =
    map (\<lambda>i. x # concat (take i (y # ys))) [1..<Suc (length ys)]"
    by (intro map_cong refl) (auto simp: take_Cons' simp del: upt_Suc)
  ultimately show ?thesis
    using s by (auto simp: dir_prefixes_def comp_def simp del: upt_Suc)
qed

lemma dir_prefixes_append: "dir_prefixes (a @ b) = dir_prefixes a @ map ((@) a) (dir_prefixes b)"
  by (induction a) (auto simp: comp_def)

lemma dir_prefixes_slash [simp]: "dir_prefixes (d @ ''/'') = dir_prefixes d @ [d @ ''/'']"
  by (simp add: dir_prefixes_append)

lemma set_dir_prefixes: "p \<in> set (dir_prefixes path) \<longleftrightarrow> (\<exists>d r. p = d @ ''/'' \<and> path = p @ r)"
proof (induction path arbitrary: p)
  case (Cons x xs)
  show ?case
  proof
    assume "p \<in> set (dir_prefixes (x # xs))"
    then consider "x = CHR ''/''" "p = [x]" | q where "q \<in> set (dir_prefixes xs)" "p = x # q"
      by (auto split: if_splits)
    then show "\<exists>d r. p = d @ ''/'' \<and> x # xs = p @ r"
    proof cases
      case 2
      with Cons.IH obtain d r where "q = d @ ''/''" "xs = q @ r" by blast
      with 2 show ?thesis by (intro exI[of _ "x # d"] exI[of _ r]) simp
    qed auto
  next
    assume "\<exists>d r. p = d @ ''/'' \<and> x # xs = p @ r"
    then obtain d r where d: "p = d @ ''/''" "x # xs = p @ r" by blast
    show "p \<in> set (dir_prefixes (x # xs))"
    proof (cases d)
      case Nil
      with d show ?thesis by simp
    next
      case (Cons y d')
      with d have "d' @ ''/'' \<in> set (dir_prefixes xs)" using Cons.IH by auto
      with d Cons show ?thesis by auto
    qed
  qed
qed auto

lemma CheckRecursive_eq:
  "CheckRecursive m path lm =
     (case checkSteps m (dir_prefixes path) of Some err \<Rightarrow> Some err | None \<Rightarrow> Check m path lm)"
  by (simp add: CheckRecursive_def dir_prefixes_def Let_def)

lemma checkSteps_append:
  "checkSteps m (ps @ qs) = (case checkSteps m ps of Some err \<Rightarrow> Some err | None \<Rightarrow> checkSteps m qs)"
  by (induction ps) (auto split: option.split)

lemma checkSteps_None_iff: "checkSteps m ps = None \<longleftrightarrow> (\<forall>p\<in>set ps. Check m p None = None)"
  by (induction ps) (auto split: option.split)

lemma CheckRecursive_dir: "CheckRecursive m (d @ ''/'') None = checkSteps m (dir_prefixes (d @ ''/''))"
  by (auto simp: CheckRecursive_eq checkSteps_append split: option.split)

lemma CheckRecursive_append:
  "CheckRecursive m ((d @ ''/'') @ r) lm =
     (case CheckRecursive m (d @ ''/'') None of
        Some err \<Rightarrow> Some err
      | None \<Rightarrow> (case checkSteps m (map ((@) (d @ ''/'')) (dir_prefixes r)) of
                  Some err \<Rightarrow> Some err
                | None \<Rightarrow> Check m ((d @ ''/'') @ r) lm))"
  unfolding CheckRecursive_dir unfolding CheckRecursive_eq dir_prefixes_append[of "d @ ''/''"] checkSteps_append
  by (auto split: option.split)

lemma Check_None_iff:
  "Check m p lm = None \<longleftrightarrow>
     clean p = ''/'' \<or>
     (\<forall>t limit. lm = Some t \<longrightarrow> NotOlderThan m = Some limit \<longrightarrow> limit \<le> t) \<and>
     (\<forall>rx. ExcludeRx m = Some rx \<longrightarrow> \<not> rxMatchString rx p) \<and>
     (\<forall>rx. IncludeRx m = Some rx \<longrightarrow> rxMatchString rx p)"
  by (auto simp: Check_def not_less split: option.split)

section \<open>Properties\<close>

text \<open>C19: what is included. CheckFile accepts a file exactly if each directory on the way (with its
  trailing slash) and the file itself are not matched by the exclude pattern and are matched by the
  include pattern, if there is one (the root "/" always passes), and the file is not older than the
  limit; an age is never tested for directories.\<close>

theorem CheckFile_accepts_iff:
  assumes "\<not> IsDirectory spec"
  shows "CheckFile m spec = None \<longleftrightarrow>
    (\<forall>p. (\<exists>d r. p = d @ ''/'' \<and> Path spec = p @ r) \<or> p = Path spec \<longrightarrow>
       clean p = ''/'' \<or>
       (\<forall>rx. ExcludeRx m = Some rx \<longrightarrow> \<not> rxMatchString rx p) \<and>
       (\<forall>rx. IncludeRx m = Some rx \<longrightarrow> rxMatchString rx p)) \<and>
    (clean (Path spec) = ''/'' \<or>
     (\<forall>t limit. LastModified spec = Some t \<longrightarrow> NotOlderThan m = Some limit \<longrightarrow> limit \<le> t))"
proof -
  have "CheckFile m spec = None \<longleftrightarrow>
      (\<forall>p\<in>set (dir_prefixes (Path spec)). Check m p None = None) \<and> Check m (Path spec) (LastModified spec) = None"
    using assms by (auto simp: CheckFile_def CheckRecursive_eq checkSteps_None_iff[symmetric] split: option.split)
  then show ?thesis unfolding set_dir_prefixes Ball_def Check_None_iff by auto
qed

text \<open>An excluded directory excludes all that is below it, with the error of the directory, whatever
  the files are called and however new they are.\<close>

theorem excluded_directory:
  assumes "CheckFile m dir = Some err" "IsDirectory dir"
    and "Path spec = Path dir @ ''/'' @ r"
  shows "CheckFile m spec = Some err"
proof -
  have "CheckRecursive m ((Path dir @ ''/'') @ s) lm = Some err" for s lm
    using assms(1,2) unfolding CheckRecursive_append by (simp add: CheckFile_def)
  with assms(3) show ?thesis by (simp add: CheckFile_def)
qed

text \<open>An exclude pattern without a regular expression engine: a path with the given part.\<close>

definition part_rx :: "string \<Rightarrow> PlainRegexp" where
  "part_rx s = \<lparr>rxText = s, rxMatchString = (\<lambda>p. contains p s)\<rparr>"

definition demo_matcher :: Matcher where
  "demo_matcher =
     \<lparr>ExcludeRx = Some (part_rx ''tmp/''), IncludeRx = None, ImmutableFileRx = None,
      NotOlderThan = Some 100, SimplisticComparison = None\<rparr>"

theorem CheckFile_accepts_iff_witness:
  "CheckFile demo_matcher ((fileSpec ''a/b'')\<lparr>LastModified := Some 100\<rparr>) = None \<and>
   \<not> rxMatchString (part_rx ''tmp/'') ''a/'' \<and>
   CheckFile demo_matcher ((fileSpec ''a/b'')\<lparr>LastModified := Some 99\<rparr>) \<noteq> None"
proof -
  have c: "clean ''a/b'' \<noteq> ''/''" "clean ''a/'' \<noteq> ''/''" by code_simp+
  have 1: "CheckFile demo_matcher ((fileSpec ''a/b'')\<lparr>LastModified := Some 100\<rparr>) = None"
    by code_simp
  have "\<not> rxMatchString (part_rx ''tmp/'') ''a/''"
  proof -
    have rx: "ExcludeRx demo_matcher = Some (part_rx ''tmp/'')" by (simp add: demo_matcher_def)
    let ?spec = "(fileSpec ''a/b'')\<lparr>LastModified := Some 100\<rparr>"
    have nd: "\<not> IsDirectory ?spec" and p: "Path ?spec = ''a/b''" by simp_all
    have "\<exists>d r. ''a/'' = d @ ''/'' \<and> Path ?spec = ''a/'' @ r"
      by (intro exI[of _ "''a''"] exI[of _ "''b''"]) simp
    with CheckFile_accepts_iff[OF nd, THEN iffD1, OF 1, THEN conjunct1, rule_format, of "''a/''"] c(2) rx
    show ?thesis by blast
  qed
  moreover have "CheckFile demo_matcher ((fileSpec ''a/b'')\<lparr>LastModified := Some 99\<rparr>) \<noteq> None"
    by code_simp
  ultimately show ?thesis using 1 by blast
qed

theorem excluded_directory_witness:
  "CheckFile demo_matcher ((fileSpec ''x/tmp/y/z'')\<lparr>LastModified := Some 200\<rparr>) =
     Some (MatchError ''x/tmp/'' ''is excluded by `tmp/`'')"
proof (rule excluded_directory)
  show "CheckFile demo_matcher ((fileSpec ''x/tmp'')\<lparr>IsDirectory := True\<rparr>) =
     Some (MatchError ''x/tmp/'' ''is excluded by `tmp/`'')"
    by code_simp
qed (simp_all add: fileSpec_def)

end
