(* ===== verification/Swift.thy ===== *)
theory Swift
  imports Matcher
begin

text \<open>
  \<^verbatim>\<open>pkg/objects/swift.go\<close>: a location in Swift, as the target of a job and as a source. The
  Swift client library and the OpenStack authentication are records of functions over the state
  \<open>'w\<close> of the outside world; \<open>'r\<close> is a handle of a body that is read, \<open>'lo\<close> a large object under
  construction. A pointer to an account or container that can be nil is an option.
\<close>

section \<open>The vocabulary of the Swift client\<close>

record account =
  acBaseURL :: string
  acName :: string

record container =
  cnAccount :: account
  cnName :: string

record object =
  obContainer :: container
  obName :: string

text \<open>The accessors of \<^verbatim>\<open>schwift.ObjectHeaders\<close> that the program uses.\<close>

definition metadata_get :: "headers \<Rightarrow> string \<Rightarrow> string" where
  "metadata_get h k = headers_get h (''X-Object-Meta-'' @ k)"

definition metadata_set :: "headers \<Rightarrow> string \<Rightarrow> string \<Rightarrow> headers" where
  "metadata_set h k v = headers_set h (''X-Object-Meta-'' @ k) v"

definition isLargeObject :: "headers \<Rightarrow> bool" where
  "isLargeObject h \<longleftrightarrow>
     headers_get h ''X-Object-Manifest'' \<noteq> [] \<or> headers_get h ''X-Static-Large-Object'' = ''True''"

definition expiresAt_exists :: "headers \<Rightarrow> bool" where
  "expiresAt_exists h \<longleftrightarrow> headers_get h ''X-Delete-At'' \<noteq> []"

definition expiresAt_set :: "headers \<Rightarrow> gotime \<Rightarrow> headers" where
  "expiresAt_set h t = headers_set h ''X-Delete-At'' (decimal (unat (word_of_int t :: u64) div 1000000000))"

definition sizeBytes_get :: "headers \<Rightarrow> u64" where
  "sizeBytes_get h =
     (case parseUint 64 (headers_get h ''Content-Length'') of Inl err \<Rightarrow> 0 | Inr n \<Rightarrow> of_nat n)"

record objectInfo =
  oiSubDirectory :: string
  oiObject :: object
  oiLastModified :: gotime
  oiSymlinkTarget :: "object option"

text \<open>
  The requests. \<open>swExpiresAt\<close> is \<^verbatim>\<open>ExpiresAt().Get()\<close>, which reads a floating point number of
  seconds; a listing gives the objects it delivered and the error that ended it, if any.
\<close>

record ('w, 'r, 'lo) swift =
  swSymlinkSupport :: "account \<Rightarrow> 'w \<Rightarrow> 'w \<times> (goerror + bool)"
  swSymlinkHeaders :: "object \<Rightarrow> 'w \<Rightarrow> 'w \<times> (goerror + headers \<times> object option)"
  swHeaders :: "object \<Rightarrow> 'w \<Rightarrow> 'w \<times> (goerror + headers)"
  swDownload :: "object \<Rightarrow> headers \<Rightarrow> 'w \<Rightarrow> 'w \<times> (goerror + 'r)"
  swUpload :: "object \<Rightarrow> 'r option \<Rightarrow> bool \<Rightarrow> headers \<Rightarrow> 'w \<Rightarrow> 'w \<times> goerror option"
  swSymlinkTo :: "object \<Rightarrow> object \<Rightarrow> bool \<Rightarrow> 'w \<Rightarrow> 'w \<times> goerror option"
  swAsNewLargeObject :: "object \<Rightarrow> container option \<Rightarrow> bool \<Rightarrow> 'w \<Rightarrow> 'w \<times> (goerror + 'lo)"
  swAppend :: "'lo \<Rightarrow> 'r option \<Rightarrow> u64 \<Rightarrow> headers \<Rightarrow> 'w \<Rightarrow> 'w \<times> goerror option"
  swWriteManifest :: "'lo \<Rightarrow> headers \<Rightarrow> 'w \<Rightarrow> 'w \<times> goerror option"
  swDelete :: "object \<Rightarrow> bool \<Rightarrow> 'w \<Rightarrow> 'w \<times> goerror option"
  swBulkDelete :: "account \<Rightarrow> object list \<Rightarrow> 'w \<Rightarrow> 'w \<times> int \<times> goerror option"
  swObjects :: "container \<Rightarrow> string \<Rightarrow> 'w \<Rightarrow> 'w \<times> objectInfo list \<times> goerror option"
  swEnsureExists :: "container \<Rightarrow> 'w \<Rightarrow> 'w \<times> goerror option"
  swExpiresAt :: "headers \<Rightarrow> gotime"
  swBytesReader :: "bytes \<Rightarrow> 'w \<Rightarrow> 'w \<times> 'r"
  swCloseBody :: "'r \<Rightarrow> 'w \<Rightarrow> 'w"

section \<open>Locations\<close>

record SwiftLocation =
  AuthURL :: string
  UserName :: string
  UserDomainName :: string
  ProjectName :: string
  ProjectDomainName :: string
  Password :: string
  ApplicationCredentialID :: string
  ApplicationCredentialName :: string
  ApplicationCredentialSecret :: string
  TLSClientCertificateFile :: string
  TLSClientKeyFile :: string
  RegionName :: string
  ServiceType :: string
  ContainerName :: string
  ObjectNamePrefix :: string
  ValidateIgnoreEmptyContainer :: bool
  Account :: "account option"
  Container :: "container option"
  FileExists :: "string set"

text \<open>Fields of a cache key are joined with NUL; in debug mode the name is one of them.\<close>

definition NUL :: char where "NUL = CHR 0x00"

definition key_fields :: "SwiftLocation \<Rightarrow> string list" where
  "key_fields s =
     [AuthURL s, UserName s, UserDomainName s, ProjectName s, ProjectDomainName s, Password s,
      ApplicationCredentialID s, ApplicationCredentialName s, ApplicationCredentialSecret s,
      RegionName s, ServiceType s]"

definition cacheKey :: "bool \<Rightarrow> SwiftLocation \<Rightarrow> string \<Rightarrow> string" where
  "cacheKey showDebug s name = join [NUL] (if showDebug then key_fields s @ [name] else key_fields s)"

definition missing :: "bool \<Rightarrow> string \<Rightarrow> string \<Rightarrow> goerror list" where
  "missing b name opt = (if b then [Err (''missing value for '' @ name @ ''.'' @ opt)] else [])"

text \<open>\<^verbatim>\<open>Validate\<close> returns the errors and normalizes the object name prefix.\<close>

definition SwiftLocation_Validate :: "SwiftLocation \<Rightarrow> string \<Rightarrow> SwiftLocation \<times> goerror list" where
  "SwiftLocation_Validate s name =
     (let result =
        missing (AuthURL s = []) name ''auth_url'' @
        (if TLSClientCertificateFile s \<noteq> [] \<or> TLSClientKeyFile s \<noteq> [] then
           missing (TLSClientCertificateFile s = []) name ''tls_client_certificate_file'' @
           missing (TLSClientKeyFile s = []) name ''tls_client_key_file''
         else []) @
        (if ApplicationCredentialID s \<noteq> [] \<or> ApplicationCredentialName s \<noteq> [] then
           (if ApplicationCredentialID s = [] then
              missing (UserName s = []) name ''user_name'' @
              missing (UserDomainName s = []) name ''user_domain_name''
            else []) @
           missing (ApplicationCredentialSecret s = []) name ''application_credential_secret''
         else
           missing (UserName s = []) name ''user_name'' @
           missing (UserDomainName s = []) name ''user_domain_name'' @
           missing (ProjectName s = []) name ''project_name'' @
           missing (ProjectDomainName s = []) name ''project_domain_name'' @
           missing (Password s = []) name ''password'') @
        missing (\<not> ValidateIgnoreEmptyContainer s \<and> ContainerName s = []) name ''container''
      in (if ObjectNamePrefix s \<noteq> [] \<and> \<not> hasSuffix (ObjectNamePrefix s) ''/''
          then s\<lparr>ObjectNamePrefix := ObjectNamePrefix s @ ''/''\<rparr> else s, result))"

section \<open>Connecting\<close>

record authOptions =
  aoIdentityEndpoint :: string
  aoUsername :: string
  aoDomainName :: string
  aoPassword :: string
  aoApplicationCredentialID :: string
  aoApplicationCredentialName :: string
  aoApplicationCredentialSecret :: string
  aoScope :: "string \<times> string"
  aoAllowReauth :: bool

text \<open>
  \<open>'p\<close> is a provider client of gophercloud and \<open>'c\<close> a service client. The debug logger of the
  transport is left out, since it changes no request.
\<close>

record ('w, 'p, 'c) openstack =
  osNewClient :: "string \<Rightarrow> goerror + 'p"
  osWithKeyPair :: "string \<Rightarrow> string \<Rightarrow> 'p \<Rightarrow> goerror + 'p"
  osAuthenticate :: "'p \<Rightarrow> authOptions \<Rightarrow> 'w \<Rightarrow> 'w \<times> (goerror + 'p)"
  osObjectStorage :: "'p \<Rightarrow> string \<Rightarrow> string \<Rightarrow> goerror + 'c"
  osWrap :: "'c \<Rightarrow> 'w \<Rightarrow> 'w \<times> (goerror + account)"

type_synonym accountCache = "string \<rightharpoonup> account"

definition authOptions_of :: "SwiftLocation \<Rightarrow> authOptions" where
  "authOptions_of s =
     \<lparr>aoIdentityEndpoint = AuthURL s, aoUsername = UserName s, aoDomainName = UserDomainName s,
      aoPassword = Password s, aoApplicationCredentialID = ApplicationCredentialID s,
      aoApplicationCredentialName = ApplicationCredentialName s,
      aoApplicationCredentialSecret = ApplicationCredentialSecret s,
      aoScope = (ProjectName s, ProjectDomainName s), aoAllowReauth = True\<rparr>"

definition authError :: "SwiftLocation \<Rightarrow> goerror \<Rightarrow> goerror" where
  "authError s err =
     (if ApplicationCredentialSecret s \<noteq> []
      then Wrap (''cannot authenticate to '' @ AuthURL s @ '' using application credential: '') err
      else Wrap (''cannot authenticate to '' @ AuthURL s @ '' in '' @ ProjectName s @ ''@'' @
             ProjectDomainName s @ '' as '' @ UserName s @ ''@'' @ UserDomainName s @ '': '') err)"

text \<open>The part of \<^verbatim>\<open>Connect\<close> that runs when the account is not in the cache.\<close>

definition newAccount ::
  "('w, 'p, 'c) openstack \<Rightarrow> SwiftLocation \<Rightarrow> 'w \<Rightarrow> 'w \<times> (goerror + account)" where
  "newAccount os s w =
     (case osNewClient os (aoIdentityEndpoint (authOptions_of s)) of
        Inl err \<Rightarrow> (w, Inl (Wrap ''cannot create OpenStack client: '' err))
      | Inr provider \<Rightarrow>
          (case (if TLSClientCertificateFile s \<noteq> [] \<and> TLSClientKeyFile s \<noteq> []
                 then osWithKeyPair os (TLSClientCertificateFile s) (TLSClientKeyFile s) provider
                 else Inr provider) of
             Inl err \<Rightarrow> (w, Inl (Wrap ''failed to load x509 key pair: '' err))
           | Inr provider' \<Rightarrow>
               (case osAuthenticate os provider' (authOptions_of s) w of
                  (w', Inl err) \<Rightarrow> (w', Inl (authError s err))
                | (w', Inr authed) \<Rightarrow>
                    let serviceType = (if ServiceType s = [] then ''object-store'' else ServiceType s)
                    in (case osObjectStorage os authed serviceType (RegionName s) of
                          Inl err \<Rightarrow> (w', Inl (Wrap ''cannot create Swift client: '' err))
                        | Inr c \<Rightarrow>
                            (case osWrap os c w' of
                               (w'', Inl err) \<Rightarrow> (w'', Inl (Wrap ''cannot wrap Swift client: '' err))
                             | (w'', Inr a) \<Rightarrow> (w'', Inr a))))))"

text \<open>The part of \<^verbatim>\<open>Connect\<close> after the account is known.\<close>

definition ensureContainer ::
  "('w, 'r, 'lo) swift \<Rightarrow> SwiftLocation \<Rightarrow> account \<Rightarrow> 'w \<Rightarrow> 'w \<times> SwiftLocation \<times> goerror option" where
  "ensureContainer sw s a w =
     (if ContainerName s = [] then (w, s\<lparr>Account := Some a, Container := None\<rparr>, None)
      else
        let c = \<lparr>cnAccount = a, cnName = ContainerName s\<rparr>
        in (case swEnsureExists sw c w of
              (w', err) \<Rightarrow> (w', s\<lparr>Account := Some a, Container := Some c\<rparr>, err)))"

definition SwiftLocation_Connect ::
  "('w, 'p, 'c) openstack \<Rightarrow> ('w, 'r, 'lo) swift \<Rightarrow> bool \<Rightarrow> accountCache \<Rightarrow> SwiftLocation \<Rightarrow> string \<Rightarrow> 'w \<Rightarrow>
    'w \<times> accountCache \<times> SwiftLocation \<times> goerror option" where
  "SwiftLocation_Connect os sw showDebug cache s name w =
     (if Account s \<noteq> None then (w, cache, s, None)
      else
        let key = cacheKey showDebug s name
        in (case cache key of
              Some a \<Rightarrow> (case ensureContainer sw s a w of (w', s', err) \<Rightarrow> (w', cache, s', err))
            | None \<Rightarrow>
                (case newAccount os s w of
                   (w', Inl err) \<Rightarrow> (w', cache, s, Some err)
                 | (w', Inr a) \<Rightarrow>
                     (case ensureContainer sw s a w' of
                        (w'', s', err) \<Rightarrow> (w'', cache(key \<mapsto> a), s', err)))))"

section \<open>Objects\<close>

definition objectNameAt :: "SwiftLocation \<Rightarrow> string \<Rightarrow> string" where
  "objectNameAt s path = ObjectNamePrefix s @ trimPrefix path ''/''"

text \<open>An object of a nil container is a panic once it is used.\<close>

definition ObjectAtPath :: "SwiftLocation \<Rightarrow> string \<Rightarrow> object" where
  "ObjectAtPath s path = \<lparr>obContainer = the (Container s), obName = objectNameAt s path\<rparr>"

definition getFileSpec :: "SwiftLocation \<Rightarrow> objectInfo \<Rightarrow> FileSpec" where
  "getFileSpec s info =
     (if oiSubDirectory info \<noteq> [] then
        (fileSpec (trimPrefix (oiSubDirectory info) (ObjectNamePrefix s)))\<lparr>IsDirectory := True\<rparr>
      else
        let f = (fileSpec (trimPrefix (obName (oiObject info)) (ObjectNamePrefix s)))
                  \<lparr>LastModified := Some (oiLastModified info)\<rparr>
        in (case oiSymlinkTarget info of
              None \<Rightarrow> f
            | Some target \<Rightarrow>
                if Some (obContainer target) = Container s then
                  (case cutPrefix (obName target) (ObjectNamePrefix s) of
                     None \<Rightarrow> f
                   | Some symlinkTargetPath \<Rightarrow> f\<lparr>SymlinkTargetPath := symlinkTargetPath\<rparr>)
                else f))"

definition listPrefix :: "SwiftLocation \<Rightarrow> string" where
  "listPrefix s =
     (if ObjectNamePrefix s \<noteq> [] \<and> \<not> hasSuffix (ObjectNamePrefix s) ''/''
      then ObjectNamePrefix s @ ''/'' else ObjectNamePrefix s)"

definition SwiftLocation_ListAllFiles ::
  "('w, 'r, 'lo) swift \<Rightarrow> SwiftLocation \<Rightarrow> 'w \<Rightarrow> 'w \<times> FileSpec list \<times> ListEntriesError option" where
  "SwiftLocation_ListAllFiles sw s w =
     (let objectPath = listPrefix s
      in case swObjects sw (the (Container s)) objectPath w of
           (w', infos, err) \<Rightarrow>
             (w', map (getFileSpec s) infos,
              map_option (\<lambda>e. \<lparr>leLocation = ContainerName s @ ''/'' @ objectPath,
                               leMessage = ''GET failed'', leInner = Some e\<rparr>) err))"

definition SwiftLocation_ListEntries :: "SwiftLocation \<Rightarrow> string \<Rightarrow> ListEntriesError + FileSpec list" where
  "SwiftLocation_ListEntries s directoryPath = Inl ErrListEntriesNotSupported"

text \<open>The body and the state of a file; with \<^verbatim>\<open>304 Not Modified\<close> there is no body.\<close>

definition skipState :: FileState where
  "skipState =
     \<lparr>fsEtag = [], fsLastModified = [], fsSizeBytes = None, fsExpiryTime = None, fsSkipTransfer = True,
      fsContentType = []\<rparr>"

definition SwiftLocation_GetFile ::
  "('w, 'r, 'lo) swift \<Rightarrow> SwiftLocation \<Rightarrow> string \<Rightarrow> headers \<Rightarrow> 'w \<Rightarrow>
    'w \<times> (goerror + 'r option \<times> FileState)" where
  "SwiftLocation_GetFile sw s path requestHeaders w =
     (case swDownload sw (ObjectAtPath s path) requestHeaders w of
        (w', Inl err) \<Rightarrow>
          (w', if schwift_is err StatusNotModified then Inr (None, skipState) else Inl err)
      | (w', Inr body) \<Rightarrow>
          (case swHeaders sw (ObjectAtPath s path) w' of
             (w'', Inl err) \<Rightarrow> (swCloseBody sw body w'', Inl err)
           | (w'', Inr hdr) \<Rightarrow>
               (w'', Inr (Some body,
                  \<lparr>fsEtag = headers_get hdr ''Etag'',
                   fsLastModified = headers_get hdr ''Last-Modified'',
                   fsSizeBytes = Some (sizeBytes_get hdr),
                   fsExpiryTime = (if expiresAt_exists hdr then Some (swExpiresAt sw hdr) else None),
                   fsSkipTransfer = False,
                   fsContentType = headers_get hdr ''Content-Type''\<rparr>))))"

definition DiscoverExistingFiles ::
  "('w, 'r, 'lo) swift \<Rightarrow> SwiftLocation \<Rightarrow> 'w \<Rightarrow> 'w \<times> SwiftLocation \<times> goerror option" where
  "DiscoverExistingFiles sw s w =
     (let prefix = listPrefix s
      in case Container s of
           None \<Rightarrow>
             (w, s, Some (Err (''could not list objects in Swift at '' @ ContainerName s @ ''/'' @ prefix @
                '': not connected to Swift'')))
         | Some c \<Rightarrow>
             (case swObjects sw c prefix w of
                (w', infos, err) \<Rightarrow>
                  (w', s\<lparr>FileExists := set (map (obName \<circ> oiObject) infos)\<rparr>,
                   map_option (Wrap (''could not list objects in Swift at '' @ ContainerName s @ ''/'' @
                     prefix @ '': '')) err)))"

end
