(* ===== verification/SwiftStore.thy ===== *)
theory SwiftStore
  imports Swift
begin

text \<open>
  A Swift server in memory, on which the properties are tried out: objects with their headers,
  contents or symlink target, and large objects under construction. A body is its bytes, the handle
  of a large object is the object.
\<close>

record stored =
  stHeaders :: headers
  stBody :: bytes
  stLink :: "object option"

record store =
  stObjects :: "(object \<times> stored) list"
  stPending :: "object \<Rightarrow> bytes"

definition store_put :: "object \<Rightarrow> stored \<Rightarrow> store \<Rightarrow> store" where
  "store_put obj st w = w\<lparr>stObjects := (obj, st) # filter (\<lambda>p. fst p \<noteq> obj) (stObjects w)\<rparr>"

definition store_remove :: "object list \<Rightarrow> store \<Rightarrow> store" where
  "store_remove objs w = w\<lparr>stObjects := filter (\<lambda>p. fst p \<notin> set objs) (stObjects w)\<rparr>"

definition not_found :: goerror where
  "not_found = StatusErr 404 ''expected 200 response, got 404 instead''"

definition store_head :: "object \<Rightarrow> store \<Rightarrow> store \<times> (goerror + headers \<times> object option)" where
  "store_head obj w =
     (w, case map_of (stObjects w) obj of
           None \<Rightarrow> Inl not_found
         | Some st \<Rightarrow> Inr (stHeaders st, stLink st))"

definition store_list :: "container \<Rightarrow> string \<Rightarrow> store \<Rightarrow> objectInfo list" where
  "store_list c prefix w =
     map (\<lambda>(obj, st). \<lparr>oiSubDirectory = [], oiObject = obj, oiLastModified = 0, oiSymlinkTarget = stLink st\<rparr>)
       (filter (\<lambda>(obj, st). obContainer obj = c \<and> hasPrefix (obName obj) prefix) (stObjects w))"

definition mem_swift :: "(store, bytes, object) swift" where
  "mem_swift =
     \<lparr>swSymlinkSupport = (\<lambda>a w. (w, Inr True)),
      swSymlinkHeaders = store_head,
      swHeaders = (\<lambda>obj w. (w, map_sum id fst (snd (store_head obj w)))),
      swDownload = (\<lambda>obj h w. (w, case map_of (stObjects w) obj of
          None \<Rightarrow> Inl not_found | Some st \<Rightarrow> Inr (stBody st))),
      swUpload = (\<lambda>obj r del h w.
          (store_put obj \<lparr>stHeaders = h, stBody = (case r of None \<Rightarrow> [] | Some b \<Rightarrow> b), stLink = None\<rparr> w, None)),
      swSymlinkTo = (\<lambda>obj target del w.
          (store_put obj \<lparr>stHeaders = Map.empty, stBody = [], stLink = Some target\<rparr> w, None)),
      swAsNewLargeObject = (\<lambda>obj c del w. (w\<lparr>stPending := (stPending w)(obj := [])\<rparr>, Inr obj)),
      swAppend = (\<lambda>lo r seg h w. (w\<lparr>stPending := (stPending w)(lo := stPending w lo @ (case r of None \<Rightarrow> [] | Some b \<Rightarrow> b))\<rparr>, None)),
      swWriteManifest = (\<lambda>lo h w. (store_put lo
          \<lparr>stHeaders = headers_set h ''X-Static-Large-Object'' ''True'', stBody = stPending w lo, stLink = None\<rparr> w, None)),
      swDelete = (\<lambda>obj del w. (store_remove [obj] w,
          if obj \<in> fst ` set (stObjects w) then None else Some not_found)),
      swBulkDelete = (\<lambda>a objs w. (store_remove objs w, int (length objs), None)),
      swObjects = (\<lambda>c prefix w. (w, store_list c prefix w, None)),
      swEnsureExists = (\<lambda>c w. (w, None)),
      swExpiresAt = (\<lambda>h. int (digits_val (headers_get h ''X-Delete-At'')) * 1000000000),
      swBytesReader = (\<lambda>b w. (w, b)),
      swCloseBody = (\<lambda>b w. w)\<rparr>"

lemma mem_swift_sel [simp]:
  "swSymlinkSupport mem_swift a w = (w, Inr True)"
  "swSymlinkHeaders mem_swift = store_head"
  "swUpload mem_swift obj r del h w =
     (store_put obj \<lparr>stHeaders = h, stBody = (case r of None \<Rightarrow> [] | Some b \<Rightarrow> b), stLink = None\<rparr> w, None)"
  "swBytesReader mem_swift b w = (w, b)"
  "swCloseBody mem_swift b w = w"
  "swEnsureExists mem_swift c w = (w, None)"
  "swObjects mem_swift c prefix w = (w, store_list c prefix w, None)"
  "swBulkDelete mem_swift a objs w = (store_remove objs w, int (length objs), None)"
  by (simp_all add: mem_swift_def)

lemma store_head_put [simp]:
  "store_head obj (store_put obj st w) = (store_put obj st w, Inr (stHeaders st, stLink st))"
  by (simp add: store_head_def store_put_def)

definition demo_account :: account where
  "demo_account = \<lparr>acBaseURL = ''http://s/'', acName = ''a''\<rparr>"

definition demo_container :: container where
  "demo_container = \<lparr>cnAccount = demo_account, cnName = ''c''\<rparr>"

definition demo_location :: SwiftLocation where
  "demo_location =
     \<lparr>AuthURL = ''http://k/v3'', UserName = ''u'', UserDomainName = ''d'', ProjectName = ''p'',
      ProjectDomainName = ''d'', Password = ''s'', ApplicationCredentialID = [], ApplicationCredentialName = [],
      ApplicationCredentialSecret = [], TLSClientCertificateFile = [], TLSClientKeyFile = [], RegionName = [],
      ServiceType = [], ContainerName = ''c'', ObjectNamePrefix = ''x/'', ValidateIgnoreEmptyContainer = False,
      Account = None, Container = Some demo_container, FileExists = {}\<rparr>"

definition empty_store :: store where
  "empty_store = \<lparr>stObjects = [], stPending = (\<lambda>obj. [])\<rparr>"

definition demo_openstack :: "(store, unit, unit) openstack" where
  "demo_openstack =
     \<lparr>osNewClient = (\<lambda>u. Inr ()), osWithKeyPair = (\<lambda>c k p. Inr p), osAuthenticate = (\<lambda>p ao w. (w, Inr p)),
      osObjectStorage = (\<lambda>p t r. Inr ()), osWrap = (\<lambda>c w. (w, Inr demo_account))\<rparr>"

end
