(* ===== verification/SwiftClaims.thy ===== *)
theory SwiftClaims
  imports SwiftStore
begin

text \<open>
  The properties of Swift locations: which ones are valid, which connections share an account, and
  how paths of a source and objects of a target correspond.
\<close>

section \<open>Validation\<close>

lemma missing_Nil_iff [simp]: "missing b name opt = [] \<longleftrightarrow> \<not> b"
  by (simp add: missing_def)

definition valid_location :: "SwiftLocation \<Rightarrow> bool" where
  "valid_location s \<longleftrightarrow>
      AuthURL s \<noteq> [] \<and>
      (TLSClientCertificateFile s = [] \<longleftrightarrow> TLSClientKeyFile s = []) \<and>
      (ValidateIgnoreEmptyContainer s \<or> ContainerName s \<noteq> []) \<and>
      (if ApplicationCredentialID s \<noteq> [] then ApplicationCredentialSecret s \<noteq> []
       else if ApplicationCredentialName s \<noteq> []
       then UserName s \<noteq> [] \<and> UserDomainName s \<noteq> [] \<and> ApplicationCredentialSecret s \<noteq> []
       else UserName s \<noteq> [] \<and> UserDomainName s \<noteq> [] \<and> ProjectName s \<noteq> [] \<and>
         ProjectDomainName s \<noteq> [] \<and> Password s \<noteq> [])"

lemma Validate_accepts: "snd (SwiftLocation_Validate s name) = [] \<longleftrightarrow> valid_location s"
  by (auto simp: SwiftLocation_Validate_def valid_location_def Let_def)

lemma Validate_normalizes:
  "\<exists>prefix. fst (SwiftLocation_Validate s name) = s\<lparr>ObjectNamePrefix := prefix\<rparr> \<and>
     (prefix = [] \<or> hasSuffix prefix ''/'') \<and> trimSuffix prefix ''/'' = trimSuffix (ObjectNamePrefix s) ''/''"
proof (cases "ObjectNamePrefix s \<noteq> [] \<and> \<not> hasSuffix (ObjectNamePrefix s) ''/''")
  case True
  then show ?thesis
    by (intro exI[of _ "ObjectNamePrefix s @ ''/''"]) (simp add: SwiftLocation_Validate_def Let_def trimSuffix_def)
next
  case False
  then show ?thesis
    by (intro exI[of _ "ObjectNamePrefix s"]) (auto simp: SwiftLocation_Validate_def Let_def)
qed

text \<open>Validate reports no error exactly for a location with an auth URL, a TLS certificate and key
  both or neither, a container (unless that is optional), and one complete set of credentials: an
  application credential with a secret, identified by its ID or by its name together with the user and
  the user's domain; or a user and project with their domains and a password. In any case the object
  name prefix is empty or ends with a slash afterwards, and nothing else is changed.\<close>

theorem Validate_iff:
  "(snd (SwiftLocation_Validate s name) = [] \<longleftrightarrow> valid_location s) \<and>
   (\<exists>prefix. fst (SwiftLocation_Validate s name) = s\<lparr>ObjectNamePrefix := prefix\<rparr> \<and>
      (prefix = [] \<or> hasSuffix prefix ''/'') \<and> trimSuffix prefix ''/'' = trimSuffix (ObjectNamePrefix s) ''/'')"
  using Validate_accepts Validate_normalizes by blast

section \<open>Connections\<close>

text \<open>The cache of connections never mixes up accounts. For locations whose options contain no NUL,
  the keys are equal exactly if all eleven options that make up the connection agree (and, in debug
  mode, the names), so that a cached account is only ever used for the same credentials.\<close>

theorem cacheKey_inj:
  assumes "\<forall>f\<in>set (key_fields s) \<union> set (key_fields t) \<union> {n, m}. NUL \<notin> set f"
  shows "cacheKey dbg s n = cacheKey dbg t m \<longleftrightarrow> key_fields s = key_fields t \<and> (dbg \<longrightarrow> n = m)"
proof -
  let ?v = "\<lambda>s n. if dbg then key_fields s @ [n] else key_fields s"
  have "length (?v s n) = length (?v t m)" by (simp add: key_fields_def)
  moreover have "\<forall>x\<in>set (?v s n). NUL \<notin> set x" "\<forall>x\<in>set (?v t m). NUL \<notin> set x" using assms by auto
  ultimately have "cacheKey dbg s n = cacheKey dbg t m \<Longrightarrow> ?v s n = ?v t m"
    unfolding cacheKey_def by (rule join_inj)
  then show ?thesis by (auto simp: cacheKey_def split: if_splits)
qed

theorem cacheKey_inj_witness:
  "cacheKey False demo_location [] \<noteq> cacheKey False (demo_location\<lparr>UserName := ''du'', AuthURL := ''http://k/v3''\<rparr>) []"
  using cacheKey_inj[of demo_location "demo_location\<lparr>UserName := ''du'', AuthURL := ''http://k/v3''\<rparr>" "[]" "[]" False]
  by (simp add: demo_location_def key_fields_def NUL_def)

text \<open>Connecting once per account. After a connection was established, connecting any other location
  with the same key gives the same account without any authentication: the only request is the one
  that makes sure that the container exists.\<close>

theorem Connect_cached:
  assumes "SwiftLocation_Connect os sw dbg cache s name w = (w1, cache1, s1, None)" "Account s = None"
    and "Account t = None" "cacheKey dbg t name' = cacheKey dbg s name"
  shows "\<exists>a. Account s1 = Some a \<and>
    SwiftLocation_Connect os sw dbg cache1 t name' w2 =
      (case ensureContainer sw t a w2 of (w3, t', err) \<Rightarrow> (w3, cache1, t', err)) \<and>
    (\<forall>k b. cache k = Some b \<longrightarrow> cache1 k = Some b)"
proof -
  have ens: "Account s' = Some a" if "ensureContainer sw s a w0 = (w', s', e)" for a w0 w' s' e
    using that by (auto simp: ensureContainer_def Let_def split: if_splits prod.splits)
  obtain a where a: "cache1 (cacheKey dbg s name) = Some a" "Account s1 = Some a"
    and c: "\<forall>k b. cache k = Some b \<longrightarrow> cache1 k = Some b"
    using assms(1,2)
    by (auto simp: SwiftLocation_Connect_def Let_def split: option.splits prod.splits sum.splits dest: ens)
  with assms(3,4) show ?thesis
    by (intro exI[of _ a]) (auto simp: SwiftLocation_Connect_def split: prod.split)
qed

theorem Connect_cached_witness:
  "\<exists>cache1 s1. SwiftLocation_Connect demo_openstack mem_swift False Map.empty demo_location ''a'' empty_store =
     (empty_store, cache1, s1, None) \<and> Account s1 = Some demo_account \<and>
     SwiftLocation_Connect demo_openstack mem_swift False cache1 (demo_location\<lparr>ContainerName := ''e''\<rparr>) ''b'' empty_store =
     (empty_store, cache1, demo_location\<lparr>ContainerName := ''e'', Account := Some demo_account,
        Container := Some \<lparr>cnAccount = demo_account, cnName = ''e''\<rparr>\<rparr>, None)"
proof -
  let ?key = "cacheKey False demo_location ''a''"
  let ?s1 = "demo_location\<lparr>Account := Some demo_account, Container := Some demo_container\<rparr>"
  have 1: "SwiftLocation_Connect demo_openstack mem_swift False Map.empty demo_location ''a'' empty_store =
     (empty_store, [?key \<mapsto> demo_account], ?s1, None)"
    by (simp add: SwiftLocation_Connect_def newAccount_def demo_openstack_def ensureContainer_def Let_def
        demo_location_def demo_container_def)
  have 2: "cacheKey False (demo_location\<lparr>ContainerName := ''e''\<rparr>) ''b'' = ?key"
    by (simp add: cacheKey_def key_fields_def)
  have "SwiftLocation_Connect demo_openstack mem_swift False [?key \<mapsto> demo_account]
      (demo_location\<lparr>ContainerName := ''e''\<rparr>) ''b'' empty_store =
     (empty_store, [?key \<mapsto> demo_account], demo_location\<lparr>ContainerName := ''e'', Account := Some demo_account,
        Container := Some \<lparr>cnAccount = demo_account, cnName = ''e''\<rparr>\<rparr>, None)"
    using Connect_cached[OF 1 _ _ 2, of empty_store]
    by (simp add: ensureContainer_def Let_def demo_location_def)
  with 1 show ?thesis by (intro exI[of _ "[?key \<mapsto> demo_account]"] exI[of _ ?s1]) simp
qed

section \<open>Paths and objects\<close>

text \<open>A file that is written to a location is listed under its own path. For a path without leading
  slash, the listing entry of the object at the path gives back the path; a leading slash changes
  nothing; and different paths are different objects.\<close>

theorem ObjectAtPath_roundtrip:
  assumes "\<not> hasPrefix p ''/''" "\<not> hasPrefix q ''/''"
  shows "Path (getFileSpec s \<lparr>oiSubDirectory = [], oiObject = ObjectAtPath s p, oiLastModified = t,
           oiSymlinkTarget = l\<rparr>) = p \<and>
    ObjectAtPath s (''/'' @ p) = ObjectAtPath s p \<and>
    (ObjectAtPath s p = ObjectAtPath s q \<longleftrightarrow> p = q)"
  using assms
  by (auto simp: getFileSpec_def ObjectAtPath_def objectNameAt_def trimPrefix_def hasPrefix_def Let_def
      split: option.split)

theorem ObjectAtPath_roundtrip_witness:
  "Path (getFileSpec demo_location \<lparr>oiSubDirectory = [], oiObject = ObjectAtPath demo_location ''a/b'',
     oiLastModified = 7, oiSymlinkTarget = None\<rparr>) = ''a/b'' \<and>
   obName (ObjectAtPath demo_location ''/a/b'') = ''x/a/b''"
  using ObjectAtPath_roundtrip[of "''a/b''" "''c''" demo_location 7 None]
  by (simp add: hasPrefix_def ObjectAtPath_def objectNameAt_def demo_location_def)

end
