(* ===== verification/File.thy ===== *)
theory File
  imports Swift
begin

text \<open>
  \<^verbatim>\<open>pkg/objects/file.go\<close>: the transfer of one file, and the parts of \<^verbatim>\<open>Job\<close> (\<^verbatim>\<open>config.go\<close>) that it
  needs. A source is the record of its three operations. \<^verbatim>\<open>http.ParseTime\<close> is the argument
  \<open>parseTime\<close>. The end of the process by \<^verbatim>\<open>logg.Fatal\<close> is a \<open>Panic\<close>, as is a nil dereference.
\<close>

section \<open>Jobs\<close>

record ('w, 'r) Source =
  srcListAllFiles :: "'w \<Rightarrow> 'w \<times> FileSpec list \<times> ListEntriesError option"
  srcListEntries :: "string \<Rightarrow> 'w \<Rightarrow> 'w \<times> (ListEntriesError + FileSpec list)"
  srcGetFile :: "string \<Rightarrow> headers \<Rightarrow> 'w \<Rightarrow> 'w \<times> (goerror + 'r option \<times> FileState)"

record SegmentingConfiguration =
  MinObjectSize :: u64
  SegmentSize :: u64
  sgContainerName :: string
  sgContainer :: "container option"

record ExpirationConfiguration =
  EnabledIn :: "bool option"
  Enabled :: bool
  DelaySeconds :: u32

type_synonym CleanupStrategy = string

definition KeepUnknownFiles :: CleanupStrategy where "KeepUnknownFiles = ''''"
definition DeleteUnknownFiles :: CleanupStrategy where "DeleteUnknownFiles = ''delete''"
definition ReportUnknownFiles :: CleanupStrategy where "ReportUnknownFiles = ''report''"

text \<open>
  \<^verbatim>\<open>IsScrapingIncomplete\<close>, the one field that changes after the start, is state of the actors.
\<close>

record ('w, 'r) Job =
  jbSource :: "('w, 'r) Source"
  jbTarget :: SwiftLocation
  jbMatcher :: Matcher
  jbSegmenting :: "SegmentingConfiguration option"
  jbExpiration :: ExpirationConfiguration
  jbCleanup :: CleanupStrategy

definition TargetObject :: "('w, 'r) Job \<Rightarrow> FileSpec \<Rightarrow> object" where
  "TargetObject job spec = ObjectAtPath (jbTarget job) (Path spec)"

datatype TransferResult = TransferSuccess | TransferSkipped | TransferFailed

section \<open>Uploads\<close>

definition StatusSwiftRateLimit :: nat where "StatusSwiftRateLimit = 498"

text \<open>The error of the DELETE is only logged.\<close>

definition cleanupFailedUpload :: "('w, 'r, 'lo) swift \<Rightarrow> object \<Rightarrow> 'w \<Rightarrow> 'w" where
  "cleanupFailedUpload sw obj w = fst (swDelete sw obj True w)"

definition uploadSymlink ::
  "('w, 'r, 'lo) swift \<Rightarrow> ('w, 'r) Job \<Rightarrow> FileSpec \<Rightarrow> object option \<Rightarrow> bool \<Rightarrow> 'w \<Rightarrow> 'w \<times> TransferResult" where
  "uploadSymlink sw job spec previousTarget cleanupOldSegments w =
     (let obj = TargetObject job spec;
          newTarget = ObjectAtPath (jbTarget job) (SymlinkTargetPath spec)
      in if previousTarget = Some newTarget then (w, TransferSkipped)
         else
           (case swSymlinkTo sw obj newTarget cleanupOldSegments w of
              (w', None) \<Rightarrow> (w', TransferSuccess)
            | (w', Some err) \<Rightarrow> (cleanupFailedUpload sw obj w', TransferFailed)))"

definition uploadNormalObject ::
  "('w, 'r, 'lo) swift \<Rightarrow> ('w, 'r) Job \<Rightarrow> FileSpec \<Rightarrow> 'r option \<Rightarrow> headers \<Rightarrow> bool \<Rightarrow> 'w \<Rightarrow> 'w \<times> bool" where
  "uploadNormalObject sw job spec body hdr cleanupOldSegments w =
     (let obj = TargetObject job spec
      in case swUpload sw obj body cleanupOldSegments hdr w of
           (w', None) \<Rightarrow> (w', True)
         | (w', Some err) \<Rightarrow>
             if schwift_is err StatusSwiftRateLimit then (w', False)
             else (cleanupFailedUpload sw obj w', False))"

text \<open>Segments expire with their object. The chain of calls ends with the first error.\<close>

definition xDeleteAtHeader :: "('w, 'r, 'lo) swift \<Rightarrow> headers \<Rightarrow> headers" where
  "xDeleteAtHeader sw hdr =
     (if expiresAt_exists hdr then expiresAt_set Map.empty (swExpiresAt sw hdr) else Map.empty)"

definition writeLargeObject ::
  "('w, 'r, 'lo) swift \<Rightarrow> SegmentingConfiguration \<Rightarrow> object \<Rightarrow> 'r option \<Rightarrow> headers \<Rightarrow> bool \<Rightarrow> 'w \<Rightarrow>
    'w \<times> goerror option" where
  "writeLargeObject sw sg obj body hdr cleanupOldSegments w =
     (case swAsNewLargeObject sw obj (sgContainer sg) cleanupOldSegments w of
        (w', Inl err) \<Rightarrow> (w', Some err)
      | (w', Inr lo) \<Rightarrow>
          (case swAppend sw lo body (SegmentSize sg) (xDeleteAtHeader sw hdr) w' of
             (w'', Some err) \<Rightarrow> (w'', Some err)
           | (w'', None) \<Rightarrow> swWriteManifest sw lo hdr w''))"

definition uploadLargeObject ::
  "('w, 'r, 'lo) swift \<Rightarrow> ('w, 'r) Job \<Rightarrow> SegmentingConfiguration \<Rightarrow> FileSpec \<Rightarrow> 'r option \<Rightarrow> headers \<Rightarrow> bool \<Rightarrow>
    'w \<Rightarrow> 'w \<times> bool" where
  "uploadLargeObject sw job sg spec body hdr cleanupOldSegments w =
     (let obj = TargetObject job spec
      in case writeLargeObject sw sg obj body hdr cleanupOldSegments w of
           (w', None) \<Rightarrow> (w', True)
         | (w', Some err) \<Rightarrow> (cleanupFailedUpload sw obj w', False))"

section \<open>Contents that were read while listing\<close>

definition toTransferFormat ::
  "(string \<Rightarrow> goerror + gotime) \<Rightarrow> FileSpec \<Rightarrow> bytes \<Rightarrow> headers \<Rightarrow> goerror + bytes \<times> FileState" where
  "toTransferFormat parseTime s contents requestHeaders =
     (let targetEtag = headers_get requestHeaders ''If-None-Match'';
          targetLastModified = headers_get requestHeaders ''If-Modified-Since'';
          sourceState = \<lparr>fsEtag = header_get (Headers s) ''Etag'',
            fsLastModified = header_get (Headers s) ''Last-Modified'',
            fsSizeBytes = Some (of_nat (length contents)), fsExpiryTime = None, fsSkipTransfer = False,
            fsContentType = header_get (Headers s) ''Content-Type''\<rparr>
      in if targetEtag \<noteq> [] \<and> fsEtag sourceState \<noteq> [] then
           Inr (contents, sourceState\<lparr>fsSkipTransfer := (targetEtag = fsEtag sourceState)\<rparr>)
         else if targetLastModified \<noteq> [] \<and> fsLastModified sourceState \<noteq> [] then
           (case parseTime targetLastModified of
              Inl err \<Rightarrow> Inl err
            | Inr targetMtime \<Rightarrow>
                (case parseTime (fsLastModified sourceState) of
                   Inl err \<Rightarrow> Inl err
                 | Inr sourceMtime \<Rightarrow>
                     Inr (contents, sourceState\<lparr>fsSkipTransfer := (targetMtime = sourceMtime)\<rparr>)))
         else Inr (contents, sourceState))"

section \<open>PerformTransfer\<close>

text \<open>A symlink is only uploaded as such if the target supports it and the job has its target.\<close>

definition symlinkSpec :: "bool \<Rightarrow> Matcher \<Rightarrow> FileSpec \<Rightarrow> FileSpec" where
  "symlinkSpec supported m spec =
     (let spec1 = (if supported then spec else spec\<lparr>SymlinkTargetPath := []\<rparr>)
      in if SymlinkTargetPath spec1 \<noteq> [] \<and> CheckRecursive m (SymlinkTargetPath spec1) None \<noteq> None
         then spec1\<lparr>SymlinkTargetPath := []\<rparr> else spec1)"

definition requestHeadersFor :: "Matcher \<Rightarrow> headers \<Rightarrow> headers" where
  "requestHeadersFor m hdr =
     (let put = (\<lambda>key val h. if val \<noteq> [] then headers_set h key val else h)
      in if SimplisticComparison m = Some True then
           put ''If-Modified-Since'' (headers_get hdr ''Last-Modified'') Map.empty
         else
           put ''If-Modified-Since'' (metadata_get hdr ''Source-Last-Modified'')
             (put ''If-None-Match'' (metadata_get hdr ''Source-Etag'') Map.empty))"

definition uploadHeadersFor :: "('w, 'r) Job \<Rightarrow> FileState \<Rightarrow> headers" where
  "uploadHeadersFor job st =
     (let h0 = headers_set Map.empty ''Content-Type'' (fsContentType st);
          h1 = (if fsEtag st \<noteq> [] then metadata_set h0 ''Source-Etag'' (fsEtag st) else h0);
          h2 = (if fsLastModified st \<noteq> [] then metadata_set h1 ''Source-Last-Modified'' (fsLastModified st) else h1)
      in case fsExpiryTime st of
           None \<Rightarrow> h2
         | Some t \<Rightarrow>
             if Enabled (jbExpiration job)
             then expiresAt_set h2 (t + int (unat (DelaySeconds (jbExpiration job))) * 1000000000)
             else h2)"

text \<open>The body of the file, from the source or from the listing.\<close>

definition getContents ::
  "('w, 'r, 'lo) swift \<Rightarrow> (string \<Rightarrow> goerror + gotime) \<Rightarrow> ('w, 'r) Job \<Rightarrow> FileSpec \<Rightarrow> headers \<Rightarrow> 'w \<Rightarrow>
    'w \<times> (goerror + 'r option \<times> FileState)" where
  "getContents sw parseTime job spec requestHeaders w =
     (case Contents spec of
        None \<Rightarrow>
          srcGetFile (jbSource job) (if DownloadPath spec \<noteq> [] then DownloadPath spec else Path spec)
            requestHeaders w
      | Some contents \<Rightarrow>
          (case toTransferFormat parseTime spec contents requestHeaders of
             Inl err \<Rightarrow> (w, Inl err)
           | Inr (b, st) \<Rightarrow> (case swBytesReader sw b w of (w', r) \<Rightarrow> (w', Inr (Some r, st)))))"

definition closeBody :: "('w, 'r, 'lo) swift \<Rightarrow> 'r option \<Rightarrow> 'w \<Rightarrow> 'w" where
  "closeBody sw body w = (case body of None \<Rightarrow> w | Some r \<Rightarrow> swCloseBody sw r w)"

definition uploadFile ::
  "('w, 'r, 'lo) swift \<Rightarrow> ('w, 'r) Job \<Rightarrow> FileSpec \<Rightarrow> 'r option \<Rightarrow> FileState \<Rightarrow> bool \<Rightarrow> 'w \<Rightarrow> 'w \<times> bool" where
  "uploadFile sw job spec body st wasLarge w =
     (case (jbSegmenting job, fsSizeBytes st) of
        (Some sg, Some sz) \<Rightarrow>
          if 0 < sz \<and> MinObjectSize sg \<le> sz
          then uploadLargeObject sw job sg spec body (uploadHeadersFor job st) wasLarge w
          else uploadNormalObject sw job spec body (uploadHeadersFor job st) wasLarge w
      | _ \<Rightarrow> uploadNormalObject sw job spec body (uploadHeadersFor job st) wasLarge w)"

text \<open>The part of \<^verbatim>\<open>PerformTransfer\<close> after the headers of the target are known.\<close>

definition transferContents ::
  "('w, 'r, 'lo) swift \<Rightarrow> (string \<Rightarrow> goerror + gotime) \<Rightarrow> ('w, 'r) Job \<Rightarrow> FileSpec \<Rightarrow> headers \<Rightarrow> 'w \<Rightarrow>
    'w \<times> (TransferResult \<times> u64) outcome" where
  "transferContents sw parseTime job spec hdr w =
     (case getContents sw parseTime job spec (requestHeadersFor (jbMatcher job) hdr) w of
        (w', Inl err) \<Rightarrow> (w', Ret (TransferFailed, 0))
      | (w', Inr (body, st)) \<Rightarrow>
          if fsSkipTransfer st then (closeBody sw body w', Ret (TransferSkipped, 0))
          else
            (case uploadFile sw job spec body st (isLargeObject hdr) w' of
               (w'', ok) \<Rightarrow>
                 (closeBody sw body w'',
                  if ok then
                    (case fsSizeBytes st of
                       None \<Rightarrow> Panic ''nil dereference of size''
                     | Some sz \<Rightarrow> Ret (TransferSuccess, sz))
                  else Ret (TransferFailed, 0))))"

definition immutable :: "('w, 'r) Job \<Rightarrow> FileSpec \<Rightarrow> bool" where
  "immutable job spec =
     (case ImmutableFileRx (jbMatcher job) of
        None \<Rightarrow> False
      | Some rx \<Rightarrow> rxMatchString rx (Path spec) \<and> obName (TargetObject job spec) \<in> FileExists (jbTarget job))"

definition PerformTransfer ::
  "('w, 'r, 'lo) swift \<Rightarrow> (string \<Rightarrow> goerror + gotime) \<Rightarrow> ('w, 'r) Job \<Rightarrow> FileSpec \<Rightarrow> 'w \<Rightarrow>
    'w \<times> (TransferResult \<times> u64) outcome" where
  "PerformTransfer sw parseTime job spec0 w =
     (if immutable job spec0 then (w, Ret (TransferSkipped, 0))
      else
        (case swSymlinkSupport sw (cnAccount (the (Container (jbTarget job)))) w of
           (w1, Inl err) \<Rightarrow> (w1, Panic (''query /info on target failed: '' @ error_text err))
         | (w1, Inr supported) \<Rightarrow>
             let spec = symlinkSpec supported (jbMatcher job) spec0
             in (case (case swSymlinkHeaders sw (TargetObject job spec) w1 of
                         (w2, Inl err) \<Rightarrow>
                           (w2, if schwift_is err StatusNotFound then Some (Map.empty, None) else None)
                       | (w2, Inr (hdr, currentSymlinkTarget)) \<Rightarrow> (w2, Some (hdr, currentSymlinkTarget))) of
                   (w2, None) \<Rightarrow> (w2, Ret (TransferFailed, 0))
                 | (w2, Some (hdr, currentSymlinkTarget)) \<Rightarrow>
                     if SymlinkTargetPath spec \<noteq> [] then
                       (case uploadSymlink sw job spec currentSymlinkTarget (isLargeObject hdr) w2 of
                          (w3, result) \<Rightarrow> (w3, Ret (result, 0)))
                     else transferContents sw parseTime job spec hdr w2)))"

end
