(* ===== verification/Report.thy ===== *)
theory Report
  imports File
begin

text \<open>
  \<^verbatim>\<open>pkg/actors/report.go\<close>: the events that the other actors send, the statistics, the metrics and
  the exit code. The statsd client is left out: \<open>gauges\<close> is the list of values that are submitted to
  it, in order, if there is one. The counters are \<^verbatim>\<open>uint64\<close>.
\<close>

section \<open>Events\<close>

record ReportEvent =
  IsJob :: bool
  JobSkipped :: bool
  evIsDirectory :: bool
  DirectoryFailed :: bool
  IsFile :: bool
  FileTransferResult :: TransferResult
  FileTransferBytes :: u64
  IsCleanup :: bool
  CleanedUpObjectCount :: u64

definition noEvent :: ReportEvent where
  "noEvent =
     \<lparr>IsJob = False, JobSkipped = False, evIsDirectory = False, DirectoryFailed = False, IsFile = False,
      FileTransferResult = TransferSuccess, FileTransferBytes = 0, IsCleanup = False, CleanedUpObjectCount = 0\<rparr>"

definition jobSkippedEvent :: ReportEvent where
  "jobSkippedEvent = noEvent\<lparr>IsJob := True, JobSkipped := True\<rparr>"

definition directoryEvent :: "bool \<Rightarrow> ReportEvent" where
  "directoryEvent failed = noEvent\<lparr>evIsDirectory := True, DirectoryFailed := failed\<rparr>"

definition fileEvent :: "TransferResult \<Rightarrow> u64 \<Rightarrow> ReportEvent" where
  "fileEvent result sz = noEvent\<lparr>IsFile := True, FileTransferResult := result, FileTransferBytes := sz\<rparr>"

definition cleanupEvent :: "u64 \<Rightarrow> ReportEvent" where
  "cleanupEvent n = noEvent\<lparr>IsCleanup := True, CleanedUpObjectCount := n\<rparr>"

lemmas event_defs = noEvent_def jobSkippedEvent_def directoryEvent_def fileEvent_def cleanupEvent_def

section \<open>Statistics\<close>

record Stats =
  DirectoriesScanned :: u64
  DirectoriesFailed :: u64
  FilesFound :: u64
  FilesFailed :: u64
  FilesTransferred :: u64
  FilesCleanedUp :: u64
  BytesTransferred :: u64
  JobsSkipped :: u64

definition zeroStats :: Stats where
  "zeroStats =
     \<lparr>DirectoriesScanned = 0, DirectoriesFailed = 0, FilesFound = 0, FilesFailed = 0, FilesTransferred = 0,
      FilesCleanedUp = 0, BytesTransferred = 0, JobsSkipped = 0\<rparr>"

definition tally :: "ReportEvent \<Rightarrow> Stats \<Rightarrow> Stats" where
  "tally mark s =
     (if evIsDirectory mark then
        (let s1 = s\<lparr>DirectoriesScanned := DirectoriesScanned s + 1\<rparr>
         in if DirectoryFailed mark then s1\<lparr>DirectoriesFailed := DirectoriesFailed s1 + 1\<rparr> else s1)
      else if IsFile mark then
        (let s1 = s\<lparr>FilesFound := FilesFound s + 1\<rparr>
         in (case FileTransferResult mark of
               TransferSuccess \<Rightarrow>
                 s1\<lparr>FilesTransferred := FilesTransferred s1 + 1,
                    BytesTransferred := BytesTransferred s1 + FileTransferBytes mark\<rparr>
             | TransferFailed \<Rightarrow> s1\<lparr>FilesFailed := FilesFailed s1 + 1\<rparr>
             | TransferSkipped \<Rightarrow> s1))
      else if IsCleanup mark then s\<lparr>FilesCleanedUp := FilesCleanedUp s + CleanedUpObjectCount mark\<rparr>
      else if IsJob mark then
        (if JobSkipped mark then s\<lparr>JobsSkipped := JobsSkipped s + 1\<rparr> else s)
      else s)"

definition Report_stats :: "ReportEvent list \<Rightarrow> Stats" where
  "Report_stats marks = fold tally marks zeroStats"

definition failedRun :: "Stats \<Rightarrow> bool" where
  "failedRun s \<longleftrightarrow> FilesFailed s > 0 \<or> DirectoriesFailed s > 0"

definition Report_ExitCode :: "ReportEvent list \<Rightarrow> nat" where
  "Report_ExitCode marks = (if failedRun (Report_stats marks) then 1 else 0)"

text \<open>A value that does not fit an \<^verbatim>\<open>int64\<close> is not submitted.\<close>

definition gaugeU64 :: "string \<Rightarrow> u64 \<Rightarrow> (string \<times> int) list" where
  "gaugeU64 bucket value = (if 9223372036854775807 < value then [] else [(bucket, uint value)])"

definition gauges :: "Stats \<Rightarrow> int \<Rightarrow> int \<Rightarrow> (string \<times> int) list" where
  "gauges s now duration =
     gaugeU64 ''last_run.jobs_skipped'' (JobsSkipped s) @
     gaugeU64 ''last_run.dirs_scanned'' (DirectoriesScanned s) @
     gaugeU64 ''last_run.files_found'' (FilesFound s) @
     gaugeU64 ''last_run.files_transfered'' (FilesTransferred s) @
     gaugeU64 ''last_run.files_failed'' (FilesFailed s) @
     gaugeU64 ''last_run.files_cleaned_up'' (FilesCleanedUp s) @
     gaugeU64 ''last_run.bytes_transfered'' (BytesTransferred s) @
     (if failedRun s then gaugeU64 ''last_run.success'' 0
      else gaugeU64 ''last_run.success'' 1 @ [(''last_run.success_timestamp'', now)]) @
     [(''last_run.duration_seconds'', duration)]"

section \<open>What is counted\<close>

lemma event_sel [simp]:
  "evIsDirectory jobSkippedEvent = False" "IsFile jobSkippedEvent = False" "IsCleanup jobSkippedEvent = False"
  "IsJob jobSkippedEvent" "JobSkipped jobSkippedEvent"
  "evIsDirectory (directoryEvent b)" "DirectoryFailed (directoryEvent b) = b"
  "evIsDirectory (fileEvent r n) = False" "IsFile (fileEvent r n)" "FileTransferResult (fileEvent r n) = r"
  "FileTransferBytes (fileEvent r n) = n"
  "evIsDirectory (cleanupEvent n) = False" "IsFile (cleanupEvent n) = False" "IsCleanup (cleanupEvent n)"
  "CleanedUpObjectCount (cleanupEvent n) = n"
  by (simp_all add: event_defs)

text \<open>The events by which a run fails.\<close>

definition failing :: "ReportEvent \<Rightarrow> bool" where
  "failing ev \<longleftrightarrow>
     (if evIsDirectory ev then DirectoryFailed ev else IsFile ev \<and> FileTransferResult ev = TransferFailed)"

definition countEvents :: "(ReportEvent \<Rightarrow> bool) \<Rightarrow> ReportEvent list \<Rightarrow> nat" where
  "countEvents P evs = length (filter P evs)"

lemma countEvents_Nil [simp]: "countEvents P [] = 0"
  by (simp add: countEvents_def)

lemma countEvents_Cons [simp]: "countEvents P (e # es) = (if P e then 1 else 0) + countEvents P es"
  by (simp add: countEvents_def)

definition fileIs :: "TransferResult \<Rightarrow> ReportEvent \<Rightarrow> bool" where
  "fileIs r ev \<longleftrightarrow> \<not> evIsDirectory ev \<and> IsFile ev \<and> FileTransferResult ev = r"

lemma fold_tally:
  "fold tally evs s =
     \<lparr>DirectoriesScanned = DirectoriesScanned s + of_nat (countEvents evIsDirectory evs),
      DirectoriesFailed = DirectoriesFailed s + of_nat (countEvents (\<lambda>e. evIsDirectory e \<and> DirectoryFailed e) evs),
      FilesFound = FilesFound s + of_nat (countEvents (\<lambda>e. \<not> evIsDirectory e \<and> IsFile e) evs),
      FilesFailed = FilesFailed s + of_nat (countEvents (fileIs TransferFailed) evs),
      FilesTransferred = FilesTransferred s + of_nat (countEvents (fileIs TransferSuccess) evs),
      FilesCleanedUp = FilesCleanedUp s +
        sum_list (map (\<lambda>e. if \<not> evIsDirectory e \<and> \<not> IsFile e \<and> IsCleanup e then CleanedUpObjectCount e else 0) evs),
      BytesTransferred = BytesTransferred s +
        sum_list (map (\<lambda>e. if fileIs TransferSuccess e then FileTransferBytes e else 0) evs),
      JobsSkipped = JobsSkipped s +
        of_nat (countEvents (\<lambda>e. \<not> evIsDirectory e \<and> \<not> IsFile e \<and> \<not> IsCleanup e \<and> IsJob e \<and> JobSkipped e) evs)\<rparr>"
proof (induction evs arbitrary: s)
  case (Cons e evs)
  show ?case
    unfolding fold_simps comp_apply Cons.IH
    by (cases "FileTransferResult e") (auto simp: tally_def fileIs_def[abs_def] Let_def)
qed simp

lemma countEvents_pos:
  assumes "length evs < 2 ^ 64"
  shows "0 < (of_nat (countEvents P evs) :: u64) \<longleftrightarrow> (\<exists>e\<in>set evs. P e)"
proof -
  have "countEvents P evs < 2 ^ 64"
    unfolding countEvents_def by (rule le_less_trans[OF length_filter_le assms])
  then have "0 < (of_nat (countEvents P evs) :: u64) \<longleftrightarrow> 0 < countEvents P evs"
    unfolding word_less_nat_alt by simp
  then show ?thesis by (auto simp: countEvents_def filter_empty_conv)
qed

lemma Report_ExitCode_failing:
  assumes "length evs < 2 ^ 64"
  shows "Report_ExitCode evs = (if \<exists>e\<in>set evs. failing e then 1 else 0)"
proof -
  have "FilesFailed (Report_stats evs) = of_nat (countEvents (fileIs TransferFailed) evs)"
    "DirectoriesFailed (Report_stats evs) = of_nat (countEvents (\<lambda>e. evIsDirectory e \<and> DirectoryFailed e) evs)"
    by (simp_all add: Report_stats_def fold_tally zeroStats_def)
  then have "failedRun (Report_stats evs) \<longleftrightarrow>
      (\<exists>e\<in>set evs. fileIs TransferFailed e) \<or> (\<exists>e\<in>set evs. evIsDirectory e \<and> DirectoryFailed e)"
    unfolding failedRun_def by (simp only: countEvents_pos[OF assms])
  moreover have "\<dots> \<longleftrightarrow> (\<exists>e\<in>set evs. failing e)" by (auto simp: failing_def fileIs_def)
  ultimately show ?thesis by (simp add: Report_ExitCode_def)
qed

lemma JobsSkipped_pos:
  assumes "length evs < 2 ^ 64" "jobSkippedEvent \<in> set evs"
  shows "JobsSkipped (Report_stats evs) > 0"
proof -
  have "JobsSkipped (Report_stats evs) =
      of_nat (countEvents (\<lambda>e. \<not> evIsDirectory e \<and> \<not> IsFile e \<and> \<not> IsCleanup e \<and> IsJob e \<and> JobSkipped e) evs)"
    by (simp add: Report_stats_def fold_tally zeroStats_def)
  moreover have "\<exists>e\<in>set evs. \<not> evIsDirectory e \<and> \<not> IsFile e \<and> \<not> IsCleanup e \<and> IsJob e \<and> JobSkipped e"
    by (rule bexI[OF _ assms(2)]) (simp add: event_defs)
  ultimately show ?thesis by (simp only: countEvents_pos[OF assms(1)])
qed

text \<open>Every file that was found is counted once, as transferred, failed or skipped.\<close>

lemma files_counted_once:
  assumes "length evs < 2 ^ 64"
  shows "unat (FilesFound (Report_stats evs)) =
      unat (FilesTransferred (Report_stats evs)) + unat (FilesFailed (Report_stats evs)) +
      countEvents (fileIs TransferSkipped) evs"
proof -
  have un: "unat (of_nat (countEvents P evs) :: u64) = countEvents P evs" for P
    unfolding countEvents_def by (rule unat_of_nat_u64[OF le_less_trans[OF length_filter_le assms]])
  have stats: "FilesFailed (Report_stats evs) = of_nat (countEvents (fileIs TransferFailed) evs)"
    "FilesFound (Report_stats evs) = of_nat (countEvents (\<lambda>e. \<not> evIsDirectory e \<and> IsFile e) evs)"
    "FilesTransferred (Report_stats evs) = of_nat (countEvents (fileIs TransferSuccess) evs)"
    by (simp_all add: Report_stats_def fold_tally zeroStats_def)
  have split: "countEvents (\<lambda>e. \<not> evIsDirectory e \<and> IsFile e) es =
      countEvents (fileIs TransferSuccess) es + countEvents (fileIs TransferFailed) es +
      countEvents (fileIs TransferSkipped) es" for es
  proof (induction es)
    case (Cons e es)
    then show ?case by (cases "FileTransferResult e") (auto simp: fileIs_def)
  qed simp
  show ?thesis unfolding stats un by (rule split)
qed

end
