(* ===== verification/ReportRun.thy ===== *)
theory ReportRun
  imports Report
begin

text \<open>
  \<^verbatim>\<open>Report.Run\<close> of \<^verbatim>\<open>pkg/actors/report.go\<close> as a whole: the connection to the statsd server, the metrics
  in the order of their submission, the lines of the log, and the exit code. The statsd client is a
  parameter; the clock gives the Unix time and the duration of the run, in seconds and as a text.
\<close>

section \<open>Definitions\<close>

record StatsdConfiguration =
  HostName :: string
  Port :: int
  Prefix :: string

record 'w statsd =
  sdNewClient :: "string \<Rightarrow> string \<Rightarrow> 'w \<Rightarrow> 'w \<times> goerror option"
  sdGauge :: "string \<Rightarrow> int \<Rightarrow> 'w \<Rightarrow> 'w \<times> goerror option"
  sdClose :: "'w \<Rightarrow> 'w"

record clock =
  ckNow :: int
  ckSeconds :: int
  ckDuration :: string

datatype logLine = Info string | Error string

record 'w reporting =
  rgWorld :: 'w
  rgLog :: "logLine list"

definition itoa :: "int \<Rightarrow> string" where
  "itoa n = (if n < 0 then ''-'' @ decimal (nat (- n)) else decimal (nat n))"

definition logInfo :: "string \<Rightarrow> 'w reporting \<Rightarrow> 'w reporting" where
  "logInfo msg s = s\<lparr>rgLog := rgLog s @ [Info msg]\<rparr>"

definition logError :: "string \<Rightarrow> 'w reporting \<Rightarrow> 'w reporting" where
  "logError msg s = s\<lparr>rgLog := rgLog s @ [Error msg]\<rparr>"

text \<open>Without a client the two functions do nothing.\<close>

definition sendI64 :: "'w statsd option \<Rightarrow> string \<Rightarrow> int \<Rightarrow> 'w reporting \<Rightarrow> 'w reporting" where
  "sendI64 statter bucket val s =
     (case statter of
        None \<Rightarrow> s
      | Some sd \<Rightarrow>
          (case sdGauge sd bucket val (rgWorld s) of
             (w, None) \<Rightarrow> s\<lparr>rgWorld := w\<rparr>
           | (w, Some err) \<Rightarrow>
               logError (''statsd: could not submit value '' @ itoa val @ '' for bucket '' @ quote bucket @ '': '' @
                 error_text err) (s\<lparr>rgWorld := w\<rparr>)))"

definition sendU64 :: "'w statsd option \<Rightarrow> string \<Rightarrow> u64 \<Rightarrow> 'w reporting \<Rightarrow> 'w reporting" where
  "sendU64 statter bucket val s =
     (case statter of
        None \<Rightarrow> s
      | Some sd \<Rightarrow>
          if 9223372036854775807 < val then
            logError (''statsd: value '' @ decimal (unat val) @ '' for bucket '' @ quote bucket @
              '' is out of range for int64'') s
          else sendI64 statter bucket (uint val) s)"

definition sendStatistics :: "'w statsd option \<Rightarrow> clock \<Rightarrow> Stats \<Rightarrow> 'w reporting \<Rightarrow> 'w reporting" where
  "sendStatistics statter ck st s0 =
     (let s1 = sendU64 statter ''last_run.jobs_skipped'' (JobsSkipped st) s0;
          s2 = sendU64 statter ''last_run.dirs_scanned'' (DirectoriesScanned st) s1;
          s3 = sendU64 statter ''last_run.files_found'' (FilesFound st) s2;
          s4 = sendU64 statter ''last_run.files_transfered'' (FilesTransferred st) s3;
          s5 = sendU64 statter ''last_run.files_failed'' (FilesFailed st) s4;
          s6 = sendU64 statter ''last_run.files_cleaned_up'' (FilesCleanedUp st) s5;
          s7 = sendU64 statter ''last_run.bytes_transfered'' (BytesTransferred st) s6
      in if failedRun st then sendU64 statter ''last_run.success'' 0 s7
         else sendI64 statter ''last_run.success_timestamp'' (ckNow ck) (sendU64 statter ''last_run.success'' 1 s7))"

definition showU64 :: "u64 \<Rightarrow> string" where
  "showU64 n = decimal (unat n)"

definition logResults :: "Stats \<Rightarrow> 'w reporting \<Rightarrow> 'w reporting" where
  "logResults st s0 =
     (let s1 = logInfo (showU64 (JobsSkipped st) @ '' jobs skipped'') s0;
          s2 = logInfo (showU64 (DirectoriesScanned st) @ '' dirs scanned, '' @ showU64 (DirectoriesFailed st) @
                 '' failed'') s1;
          s3 = logInfo (showU64 (FilesFound st) @ '' files found, '' @ showU64 (FilesTransferred st) @
                 '' transferred, '' @ showU64 (FilesFailed st) @ '' failed'') s2;
          s4 = (if 0 < FilesCleanedUp st then logInfo (showU64 (FilesCleanedUp st) @ '' old files cleaned up'') s3 else s3)
      in logInfo (showU64 (BytesTransferred st) @ '' bytes transferred'') s4)"

text \<open>A client that cannot be set up ends the process (\<^verbatim>\<open>must.Return\<close>).\<close>

definition statsdClient ::
  "'w statsd \<Rightarrow> StatsdConfiguration \<Rightarrow> 'w \<Rightarrow> ('w \<times> 'w statsd option) outcome" where
  "statsdClient sd cfg w =
     (if HostName cfg = [] then Ret (w, None)
      else
        (case sdNewClient sd (HostName cfg @ '':'' @ itoa (Port cfg)) (Prefix cfg) w of
           (w', None) \<Rightarrow> Ret (w', Some sd)
         | (w', Some err) \<Rightarrow> Panic (error_text err)))"

definition Report_Run ::
  "'w statsd \<Rightarrow> StatsdConfiguration \<Rightarrow> clock \<Rightarrow> ReportEvent list \<Rightarrow> 'w \<Rightarrow> ('w reporting \<times> Stats \<times> nat) outcome" where
  "Report_Run sd cfg ck marks w =
     (case statsdClient sd cfg w of
        Panic m \<Rightarrow> Panic m
      | Ret (w1, statter) \<Rightarrow>
          let st = fold tally marks zeroStats;
              s1 = sendStatistics statter ck st \<lparr>rgWorld = w1, rgLog = []\<rparr>;
              exit = (if failedRun st then 1 else 0);
              s2 = sendI64 statter ''last_run.duration_seconds'' (ckSeconds ck) (logResults st s1);
              s3 = logInfo (''finished in '' @ ckDuration ck) s2
          in Ret (case statter of None \<Rightarrow> s3 | Some sd' \<Rightarrow> s3\<lparr>rgWorld := sdClose sd' (rgWorld s3)\<rparr>, st, exit))"

lemma Report_Run_exit:
  "Report_Run sd cfg ck marks w = Ret (s, st, exit) \<Longrightarrow> st = Report_stats marks \<and> exit = Report_ExitCode marks"
  by (auto simp: Report_Run_def Let_def Report_stats_def Report_ExitCode_def split: outcome.splits)

section \<open>What is submitted\<close>

text \<open>A client that also notes what is submitted.\<close>

definition recording :: "'w statsd \<Rightarrow> ('w \<times> (string \<times> int) list) statsd" where
  "recording sd =
     \<lparr>sdNewClient = (\<lambda>a p wl. case sdNewClient sd a p (fst wl) of (w, err) \<Rightarrow> ((w, snd wl), err)),
      sdGauge = (\<lambda>b v wl. case sdGauge sd b v (fst wl) of (w, err) \<Rightarrow> ((w, snd wl @ [(b, v)]), err)),
      sdClose = (\<lambda>wl. (sdClose sd (fst wl), snd wl))\<rparr>"

lemma log_sel [simp]: "rgWorld (logInfo m s) = rgWorld s" "rgWorld (logError m s) = rgWorld s"
  by (simp_all add: logInfo_def logError_def)

lemma sendI64_recording [simp]:
  "snd (rgWorld (sendI64 (Some (recording sd)) b v s)) = snd (rgWorld s) @ [(b, v)]"
  by (auto simp: sendI64_def recording_def split: prod.split option.split)

lemma sendU64_recording [simp]:
  "snd (rgWorld (sendU64 (Some (recording sd)) b v s)) = snd (rgWorld s) @ gaugeU64 b v"
  by (simp add: sendU64_def gaugeU64_def)

lemma send_none [simp]: "sendI64 None b v s = s" "sendU64 None b n s = s"
  by (simp_all add: sendI64_def sendU64_def)

lemma logResults_world [simp]: "rgWorld (logResults st s) = rgWorld s"
  by (simp add: logResults_def Let_def)

lemma sendStatistics_none: "sendStatistics None ck st s = s"
  by (simp add: sendStatistics_def)

lemma sendStatistics_recording:
  "snd (rgWorld (sendStatistics (Some (recording sd)) ck st s)) @ [(''last_run.duration_seconds'', ckSeconds ck)] =
     snd (rgWorld s) @ gauges st (ckNow ck) (ckSeconds ck)"
proof (cases "failedRun st")
  case True
  show ?thesis
    unfolding sendStatistics_def gauges_def if_P[OF True] Let_def sendI64_recording sendU64_recording append_assoc
    by (rule refl)
next
  case False
  show ?thesis
    unfolding sendStatistics_def gauges_def if_not_P[OF False] Let_def sendI64_recording sendU64_recording append_assoc
    by (rule refl)
qed

lemma statsdClient_recording:
  assumes "statsdClient (recording sd) cfg (w, l) = Ret (wl, statter)"
  shows "snd wl = l \<and> statter = (if HostName cfg = [] then None else Some (recording sd))"
  using assms
  by (auto simp: statsdClient_def recording_def split: if_splits prod.splits option.splits)

text \<open>C33: the report as a whole. Whatever the statsd server answers, a report that ends has the exit code 1 exactly if a
  file or a directory failed, and has counted every file that was found once, as transferred,
  failed or skipped. If a statsd server is configured, exactly the documented gauges were submitted to
  it, in order, and otherwise none. It does not end only if the statsd client cannot be set up.\<close>

theorem Report_Run_result:
  assumes "length evs < 2 ^ 64"
  shows "(case Report_Run (recording sd) cfg ck evs (w, []) of
      Panic m \<Rightarrow> HostName cfg \<noteq> []
    | Ret (s, st, exit) \<Rightarrow>
        exit = (if \<exists>e\<in>set evs. failing e then 1 else 0) \<and>
        unat (FilesFound st) =
          unat (FilesTransferred st) + unat (FilesFailed st) + countEvents (fileIs TransferSkipped) evs \<and>
        snd (rgWorld s) = (if HostName cfg = [] then [] else gauges st (ckNow ck) (ckSeconds ck)))"
proof (cases "statsdClient (recording sd) cfg (w, [])")
  case (Panic m)
  then have "HostName cfg \<noteq> []" by (auto simp: statsdClient_def)
  with Panic show ?thesis by (simp add: Report_Run_def)
next
  case (Ret x)
  obtain wl statter where x: "x = (wl, statter)" by fastforce
  with statsdClient_recording[of sd cfg w "[]" wl statter] Ret
  have c: "snd wl = []" "statter = (if HostName cfg = [] then None else Some (recording sd))"
    by simp_all
  let ?st = "Report_stats evs"
  have exit: "(if failedRun ?st then 1 else 0) = (if \<exists>e\<in>set evs. failing e then 1 else 0 :: nat)"
    using Report_ExitCode_failing[OF assms] by (simp add: Report_ExitCode_def)
  have st: "fold tally evs zeroStats = ?st" by (simp add: Report_stats_def)
  show ?thesis
  proof (cases "HostName cfg = []")
    case True
    with Ret x c show ?thesis
      by (simp add: Report_Run_def Let_def st exit sendStatistics_none files_counted_once[OF assms])
  next
    case False
    have close: "snd (sdClose (recording sd) v) = snd v" for v by (simp add: recording_def)
    from False Ret x c show ?thesis
      using sendStatistics_recording[of sd ck ?st "\<lparr>rgWorld = wl, rgLog = []\<rparr>"]
      by (simp add: Report_Run_def Let_def st exit close files_counted_once[OF assms])
  qed
qed


text \<open>A server that refuses every second value.\<close>

definition toy_statsd :: "nat statsd" where
  "toy_statsd =
     \<lparr>sdNewClient = (\<lambda>a p n. (n, None)),
      sdGauge = (\<lambda>b v n. (Suc n, if even n then None else Some (Err ''refused''))),
      sdClose = (\<lambda>n. n)\<rparr>"

definition toy_statsd_config :: StatsdConfiguration where
  "toy_statsd_config = \<lparr>HostName = ''s'', Port = 8125, Prefix = ''p''\<rparr>"

theorem Report_Run_result_witness:
  "\<exists>s st. Report_Run (recording toy_statsd) toy_statsd_config \<lparr>ckNow = 5, ckSeconds = 3, ckDuration = ''3s''\<rparr>
       [fileEvent TransferSuccess 7, fileEvent TransferFailed 0] (0, []) = Ret (s, st, 1) \<and>
     snd (rgWorld s) = gauges st 5 3"
proof -
  let ?evs = "[fileEvent TransferSuccess 7, fileEvent TransferFailed 0]"
  let ?ck = "\<lparr>ckNow = 5, ckSeconds = 3, ckDuration = ''3s''\<rparr>"
  have "statsdClient (recording toy_statsd) toy_statsd_config (0, []) = Ret ((0, []), Some (recording toy_statsd))"
    by (simp add: statsdClient_def toy_statsd_config_def recording_def toy_statsd_def)
  then obtain s st exit where r: "Report_Run (recording toy_statsd) toy_statsd_config ?ck ?evs (0, []) = Ret (s, st, exit)"
    by (simp add: Report_Run_def Let_def)
  have "exit = 1" "snd (rgWorld s) = gauges st 5 3"
    using Report_Run_result[where evs = ?evs and sd = toy_statsd and cfg = toy_statsd_config and ck = ?ck and w = 0] r
    by (simp_all add: failing_def toy_statsd_config_def)
  with r show ?thesis by blast
qed

end
