(* ===== verification/Scraper.thy ===== *)
theory Scraper
  imports Report
begin

text \<open>
  \<^verbatim>\<open>pkg/actors/scraper.go\<close> and \<^verbatim>\<open>pkg/objects/directory.go\<close>: the actor that enumerates the files of
  all jobs. A pointer to a job is its index in the list of jobs; \<open>scIncomplete\<close> has the jobs with
  \<^verbatim>\<open>IsScrapingIncomplete\<close>. What is sent into a channel is a list. Whether the context was cancelled
  is seen in the state of the outside world. The goroutine that receives from \<^verbatim>\<open>ListAllFiles\<close>
  handles the entries in their order, and the scraper waits for it.
\<close>

section \<open>The stack of directories\<close>

record Directory =
  dJob :: nat
  dPath :: string
  dRetryCounter :: nat

type_synonym directoryStack = "Directory list"

definition stack_IsEmpty :: "directoryStack \<Rightarrow> bool" where
  "stack_IsEmpty s \<longleftrightarrow> length s = 0"

definition stack_Push :: "directoryStack \<Rightarrow> Directory \<Rightarrow> directoryStack" where
  "stack_Push s d = s @ [d]"

definition stack_Pop :: "directoryStack \<Rightarrow> directoryStack \<times> Directory" where
  "stack_Pop s = (let l = length s in (take (l - 1) s, s ! (l - 1)))"

definition stack_PushBack :: "directoryStack \<Rightarrow> Directory \<Rightarrow> directoryStack" where
  "stack_PushBack s d = d # s"

text \<open>
  What the scraper relies on: directories come back last in, first out, and those that are pushed
  to the back come after all others. \<open>order s\<close> is the order in which they come back.
\<close>

locale work_stack =
  fixes isEmpty :: "'s \<Rightarrow> bool"
    and push :: "'s \<Rightarrow> 'd \<Rightarrow> 's"
    and pop :: "'s \<Rightarrow> 's \<times> 'd"
    and pushBack :: "'s \<Rightarrow> 'd \<Rightarrow> 's"
    and order :: "'s \<Rightarrow> 'd list"
  assumes isEmpty_iff: "isEmpty s \<longleftrightarrow> order s = []"
    and order_push: "order (push s d) = d # order s"
    and order_pop: "order s \<noteq> [] \<Longrightarrow> pop s = (s', d) \<Longrightarrow> order s = d # order s'"
    and order_pushBack: "order (pushBack s d) = order s @ [d]"
begin

lemma pop_push: "pop (push s d) = (s', d') \<Longrightarrow> order s' = order s \<and> d' = d"
  using order_pop[of "push s d" s' d'] by (simp add: order_push)

lemma order_foldl_push: "order (foldl push s ds) = rev ds @ order s"
  by (induction ds arbitrary: s) (simp_all add: order_push)

lemma order_foldl_push_rev: "order (foldl push s (rev ds)) = ds @ order s"
  by (simp add: order_foldl_push)

lemma set_order_pop:
  "\<not> isEmpty s \<Longrightarrow> pop s = (s', d) \<Longrightarrow> set (order s) = insert d (set (order s'))"
  using order_pop[of s s' d] by (simp add: isEmpty_iff)

end

interpretation ds: work_stack stack_IsEmpty stack_Push stack_Pop stack_PushBack rev
proof unfold_locales
  fix s s' :: directoryStack and d
  assume "rev s \<noteq> []" "stack_Pop s = (s', d)"
  then have "s \<noteq> []" "s' = butlast s" "d = last s"
    by (auto simp: stack_Pop_def Let_def last_conv_nth butlast_conv_take)
  then show "rev s = d # rev s'" by (metis append_butlast_last_id rev.simps(2) rev_rev_ident)
qed (simp_all add: stack_IsEmpty_def stack_Push_def stack_PushBack_def)

section \<open>Scraping one directory\<close>

record 'w scraper =
  scWorld :: 'w
  scStack :: directoryStack
  scOutput :: "(nat \<times> FileSpec) list"
  scReport :: "ReportEvent list"
  scIncomplete :: "nat set"

definition handleFileSpec :: "('w, 'r) Job list \<Rightarrow> nat \<Rightarrow> FileSpec \<Rightarrow> 'w scraper \<Rightarrow> 'w scraper" where
  "handleFileSpec jobs j fs st =
     (case CheckFile (jbMatcher (jobs ! j)) fs of
        Some excludeReason \<Rightarrow> st
      | None \<Rightarrow>
          if IsDirectory fs
          then st\<lparr>scStack := stack_Push (scStack st) \<lparr>dJob = j, dPath = Path fs, dRetryCounter = 0\<rparr>\<rparr>
          else st\<lparr>scOutput := scOutput st @ [(j, fs)]\<rparr>)"

definition listEntries ::
  "('w, 'r) Job list \<Rightarrow> Directory \<Rightarrow> 'w scraper \<Rightarrow> 'w scraper \<times> ListEntriesError option" where
  "listEntries jobs directory st =
     (case srcListEntries (jbSource (jobs ! dJob directory)) (dPath directory) (scWorld st) of
        (w, Inl err) \<Rightarrow> (st\<lparr>scWorld := w\<rparr>, Some err)
      | (w, Inr entries) \<Rightarrow> (fold (handleFileSpec jobs (dJob directory)) entries (st\<lparr>scWorld := w\<rparr>), None))"

definition listDirectory ::
  "('w, 'r) Job list \<Rightarrow> Directory \<Rightarrow> 'w scraper \<Rightarrow> 'w scraper \<times> ListEntriesError option" where
  "listDirectory jobs directory st =
     (if dPath directory = ''/'' then
        (case srcListAllFiles (jbSource (jobs ! dJob directory)) (scWorld st) of
           (w, entries, err) \<Rightarrow>
             let st' = fold (handleFileSpec jobs (dJob directory)) entries (st\<lparr>scWorld := w\<rparr>)
             in if err \<noteq> Some ErrListAllFilesNotSupported then (st', err)
                else listEntries jobs directory st')
      else listEntries jobs directory st)"

definition finishDirectory :: "Directory \<Rightarrow> ListEntriesError option \<Rightarrow> 'w scraper \<Rightarrow> 'w scraper" where
  "finishDirectory directory err st =
     (case err of
        Some e \<Rightarrow>
          if leMessage e = ErrMessageGPGVerificationFailed then
            st\<lparr>scIncomplete := insert (dJob directory) (scIncomplete st),
               scReport := scReport st @ [jobSkippedEvent]\<rparr>
          else if dRetryCounter directory \<ge> 2 then
            st\<lparr>scIncomplete := insert (dJob directory) (scIncomplete st),
               scReport := scReport st @ [directoryEvent True]\<rparr>
          else
            st\<lparr>scStack := stack_PushBack (scStack st) (directory\<lparr>dRetryCounter := dRetryCounter directory + 1\<rparr>)\<rparr>
      | None \<Rightarrow> st\<lparr>scReport := scReport st @ [directoryEvent False]\<rparr>)"

definition scrapeNext :: "('w, 'r) Job list \<Rightarrow> 'w scraper \<Rightarrow> 'w scraper" where
  "scrapeNext jobs st =
     (case stack_Pop (scStack st) of
        (stack, directory) \<Rightarrow>
          (case listDirectory jobs directory (st\<lparr>scStack := stack\<rparr>) of
             (st', err) \<Rightarrow> finishDirectory directory err st'))"

section \<open>Run\<close>

text \<open>The loop ends when the stack is empty or the context is cancelled; it may not end at all.\<close>

partial_function (option) Scraper_loop ::
  "('w, 'r) Job list \<Rightarrow> ('w \<Rightarrow> bool) \<Rightarrow> 'w scraper \<Rightarrow> 'w scraper option" where
  "Scraper_loop jobs cancelled st =
     (if stack_IsEmpty (scStack st) \<or> cancelled (scWorld st) then Some st
      else Scraper_loop jobs cancelled (scrapeNext jobs st))"

definition Scraper_start :: "('w, 'r) Job list \<Rightarrow> 'w \<Rightarrow> 'w scraper" where
  "Scraper_start jobs w =
     \<lparr>scWorld = w,
      scStack = foldl (\<lambda>stack idx. stack_Push stack
        \<lparr>dJob = length jobs - idx - 1, dPath = ''/'', dRetryCounter = 0\<rparr>) [] [0..<length jobs],
      scOutput = [], scReport = [], scIncomplete = {}\<rparr>"

definition Scraper_Run :: "('w, 'r) Job list \<Rightarrow> ('w \<Rightarrow> bool) \<Rightarrow> 'w \<Rightarrow> 'w scraper option" where
  "Scraper_Run jobs cancelled w = Scraper_loop jobs cancelled (Scraper_start jobs w)"

section \<open>Induction over a run\<close>

text \<open>An invariant of the loop holds in its result, which has an empty stack or was cancelled.\<close>

lemma Scraper_loop_rule:
  assumes "Scraper_loop jobs cancelled st = Some st'" "I st"
    and "\<And>s. I s \<Longrightarrow> \<not> stack_IsEmpty (scStack s) \<Longrightarrow> \<not> cancelled (scWorld s) \<Longrightarrow> I (scrapeNext jobs s)"
  shows "I st' \<and> (stack_IsEmpty (scStack st') \<or> cancelled (scWorld st'))"
proof -
  have "jobs = jobs \<longrightarrow> cancelled = cancelled \<longrightarrow> I st \<longrightarrow>
      I st' \<and> (stack_IsEmpty (scStack st') \<or> cancelled (scWorld st'))"
  proof (rule Scraper_loop.raw_induct[where P = "\<lambda>j c s s'. j = jobs \<longrightarrow> c = cancelled \<longrightarrow> I s \<longrightarrow>
      I s' \<and> (stack_IsEmpty (scStack s') \<or> cancelled (scWorld s'))", OF _ assms(1)])
    fix loop jobs' cancelled' s s'
    assume IH: "\<And>j c t t'. loop j c t = Some t' \<Longrightarrow> j = jobs \<longrightarrow> c = cancelled \<longrightarrow> I t \<longrightarrow>
        I t' \<and> (stack_IsEmpty (scStack t') \<or> cancelled (scWorld t'))"
      and ret: "(if stack_IsEmpty (scStack s) \<or> cancelled' (scWorld s) then Some s
        else loop jobs' cancelled' (scrapeNext jobs' s)) = Some s'"
    show "jobs' = jobs \<longrightarrow> cancelled' = cancelled \<longrightarrow> I s \<longrightarrow>
        I s' \<and> (stack_IsEmpty (scStack s') \<or> cancelled (scWorld s'))"
    proof (intro impI)
      assume eqs: "jobs' = jobs" "cancelled' = cancelled" and inv: "I s"
      show "I s' \<and> (stack_IsEmpty (scStack s') \<or> cancelled (scWorld s'))"
      proof (cases "stack_IsEmpty (scStack s) \<or> cancelled (scWorld s)")
        case True
        with ret eqs inv show ?thesis by auto
      next
        case False
        with ret eqs have "loop jobs cancelled (scrapeNext jobs s) = Some s'" by simp
        with IH assms(3)[OF inv] False show ?thesis by blast
      qed
    qed
  qed
  with assms(2) show ?thesis by blast
qed

lemma order_start:
  "rev (scStack (Scraper_start jobs w)) =
     map (\<lambda>j. \<lparr>dJob = j, dPath = ''/'', dRetryCounter = 0\<rparr>) [0..<length jobs]"
proof -
  let ?dir = "\<lambda>j. \<lparr>dJob = j, dPath = ''/'', dRetryCounter = 0\<rparr>"
  have "foldl (\<lambda>stack idx. stack_Push stack (?dir (n - idx - 1))) s ks =
      foldl stack_Push s (map (\<lambda>idx. ?dir (n - idx - 1)) ks)" for n s ks
    by (induction ks arbitrary: s) simp_all
  then have "rev (scStack (Scraper_start jobs w)) = rev (map (\<lambda>idx. ?dir (length jobs - idx - 1)) [0..<length jobs])"
    by (simp add: Scraper_start_def ds.order_foldl_push)
  also have "\<dots> = map ?dir [0..<length jobs]"
    by (rule nth_equalityI) (auto simp: rev_nth)
  finally show ?thesis .
qed

end
