(* ===== verification/ScraperProps.thy ===== *)
theory ScraperProps
  imports Scraper
begin

text \<open>
  The properties of the scraper: what it sends is included by its job, a job whose scraping is not
  marked incomplete was enumerated completely, directories are tried three times, and sources that
  list all their files at once are enumerated in the order of the jobs.
\<close>

section \<open>Handling a list of entries\<close>

definition accepted :: "('w, 'r) Job list \<Rightarrow> nat \<Rightarrow> FileSpec \<Rightarrow> bool" where
  "accepted jobs j fs \<longleftrightarrow> CheckFile (jbMatcher (jobs ! j)) fs = None"

definition newDirs :: "('w, 'r) Job list \<Rightarrow> nat \<Rightarrow> FileSpec list \<Rightarrow> Directory list" where
  "newDirs jobs j es =
     map (\<lambda>fs. \<lparr>dJob = j, dPath = Path fs, dRetryCounter = 0\<rparr>) (filter (\<lambda>fs. accepted jobs j fs \<and> IsDirectory fs) es)"

definition newFiles :: "('w, 'r) Job list \<Rightarrow> nat \<Rightarrow> FileSpec list \<Rightarrow> (nat \<times> FileSpec) list" where
  "newFiles jobs j es = map (Pair j) (filter (\<lambda>fs. accepted jobs j fs \<and> \<not> IsDirectory fs) es)"

definition handled :: "('w, 'r) Job list \<Rightarrow> nat \<Rightarrow> FileSpec list \<Rightarrow> 'w scraper \<Rightarrow> 'w scraper" where
  "handled jobs j es st =
     st\<lparr>scStack := foldl stack_Push (scStack st) (newDirs jobs j es),
        scOutput := scOutput st @ newFiles jobs j es\<rparr>"

lemma fold_handleFileSpec: "fold (handleFileSpec jobs j) es st = handled jobs j es st"
  by (induction es arbitrary: st)
    (auto simp: handled_def newDirs_def newFiles_def accepted_def handleFileSpec_def split: option.split)

lemma handled_handled: "handled jobs j fs ((handled jobs j es st)\<lparr>scWorld := w\<rparr>) = handled jobs j (es @ fs) (st\<lparr>scWorld := w\<rparr>)"
  by (simp add: handled_def newDirs_def newFiles_def)

lemma handled_sel [simp]:
  "scWorld (handled jobs j es st) = scWorld st" "scReport (handled jobs j es st) = scReport st"
  "scIncomplete (handled jobs j es st) = scIncomplete st"
  "scOutput (handled jobs j es st) = scOutput st @ newFiles jobs j es"
  "set (scStack (handled jobs j es st)) = set (scStack st) \<union> set (newDirs jobs j es)"
proof -
  have "set (foldl stack_Push s ds) = set s \<union> set ds" for s ds
    using ds.order_foldl_push[of s ds] by (metis set_append set_rev sup_commute)
  then show "set (scStack (handled jobs j es st)) = set (scStack st) \<union> set (newDirs jobs j es)"
    by (simp add: handled_def)
qed (simp_all add: handled_def)

section \<open>Sources\<close>

text \<open>
  A source is stable if its listings do not change: \<open>ents p\<close> are the entries of the directory \<open>p\<close>,
  whenever listing it succeeds, and those of the root are all files where that is supported.
\<close>

definition stable_source :: "('w, 'r) Source \<Rightarrow> (string \<Rightarrow> FileSpec list) \<Rightarrow> bool" where
  "stable_source src ents \<longleftrightarrow>
     (\<forall>w w' fs. srcListAllFiles src w = (w', fs, None) \<longrightarrow> fs = ents ''/'') \<and>
     (\<forall>p w w' fs. srcListEntries src p w = (w', Inr fs) \<longrightarrow> fs = ents p)"

lemma listDirectory_cases:
  assumes "listDirectory jobs d st = (st', err)"
  shows "\<exists>es w. st' = handled jobs (dJob d) es (st\<lparr>scWorld := w\<rparr>) \<and>
    (stable_source (jbSource (jobs ! dJob d)) ents \<longrightarrow> err = None \<longrightarrow> set (ents (dPath d)) \<subseteq> set es)"
proof -
  let ?src = "jbSource (jobs ! dJob d)"
  have one: "\<exists>es w. t' = handled jobs (dJob d) es (t\<lparr>scWorld := w\<rparr>) \<and>
      (stable_source ?src ents \<longrightarrow> e = None \<longrightarrow> set (ents (dPath d)) \<subseteq> set es)"
    if "listEntries jobs d t = (t', e)" for t t' e
  proof (cases "srcListEntries ?src (dPath d) (scWorld t)")
    case (Pair w r)
    show ?thesis
    proof (cases r)
      case (Inl x)
      with that Pair show ?thesis
        by (intro exI[of _ "[]"] exI[of _ w]) (auto simp: listEntries_def handled_def newDirs_def newFiles_def)
    next
      case (Inr fs)
      with that Pair show ?thesis
        by (intro exI[of _ fs] exI[of _ w])
          (auto simp: listEntries_def fold_handleFileSpec stable_source_def)
    qed
  qed
  show ?thesis
  proof (cases "dPath d = ''/''")
    case False
    with assms one show ?thesis by (simp add: listDirectory_def)
  next
    case True
    obtain w fs e where all: "srcListAllFiles ?src (scWorld st) = (w, fs, e)" by (metis prod_cases3)
    let ?t = "handled jobs (dJob d) fs (st\<lparr>scWorld := w\<rparr>)"
    show ?thesis
    proof (cases "e = Some ErrListAllFilesNotSupported")
      case False
      with assms True all show ?thesis
        by (intro exI[of _ fs] exI[of _ w])
          (auto simp: listDirectory_def fold_handleFileSpec Let_def stable_source_def)
    next
      case unsup: True
      with assms True all have "listEntries jobs d ?t = (st', err)"
        by (simp add: listDirectory_def fold_handleFileSpec Let_def)
      from one[OF this] obtain es w' where
        st': "st' = handled jobs (dJob d) es (?t\<lparr>scWorld := w'\<rparr>)"
        and sub: "stable_source ?src ents \<longrightarrow> err = None \<longrightarrow> set (ents (dPath d)) \<subseteq> set es" by blast
      show ?thesis
        using st' sub by (intro exI[of _ "fs @ es"] exI[of _ w']) (auto simp: handled_handled)
    qed
  qed
qed

text \<open>One step of the loop, in the terms of \<open>handled\<close>.\<close>

lemma scrapeNext_cases:
  assumes "\<not> stack_IsEmpty (scStack st)"
  shows "\<exists>stack d es w err. stack_Pop (scStack st) = (stack, d) \<and>
    set (scStack st) = insert d (set stack) \<and>
    scrapeNext jobs st = finishDirectory d err (handled jobs (dJob d) es (st\<lparr>scStack := stack, scWorld := w\<rparr>)) \<and>
    (stable_source (jbSource (jobs ! dJob d)) ents \<longrightarrow> err = None \<longrightarrow> set (ents (dPath d)) \<subseteq> set es)"
proof -
  obtain stack d where pop: "stack_Pop (scStack st) = (stack, d)" by fastforce
  then have set: "set (scStack st) = insert d (set stack)"
    using ds.set_order_pop[OF assms pop] by simp
  obtain st' err where ld: "listDirectory jobs d (st\<lparr>scStack := stack\<rparr>) = (st', err)" by fastforce
  from listDirectory_cases[OF ld, of ents] pop set ld show ?thesis
    unfolding scrapeNext_def by auto
qed

section \<open>Soundness\<close>

definition trouble :: "ReportEvent \<Rightarrow> bool" where
  "trouble ev \<longleftrightarrow> (evIsDirectory ev \<and> DirectoryFailed ev) \<or> ev = jobSkippedEvent"

definition scraper_ok :: "('w, 'r) Job list \<Rightarrow> 'w scraper \<Rightarrow> bool" where
  "scraper_ok jobs st \<longleftrightarrow>
     (\<forall>d\<in>set (scStack st). dJob d < length jobs \<and> dRetryCounter d \<le> 2) \<and>
     (\<forall>(j, fs)\<in>set (scOutput st). j < length jobs \<and> accepted jobs j fs \<and> \<not> IsDirectory fs) \<and>
     (\<forall>j\<in>scIncomplete st. j < length jobs) \<and>
     (scIncomplete st \<noteq> {} \<longleftrightarrow> (\<exists>ev\<in>set (scReport st). trouble ev))"

lemma trouble_simps [simp]: "trouble jobSkippedEvent" "trouble (directoryEvent b) = b"
  by (auto simp: trouble_def) (simp add: event_defs)

lemma scraper_ok_start: "scraper_ok jobs (Scraper_start jobs w)"
proof -
  have "set (scStack (Scraper_start jobs w)) = set (rev (scStack (Scraper_start jobs w)))" by simp
  then have "\<forall>d\<in>set (scStack (Scraper_start jobs w)). dJob d < length jobs \<and> dRetryCounter d \<le> 2"
    unfolding order_start by auto
  then show ?thesis by (simp add: scraper_ok_def) (simp add: Scraper_start_def)
qed

lemma handled_ok:
  assumes "scraper_ok jobs st" "j < length jobs"
  shows "scraper_ok jobs (handled jobs j es st)"
  using assms by (auto simp: scraper_ok_def newDirs_def newFiles_def)

lemma finishDirectory_ok:
  assumes "scraper_ok jobs st" "dJob d < length jobs" "dRetryCounter d \<le> 2"
  shows "scraper_ok jobs (finishDirectory d err st)"
  using assms by (auto simp: scraper_ok_def finishDirectory_def stack_PushBack_def split: option.split)

lemma scrapeNext_ok:
  assumes "scraper_ok jobs st" "\<not> stack_IsEmpty (scStack st)"
  shows "scraper_ok jobs (scrapeNext jobs st)"
proof -
  from scrapeNext_cases[OF assms(2), of jobs "\<lambda>p. []"] obtain stack d es w err where
    set: "set (scStack st) = insert d (set stack)"
    and step: "scrapeNext jobs st =
      finishDirectory d err (handled jobs (dJob d) es (st\<lparr>scStack := stack, scWorld := w\<rparr>))" by blast
  from assms(1) set have d: "dJob d < length jobs" "dRetryCounter d \<le> 2"
    and ok: "scraper_ok jobs (st\<lparr>scStack := stack, scWorld := w\<rparr>)"
    by (auto simp: scraper_ok_def)
  show ?thesis unfolding step by (rule finishDirectory_ok[OF handled_ok[OF ok d(1)] d])
qed

lemma Scraper_Run_ok:
  assumes "Scraper_Run jobs cancelled w = Some st"
  shows "scraper_ok jobs st" "stack_IsEmpty (scStack st) \<or> cancelled (scWorld st)"
proof -
  have "scraper_ok jobs st \<and> (stack_IsEmpty (scStack st) \<or> cancelled (scWorld st))"
    using assms[unfolded Scraper_Run_def]
    by (rule Scraper_loop_rule[where I = "scraper_ok jobs"]) (auto intro: scraper_ok_start scrapeNext_ok)
  then show "scraper_ok jobs st" "stack_IsEmpty (scStack st) \<or> cancelled (scWorld st)" by auto
qed

section \<open>Completeness\<close>

inductive listed_dir :: "(FileSpec \<Rightarrow> bool) \<Rightarrow> (string \<Rightarrow> FileSpec list) \<Rightarrow> string \<Rightarrow> bool"
  for acc :: "FileSpec \<Rightarrow> bool" and ents :: "string \<Rightarrow> FileSpec list" where
  root: "listed_dir acc ents ''/''"
| sub: "listed_dir acc ents p \<Longrightarrow> fs \<in> set (ents p) \<Longrightarrow> acc fs \<Longrightarrow> IsDirectory fs \<Longrightarrow> listed_dir acc ents (Path fs)"

definition listed_file :: "(FileSpec \<Rightarrow> bool) \<Rightarrow> (string \<Rightarrow> FileSpec list) \<Rightarrow> FileSpec \<Rightarrow> bool" where
  "listed_file acc ents fs \<longleftrightarrow> (\<exists>p. listed_dir acc ents p \<and> fs \<in> set (ents p)) \<and> acc fs \<and> \<not> IsDirectory fs"

text \<open>
  The invariant for a job \<open>j\<close>: there is a set \<open>V\<close> of directories that have been listed, whose files
  have been sent and whose subdirectories are in \<open>V\<close> or still on the stack.
\<close>

definition pending :: "nat \<Rightarrow> 'w scraper \<Rightarrow> string set" where
  "pending j st = dPath ` {d \<in> set (scStack st). dJob d = j}"

definition covered :: "(FileSpec \<Rightarrow> bool) \<Rightarrow> (string \<Rightarrow> FileSpec list) \<Rightarrow> nat \<Rightarrow> string set \<Rightarrow> 'w scraper \<Rightarrow> bool" where
  "covered acc ents j V st \<longleftrightarrow>
     ''/'' \<in> V \<union> pending j st \<and>
     (\<forall>p\<in>V. \<forall>fs\<in>set (ents p). acc fs \<longrightarrow>
        (if IsDirectory fs then Path fs \<in> V \<union> pending j st else (j, fs) \<in> set (scOutput st)))"

definition on_track :: "('w, 'r) Job list \<Rightarrow> (string \<Rightarrow> FileSpec list) \<Rightarrow> nat \<Rightarrow> 'w scraper \<Rightarrow> bool" where
  "on_track jobs ents j st \<longleftrightarrow>
     j \<in> scIncomplete st \<or> (\<exists>V. covered (accepted jobs j) ents j V st)"

lemma pending_handled [simp]:
  "pending j (handled jobs k es st) = pending j st \<union> (if j = k then dPath ` set (newDirs jobs k es) else {})"
  by (auto simp: pending_def newDirs_def)

lemma pending_updates [simp]:
  "pending j (st\<lparr>scWorld := w\<rparr>) = pending j st" "pending j (st\<lparr>scReport := r\<rparr>) = pending j st"
  "pending j (st\<lparr>scIncomplete := x\<rparr>) = pending j st"
  by (simp_all add: pending_def)

lemma pending_pop:
  "set (scStack st) = insert d (set stack) \<Longrightarrow>
     pending j st = pending j (st\<lparr>scStack := stack\<rparr>) \<union> (if dJob d = j then {dPath d} else {})"
  by (auto simp: pending_def)

lemma covered_mono:
  assumes "covered acc ents j V st" "set (scOutput st) \<subseteq> set (scOutput st')"
    and "pending j st \<subseteq> V' \<union> pending j st'" "V \<subseteq> V'"
    and "\<forall>p\<in>V' - V. \<forall>fs\<in>set (ents p). acc fs \<longrightarrow>
      (if IsDirectory fs then Path fs \<in> V' \<union> pending j st' else (j, fs) \<in> set (scOutput st'))"
  shows "covered acc ents j V' st'"
proof -
  have sub: "V \<union> pending j st \<subseteq> V' \<union> pending j st'" using assms(3,4) by blast
  have "if IsDirectory fs then Path fs \<in> V' \<union> pending j st' else (j, fs) \<in> set (scOutput st')"
    if "p \<in> V'" "fs \<in> set (ents p)" "acc fs" for p fs
  proof (cases "p \<in> V")
    case True
    with that assms(1) have "if IsDirectory fs then Path fs \<in> V \<union> pending j st else (j, fs) \<in> set (scOutput st)"
      unfolding covered_def by blast
    with subsetD[OF sub] subsetD[OF assms(2)] show ?thesis by (cases "IsDirectory fs") simp_all
  next
    case False
    with that assms(5) show ?thesis by blast
  qed
  moreover have "''/'' \<in> V' \<union> pending j st'" using assms(1) subsetD[OF sub] unfolding covered_def by blast
  ultimately show ?thesis unfolding covered_def by blast
qed

text \<open>A step without a failure for job \<open>j\<close> keeps it on track.\<close>

lemma scrapeNext_on_track:
  assumes "on_track jobs ents j st" "\<not> stack_IsEmpty (scStack st)"
    and stable: "stable_source (jbSource (jobs ! j)) ents"
  shows "on_track jobs ents j (scrapeNext jobs st)"
proof -
  from scrapeNext_cases[OF assms(2), of jobs ents] obtain stack d es w err where
    set: "set (scStack st) = insert d (set stack)"
    and step: "scrapeNext jobs st =
      finishDirectory d err (handled jobs (dJob d) es (st\<lparr>scStack := stack, scWorld := w\<rparr>))"
    and sub: "stable_source (jbSource (jobs ! dJob d)) ents \<longrightarrow> err = None \<longrightarrow> set (ents (dPath d)) \<subseteq> set es" by blast
  let ?st = "handled jobs (dJob d) es (st\<lparr>scStack := stack, scWorld := w\<rparr>)"
  have keep: "scOutput (finishDirectory d err ?st) = scOutput ?st"
    "scIncomplete st \<subseteq> scIncomplete (finishDirectory d err ?st)"
    by (auto simp: finishDirectory_def split: option.split)
  have pend: "pending k ?st \<subseteq> pending k (finishDirectory d err ?st)" for k
    by (auto simp: finishDirectory_def pending_def stack_PushBack_def split: option.split)
  have out: "set (scOutput st) \<subseteq> set (scOutput (finishDirectory d err ?st))" by (auto simp: keep)
  have pst: "pending j st \<subseteq> pending j (finishDirectory d err ?st) \<union> (if dJob d = j then {dPath d} else {})"
    using pend[of j] pending_pop[OF set, of j] by auto
  show ?thesis
  proof (cases "j \<in> scIncomplete (finishDirectory d err ?st)")
    case True
    then show ?thesis by (simp add: on_track_def step)
  next
    case False
    with keep assms(1) obtain V where cov: "covered (accepted jobs j) ents j V st"
      by (auto simp: on_track_def)
    have "covered (accepted jobs j) ents j (if dJob d = j \<and> err = None then insert (dPath d) V else V) (finishDirectory d err ?st)"
    proof (rule covered_mono[OF cov out])
      show "pending j st \<subseteq> (if dJob d = j \<and> err = None then insert (dPath d) V else V) \<union> pending j (finishDirectory d err ?st)"
      proof (cases "dJob d = j \<and> err \<noteq> None")
        case True
        with False have "dPath d \<in> pending j (finishDirectory d err ?st)"
          by (auto simp: finishDirectory_def pending_def stack_PushBack_def split: if_splits
              intro!: image_eqI[of _ dPath "d\<lparr>dRetryCounter := Suc (dRetryCounter d)\<rparr>"])
        with pst show ?thesis by (auto split: if_splits)
      qed (use pst in \<open>auto split: if_splits\<close>)
      show "\<forall>p\<in>(if dJob d = j \<and> err = None then insert (dPath d) V else V) - V. \<forall>fs\<in>set (ents p). accepted jobs j fs \<longrightarrow>
        (if IsDirectory fs
         then Path fs \<in> (if dJob d = j \<and> err = None then insert (dPath d) V else V) \<union> pending j (finishDirectory d err ?st)
         else (j, fs) \<in> set (scOutput (finishDirectory d err ?st)))"
      proof (cases "dJob d = j \<and> err = None")
        case True
        with sub stable have es: "set (ents (dPath d)) \<subseteq> set es" by blast
        have dir: "Path fs \<in> pending j (finishDirectory d err ?st)"
          if "fs \<in> set (ents (dPath d))" "accepted jobs j fs" "IsDirectory fs" for fs
        proof -
          have "Path fs \<in> pending j ?st" using that es True by (auto simp: newDirs_def image_iff)
          with pend show ?thesis by blast
        qed
        have sent: "(j, fs) \<in> set (scOutput (finishDirectory d err ?st))"
          if "fs \<in> set (ents (dPath d))" "accepted jobs j fs" "\<not> IsDirectory fs" for fs
          unfolding keep(1) using that es True by (auto simp: newFiles_def)
        show ?thesis using True dir sent by (auto simp del: pending_handled)
      qed auto
    qed auto
    then show ?thesis by (auto simp: on_track_def step)
  qed
qed

lemma on_track_start:
  assumes "j < length jobs"
  shows "on_track jobs ents j (Scraper_start jobs w)"
proof -
  have "set (scStack (Scraper_start jobs w)) = set (rev (scStack (Scraper_start jobs w)))" by simp
  then have "\<lparr>dJob = j, dPath = ''/'', dRetryCounter = 0\<rparr> \<in> set (scStack (Scraper_start jobs w))"
    using assms unfolding order_start by auto
  then have "''/'' \<in> pending j (Scraper_start jobs w)" by (force simp: pending_def)
  then have "covered (accepted jobs j) ents j {} (Scraper_start jobs w)" by (simp add: covered_def)
  then show ?thesis by (auto simp: on_track_def)
qed

lemma covered_complete:
  assumes cov: "covered acc ents j V st" and empty: "stack_IsEmpty (scStack st)" and "listed_file acc ents fs"
  shows "(j, fs) \<in> set (scOutput st)"
proof -
  have "pending j st = {}" using empty by (simp add: pending_def stack_IsEmpty_def)
  with cov have root: "''/'' \<in> V"
    and step: "\<And>p fs. p \<in> V \<Longrightarrow> fs \<in> set (ents p) \<Longrightarrow> acc fs \<Longrightarrow>
      (if IsDirectory fs then Path fs \<in> V else (j, fs) \<in> set (scOutput st))"
    unfolding covered_def by (simp, metis Un_empty_right)
  have "p \<in> V" if "listed_dir acc ents p" for p
    using that
  proof induction
    case (sub p fs)
    with step[of p fs] show ?case by simp
  qed (rule root)
  with assms(3) step show ?thesis unfolding listed_file_def by force
qed

lemma Scraper_Run_on_track:
  assumes "Scraper_Run jobs cancelled w = Some st" "j < length jobs" "stable_source (jbSource (jobs ! j)) ents"
  shows "on_track jobs ents j st"
  using Scraper_loop_rule[where I = "on_track jobs ents j", OF assms(1)[unfolded Scraper_Run_def]
      on_track_start[OF assms(2)] scrapeNext_on_track[OF _ _ assms(3)]] by blast

lemma Scraper_Run_complete:
  assumes "Scraper_Run jobs cancelled w = Some st" "j < length jobs" "stable_source (jbSource (jobs ! j)) ents"
    and "j \<notin> scIncomplete st" "\<not> cancelled (scWorld st)"
    and "listed_file (accepted jobs j) ents fs"
  shows "(j, fs) \<in> set (scOutput st)"
proof -
  from Scraper_Run_on_track[OF assms(1-3)] assms(4) obtain V where
    cov: "covered (accepted jobs j) ents j V st" by (auto simp: on_track_def)
  have "stack_IsEmpty (scStack st)" using Scraper_Run_ok(2)[OF assms(1)] assms(5) by blast
  then show ?thesis by (rule covered_complete[OF cov _ assms(6)])
qed

end
