(* ===== verification/FileClaims.thy ===== *)
theory FileClaims
  imports File SwiftStore
begin

text \<open>
  The properties of file transfers. What a transfer does to the target is observed by a log:
  \<open>logged sw\<close> is the Swift client \<open>sw\<close> that also writes down each request that changes the target,
  with its outcome.
\<close>

section \<open>The log of a transfer\<close>

datatype 'lo target_write =
    Upload object "goerror option"
  | Symlink object object "goerror option"
  | NewLarge object "goerror option"
  | Append "goerror option"
  | Manifest "goerror option"
  | Delete object

type_synonym ('w, 'lo) logw = "'w \<times> 'lo target_write list"

definition quiet :: "('w \<Rightarrow> 'w \<times> 'a) \<Rightarrow> ('w, 'lo) logw \<Rightarrow> ('w, 'lo) logw \<times> 'a" where
  "quiet f wl = (case f (fst wl) of (w', x) \<Rightarrow> ((w', snd wl), x))"

definition noted :: "('a \<Rightarrow> 'lo target_write) \<Rightarrow> ('w \<Rightarrow> 'w \<times> 'a) \<Rightarrow> ('w, 'lo) logw \<Rightarrow> ('w, 'lo) logw \<times> 'a" where
  "noted ev f wl = (case f (fst wl) of (w', x) \<Rightarrow> ((w', snd wl @ [ev x]), x))"

definition left :: "'e + 'a \<Rightarrow> 'e option" where
  "left r = (case r of Inl e \<Rightarrow> Some e | Inr x \<Rightarrow> None)"

definition logged :: "('w, 'r, 'lo) swift \<Rightarrow> (('w, 'lo) logw, 'r, 'lo) swift" where
  "logged sw =
     \<lparr>swSymlinkSupport = (\<lambda>a. quiet (swSymlinkSupport sw a)),
      swSymlinkHeaders = (\<lambda>obj. quiet (swSymlinkHeaders sw obj)),
      swHeaders = (\<lambda>obj. quiet (swHeaders sw obj)),
      swDownload = (\<lambda>obj h. quiet (swDownload sw obj h)),
      swUpload = (\<lambda>obj r del h. noted (Upload obj) (swUpload sw obj r del h)),
      swSymlinkTo = (\<lambda>obj target del. noted (Symlink obj target) (swSymlinkTo sw obj target del)),
      swAsNewLargeObject = (\<lambda>obj c del. noted (\<lambda>r. NewLarge obj (left r)) (swAsNewLargeObject sw obj c del)),
      swAppend = (\<lambda>lo r seg h. noted Append (swAppend sw lo r seg h)),
      swWriteManifest = (\<lambda>lo h. noted Manifest (swWriteManifest sw lo h)),
      swDelete = (\<lambda>obj del. noted (\<lambda>e. Delete obj) (swDelete sw obj del)),
      swBulkDelete = (\<lambda>a objs. quiet (swBulkDelete sw a objs)),
      swObjects = (\<lambda>c prefix. quiet (swObjects sw c prefix)),
      swEnsureExists = (\<lambda>c. quiet (swEnsureExists sw c)),
      swExpiresAt = swExpiresAt sw,
      swBytesReader = (\<lambda>b. quiet (swBytesReader sw b)),
      swCloseBody = (\<lambda>r wl. (swCloseBody sw r (fst wl), snd wl))\<rparr>"

definition logged_job :: "('w, 'r) Job \<Rightarrow> (('w, 'lo) logw, 'r) Job" where
  "logged_job job =
     \<lparr>jbSource =
        \<lparr>srcListAllFiles = quiet (srcListAllFiles (jbSource job)),
         srcListEntries = (\<lambda>p. quiet (srcListEntries (jbSource job) p)),
         srcGetFile = (\<lambda>p h. quiet (srcGetFile (jbSource job) p h))\<rparr>,
      jbTarget = jbTarget job, jbMatcher = jbMatcher job, jbSegmenting = jbSegmenting job,
      jbExpiration = jbExpiration job, jbCleanup = jbCleanup job\<rparr>"

lemma logged_job_sel [simp]:
  "jbTarget (logged_job job) = jbTarget job" "jbMatcher (logged_job job) = jbMatcher job"
  "jbSegmenting (logged_job job) = jbSegmenting job" "jbExpiration (logged_job job) = jbExpiration job"
  "srcGetFile (jbSource (logged_job job)) p h = quiet (srcGetFile (jbSource job) p h)"
  by (simp_all add: logged_job_def)

lemma logged_job_derived [simp]:
  "TargetObject (logged_job job) spec = TargetObject job spec"
  "immutable (logged_job job) spec = immutable job spec"
  "uploadHeadersFor (logged_job job) st = uploadHeadersFor job st"
  unfolding TargetObject_def immutable_def uploadHeadersFor_def logged_job_sel by (rule refl)+

lemma quiet_pair [simp]: "quiet f (w, l) = (case f w of (w', x) \<Rightarrow> ((w', l), x))"
  by (simp add: quiet_def)

lemma noted_pair [simp]: "noted ev f (w, l) = (case f w of (w', x) \<Rightarrow> ((w', l @ [ev x]), x))"
  by (simp add: noted_def)

text \<open>What one part of a transfer appends to the log.\<close>

definition appends :: "(('w, 'lo) logw \<Rightarrow> ('w, 'lo) logw \<times> 'a) \<Rightarrow> ('w \<Rightarrow> 'w \<times> 'a) \<Rightarrow> 'w \<Rightarrow> 'lo target_write list \<Rightarrow> bool" where
  "appends f g w new \<longleftrightarrow> (\<forall>l. f (w, l) = (case g w of (w', x) \<Rightarrow> ((w', l @ new), x)))"

lemma appendsD: "appends f g w new \<Longrightarrow> f (w, l) = (case g w of (w', x) \<Rightarrow> ((w', l @ new), x))"
  by (simp add: appends_def)

text \<open>The writes of a finished upload of an object, according to its result.\<close>

inductive upload_log :: "object \<Rightarrow> bool \<Rightarrow> 'lo target_write list \<Rightarrow> bool" for obj where
  put_ok: "upload_log obj True [Upload obj None]"
| put_limited: "schwift_is e 498 \<Longrightarrow> upload_log obj False [Upload obj (Some e)]"
| put_failed: "\<not> schwift_is e 498 \<Longrightarrow> upload_log obj False [Upload obj (Some e), Delete obj]"
| large_ok: "upload_log obj True [NewLarge obj None, Append None, Manifest None]"
| large_new: "upload_log obj False [NewLarge obj (Some e), Delete obj]"
| large_append: "upload_log obj False [NewLarge obj None, Append (Some e), Delete obj]"
| large_manifest: "upload_log obj False [NewLarge obj None, Append None, Manifest (Some e), Delete obj]"

text \<open>
  The writes of a transfer, according to its result. The panics are the two of the code: the target does
  not answer the /info query, or the size that the source did not tell is dereferenced after the upload.
\<close>

inductive transfer_log :: "object \<Rightarrow> (TransferResult \<times> u64) outcome \<Rightarrow> 'lo target_write list \<Rightarrow> bool" for obj where
  no_write: "r = Ret (TransferSkipped, 0) \<or> r = Ret (TransferFailed, 0) \<Longrightarrow> transfer_log obj r []"
| no_info: "transfer_log obj (Panic (''query /info on target failed: '' @ m)) []"
| link_ok: "transfer_log obj (Ret (TransferSuccess, 0)) [Symlink obj t None]"
| link_failed: "transfer_log obj (Ret (TransferFailed, 0)) [Symlink obj t (Some e), Delete obj]"
| upload_ok: "upload_log obj True l \<Longrightarrow> transfer_log obj (Ret (TransferSuccess, n)) l"
| upload_unsized: "upload_log obj True l \<Longrightarrow> transfer_log obj (Panic ''nil dereference of size'') l"
| upload_failed: "upload_log obj False l \<Longrightarrow> transfer_log obj (Ret (TransferFailed, 0)) l"

lemmas no_info_simp = no_info [simplified]

lemma logged_cleanup:
  "cleanupFailedUpload (logged sw) obj (w, l) = (cleanupFailedUpload sw obj w, l @ [Delete obj])"
  by (simp add: cleanupFailedUpload_def logged_def split: prod.split)

lemma logged_uploadNormal:
  "\<exists>new. appends (uploadNormalObject (logged sw) (logged_job job) spec body hdr del)
           (uploadNormalObject sw job spec body hdr del) w new \<and>
     upload_log (TargetObject job spec) (snd (uploadNormalObject sw job spec body hdr del w)) new"
proof -
  let ?obj = "TargetObject job spec"
  obtain w' e where up: "swUpload sw ?obj body del hdr w = (w', e)" by fastforce
  have lup: "swUpload (logged sw) ?obj body del hdr (w, l) = ((w', l @ [Upload ?obj e]), e)" for l
    using up by (simp add: logged_def)
  consider "e = None" | x where "e = Some x" "schwift_is x 498" | x where "e = Some x" "\<not> schwift_is x 498"
    by (cases e) auto
  then show ?thesis
  proof cases
    case 1
    with up lup show ?thesis
      by (intro exI[of _ "[Upload ?obj None]"]) (simp add: uploadNormalObject_def appends_def put_ok)
  next
    case 2
    with up lup show ?thesis
      by (intro exI[of _ "[Upload ?obj e]"])
        (simp add: uploadNormalObject_def appends_def StatusSwiftRateLimit_def put_limited)
  next
    case 3
    with up lup show ?thesis
      by (intro exI[of _ "[Upload ?obj e, Delete ?obj]"])
        (simp add: uploadNormalObject_def appends_def StatusSwiftRateLimit_def logged_cleanup Let_def put_failed)
  qed
qed

lemma logged_uploadLarge:
  "\<exists>new. appends (uploadLargeObject (logged sw) (logged_job job) sg spec body hdr del)
           (uploadLargeObject sw job sg spec body hdr del) w new \<and>
     upload_log (TargetObject job spec) (snd (uploadLargeObject sw job sg spec body hdr del w)) new"
proof -
  let ?obj = "TargetObject job spec"
  let ?x = "xDeleteAtHeader sw hdr"
  obtain w1 r where new: "swAsNewLargeObject sw ?obj (sgContainer sg) del w = (w1, r)" by fastforce
  have xs: "xDeleteAtHeader (logged sw) hdr = ?x" by (simp add: xDeleteAtHeader_def logged_def)
  have lnew: "swAsNewLargeObject (logged sw) ?obj (sgContainer sg) del (w, l) = ((w1, l @ [NewLarge ?obj (left r)]), r)" for l
    using new by (simp add: logged_def)
  show ?thesis
  proof (cases r)
    case (Inl e)
    with new lnew show ?thesis
      by (intro exI[of _ "[NewLarge ?obj (Some e), Delete ?obj]"])
        (simp add: uploadLargeObject_def writeLargeObject_def appends_def logged_cleanup left_def Let_def large_new)
  next
    case (Inr lo)
    obtain w2 e where app: "swAppend sw lo body (SegmentSize sg) ?x w1 = (w2, e)" by fastforce
    have lapp: "swAppend (logged sw) lo body (SegmentSize sg) ?x (w1, l) = ((w2, l @ [Append e]), e)" for l
      using app by (simp add: logged_def)
    note eqs = uploadLargeObject_def writeLargeObject_def appends_def logged_cleanup left_def xs Let_def
    show ?thesis
    proof (cases e)
      case (Some x)
      with new lnew Inr app lapp show ?thesis
        by (intro exI[of _ "[NewLarge ?obj None, Append (Some x), Delete ?obj]"]) (simp add: eqs large_append)
    next
      case None
      obtain w3 e' where man: "swWriteManifest sw lo hdr w2 = (w3, e')" by fastforce
      have lman: "swWriteManifest (logged sw) lo hdr (w2, l) = ((w3, l @ [Manifest e']), e')" for l
        using man by (simp add: logged_def)
      show ?thesis
      proof (cases e')
        case None
        with \<open>e = None\<close> new lnew Inr app lapp man lman show ?thesis
          by (intro exI[of _ "[NewLarge ?obj None, Append None, Manifest None]"]) (simp add: eqs large_ok)
      next
        case (Some y)
        with \<open>e = None\<close> new lnew Inr app lapp man lman show ?thesis
          by (intro exI[of _ "[NewLarge ?obj None, Append None, Manifest (Some y), Delete ?obj]"])
            (simp add: eqs large_manifest)
      qed
    qed
  qed
qed

lemma logged_uploadFile:
  "\<exists>new. appends (uploadFile (logged sw) (logged_job job) spec body st large) (uploadFile sw job spec body st large) w new \<and>
     upload_log (TargetObject job spec) (snd (uploadFile sw job spec body st large w)) new"
proof (cases "\<exists>sg sz. jbSegmenting job = Some sg \<and> fsSizeBytes st = Some sz \<and> 0 < sz \<and> MinObjectSize sg \<le> sz")
  case True
  then obtain sg sz where sg: "jbSegmenting job = Some sg" "fsSizeBytes st = Some sz" "0 < sz \<and> MinObjectSize sg \<le> sz"
    by blast
  from logged_uploadLarge[of sw job sg spec body "uploadHeadersFor job st" large w] sg show ?thesis
    by (simp add: uploadFile_def appends_def)
next
  case False
  from logged_uploadNormal[of sw job spec body "uploadHeadersFor job st" large w] False show ?thesis
    by (auto simp: uploadFile_def appends_def split: option.split)
qed

lemma logged_uploadSymlink:
  "\<exists>new. appends (uploadSymlink (logged sw) (logged_job job) spec prev del) (uploadSymlink sw job spec prev del) w new \<and>
     transfer_log (TargetObject job spec) (Ret (snd (uploadSymlink sw job spec prev del w), 0)) new"
proof -
  let ?obj = "TargetObject job spec" and ?t = "ObjectAtPath (jbTarget job) (SymlinkTargetPath spec)"
  obtain w' e where sl: "swSymlinkTo sw ?obj ?t del w = (w', e)" by fastforce
  have lsl: "swSymlinkTo (logged sw) ?obj ?t del (w, l) = ((w', l @ [Symlink ?obj ?t e]), e)" for l
    using sl by (simp add: logged_def)
  consider "prev = Some ?t" | "prev \<noteq> Some ?t" "e = None" | x where "prev \<noteq> Some ?t" "e = Some x" by (cases e) auto
  then show ?thesis
  proof cases
    case 1
    then show ?thesis by (intro exI[of _ "[]"]) (simp add: uploadSymlink_def appends_def no_write)
  next
    case 2
    with sl lsl show ?thesis
      by (intro exI[of _ "[Symlink ?obj ?t None]"]) (simp add: uploadSymlink_def appends_def link_ok)
  next
    case 3
    with sl lsl show ?thesis
      by (intro exI[of _ "[Symlink ?obj ?t e, Delete ?obj]"])
        (simp add: uploadSymlink_def appends_def logged_cleanup Let_def link_failed)
  qed
qed

lemma logged_getContents:
  "appends (getContents (logged sw) pt (logged_job job) spec h) (getContents sw pt job spec h) w []"
proof -
  have "swBytesReader (logged sw) b = quiet (swBytesReader sw b)" for b by (simp add: logged_def)
  then show ?thesis
    by (auto simp: appends_def getContents_def split: option.split sum.split prod.split)
qed

lemma logged_closeBody: "closeBody (logged sw) body (w, l) = (closeBody sw body w, l)"
  by (simp add: closeBody_def logged_def split: option.split)

lemma logged_transferContents:
  "\<exists>new. appends (transferContents (logged sw) pt (logged_job job) spec hdr) (transferContents sw pt job spec hdr) w new \<and>
     transfer_log (TargetObject job spec) (snd (transferContents sw pt job spec hdr w)) new"
proof -
  let ?h = "requestHeadersFor (jbMatcher job) hdr"
  obtain w1 r where get: "getContents sw pt job spec ?h w = (w1, r)" by fastforce
  have lget: "getContents (logged sw) pt (logged_job job) spec ?h (w, l) = ((w1, l), r)" for l
    using appendsD[OF logged_getContents, of sw pt job spec ?h w l] get by simp
  show ?thesis
  proof (cases r)
    case (Inl e)
    with get lget show ?thesis by (intro exI[of _ "[]"]) (simp add: appends_def transferContents_def no_write)
  next
    case (Inr bs)
    obtain body st where bs: "bs = (body, st)" by fastforce
    show ?thesis
    proof (cases "fsSkipTransfer st")
      case True
      with get lget Inr bs show ?thesis
        by (intro exI[of _ "[]"]) (simp add: appends_def transferContents_def logged_closeBody no_write)
    next
      case False
      obtain w2 ok where up: "uploadFile sw job spec body st (isLargeObject hdr) w1 = (w2, ok)" by fastforce
      from logged_uploadFile[of sw job spec body st "isLargeObject hdr" w1] up obtain new where
        new: "\<And>l. uploadFile (logged sw) (logged_job job) spec body st (isLargeObject hdr) (w1, l) = ((w2, l @ new), ok)"
        and log: "upload_log (TargetObject job spec) ok new" by (auto simp: appends_def)
      have "appends (transferContents (logged sw) pt (logged_job job) spec hdr) (transferContents sw pt job spec hdr) w new"
        using get lget Inr bs False up new by (simp add: appends_def transferContents_def logged_closeBody)
      moreover have "transfer_log (TargetObject job spec) (snd (transferContents sw pt job spec hdr w)) new"
        using get Inr bs False up log
        by (cases ok; cases "fsSizeBytes st") (auto simp: transferContents_def intro: transfer_log.intros)
      ultimately show ?thesis by blast
    qed
  qed
qed

lemma symlinkSpec_Path [simp]: "Path (symlinkSpec b m spec) = Path spec"
  by (simp add: symlinkSpec_def Let_def)

lemma TargetObject_symlinkSpec [simp]: "TargetObject job (symlinkSpec b m spec) = TargetObject job spec"
  by (simp add: TargetObject_def)

lemma logged_PerformTransfer:
  "\<exists>new. appends (PerformTransfer (logged sw) pt (logged_job job) spec) (PerformTransfer sw pt job spec) w new \<and>
     transfer_log (TargetObject job spec) (snd (PerformTransfer sw pt job spec w)) new"
proof (cases "immutable job spec")
  case True
  then show ?thesis by (intro exI[of _ "[]"]) (simp add: appends_def PerformTransfer_def no_write)
next
  case False
  let ?a = "cnAccount (the (Container (jbTarget job)))"
  obtain w1 r where sup: "swSymlinkSupport sw ?a w = (w1, r)" by fastforce
  have lsup: "swSymlinkSupport (logged sw) ?a (w, l) = ((w1, l), r)" for l using sup by (simp add: logged_def)
  show ?thesis
  proof (cases r)
    case (Inl e)
    with False sup lsup show ?thesis by (intro exI[of _ "[]"]) (simp add: appends_def PerformTransfer_def no_info_simp)
  next
    case (Inr supported)
    let ?spec = "symlinkSpec supported (jbMatcher job) spec" and ?obj = "TargetObject job spec"
    obtain w2 hr where head: "swSymlinkHeaders sw ?obj w1 = (w2, hr)" by fastforce
    have lhead: "swSymlinkHeaders (logged sw) ?obj (w1, l) = ((w2, l), hr)" for l using head by (simp add: logged_def)
    have on_headers: ?thesis
      if "(case hr of Inl e \<Rightarrow> if schwift_is e StatusNotFound then Some (Map.empty, None) else None
                    | Inr hc \<Rightarrow> Some hc) = Some (hdr, cur)" for hdr cur
    proof (cases "SymlinkTargetPath ?spec = []")
      case True
      with logged_transferContents[of sw pt job ?spec hdr w2] False sup lsup Inr head lhead that show ?thesis
        by (auto simp: appends_def PerformTransfer_def Let_def split: sum.splits if_splits)
    next
      case sym: False
      from logged_uploadSymlink[of sw job ?spec cur "isLargeObject hdr" w2] obtain new where
        "appends (uploadSymlink (logged sw) (logged_job job) ?spec cur (isLargeObject hdr))
           (uploadSymlink sw job ?spec cur (isLargeObject hdr)) w2 new"
        "transfer_log ?obj (Ret (snd (uploadSymlink sw job ?spec cur (isLargeObject hdr) w2), 0)) new"
        by auto
      with sym False sup lsup Inr head lhead that show ?thesis
        by (intro exI[of _ new])
          (auto simp: appends_def PerformTransfer_def Let_def split: sum.splits if_splits prod.split)
    qed
    show ?thesis
    proof (cases "\<exists>e. hr = Inl e \<and> \<not> schwift_is e StatusNotFound")
      case True
      with False sup lsup Inr head lhead show ?thesis
        by (intro exI[of _ "[]"]) (auto simp: appends_def PerformTransfer_def Let_def no_write)
    next
      case False
      then show ?thesis
        by (cases hr) (auto intro!: on_headers[of Map.empty None] on_headers split: sum.splits)
    qed
  qed
qed

text \<open>
  What the result of a transfer says about its requests: the last request of an upload, which makes the
  file appear at the target, and the failures that leave something to delete. Only a PUT that was refused
  with the rate limit is known to have left nothing.
\<close>

fun completes :: "'lo target_write \<Rightarrow> bool" where
  "completes (Upload obj None) = True"
| "completes (Symlink obj target None) = True"
| "completes (Manifest None) = True"
| "completes _ = False"

fun leaves_rest :: "'lo target_write \<Rightarrow> bool" where
  "leaves_rest (Upload obj (Some e)) = (\<not> schwift_is e StatusSwiftRateLimit)"
| "leaves_rest (Symlink obj target (Some e)) = True"
| "leaves_rest (NewLarge obj (Some e)) = True"
| "leaves_rest (Append (Some e)) = True"
| "leaves_rest (Manifest (Some e)) = True"
| "leaves_rest _ = False"

inductive_cases upload_succeeds: "upload_log obj True l"
inductive_cases upload_fails: "upload_log obj False l"
inductive_cases transfer_skips: "transfer_log obj (Ret (TransferSkipped, n)) l"

lemma skipped_transfer_silent: "transfer_log obj (Ret (TransferSkipped, n)) l \<Longrightarrow> l = []"
  by (elim transfer_skips) auto

lemma upload_log_completes: "upload_log obj ok l \<Longrightarrow> (\<exists>x\<in>set l. completes x) = ok"
  by (induction rule: upload_log.induct) simp_all

lemma upload_log_deletes: "upload_log obj ok l \<Longrightarrow> Delete obj' \<in> set l \<longleftrightarrow> obj' = obj \<and> (\<exists>x\<in>set l. leaves_rest x)"
  by (induction rule: upload_log.induct) (auto simp: StatusSwiftRateLimit_def)

definition went_through :: "(TransferResult \<times> u64) outcome \<Rightarrow> bool" where
  "went_through r = (case r of Ret (x, n) \<Rightarrow> x = TransferSuccess | Panic m \<Rightarrow> m = ''nil dereference of size'')"

lemma transfer_log_completes: "transfer_log obj r l \<Longrightarrow> (\<exists>x\<in>set l. completes x) = went_through r"
  by (induction rule: transfer_log.induct) (auto simp: went_through_def upload_log_completes)

lemma transfer_log_deletes:
  "transfer_log obj r l \<Longrightarrow> Delete obj' \<in> set l \<longleftrightarrow> obj' = obj \<and> (\<exists>x\<in>set l. leaves_rest x)"
  by (induction rule: transfer_log.induct) (simp_all add: upload_log_deletes)

section \<open>Properties\<close>

text \<open>C8: what a transfer writes. With any source and any Swift server, a transfer changes nothing but the
  target object of its file (and the segments of a large object): it is skipped, fails or panics early
  without any write, or makes one upload (one PUT, one symlink, or one large object made of its segments
  and then its manifest). That upload went through exactly if the result is success, or the panic at the
  size that the source has not told. The target object is deleted exactly if a request of the upload
  failed, any of them, except that a PUT which was refused with the rate limit 498 is not followed by a
  DELETE. Nothing else is ever deleted. (The log adds nothing: the result and the state of the world are
  those of the transfer itself.)\<close>

theorem transfer_writes:
  "\<exists>log. PerformTransfer (logged sw) pt (logged_job job) spec (w, []) =
      ((fst (PerformTransfer sw pt job spec w), log), snd (PerformTransfer sw pt job spec w)) \<and>
    transfer_log (TargetObject job spec) (snd (PerformTransfer sw pt job spec w)) log \<and>
    ((\<exists>x\<in>set log. completes x) \<longleftrightarrow>
       (\<exists>n. snd (PerformTransfer sw pt job spec w) = Ret (TransferSuccess, n)) \<or>
       snd (PerformTransfer sw pt job spec w) = Panic ''nil dereference of size'') \<and>
    (\<forall>obj. Delete obj \<in> set log \<longleftrightarrow> obj = TargetObject job spec \<and> (\<exists>x\<in>set log. leaves_rest x))"
proof -
  from logged_PerformTransfer[of sw pt job spec w] obtain new where
    new: "appends (PerformTransfer (logged sw) pt (logged_job job) spec) (PerformTransfer sw pt job spec) w new"
    and log: "transfer_log (TargetObject job spec) (snd (PerformTransfer sw pt job spec w)) new" by blast
  have "went_through r \<longleftrightarrow> (\<exists>n. r = Ret (TransferSuccess, n)) \<or> r = Panic ''nil dereference of size''" for r
    by (auto simp: went_through_def split: outcome.splits prod.splits)
  with appendsD[OF new, of "[]"] log transfer_log_completes[OF log] transfer_log_deletes[OF log] show ?thesis
    by (intro exI[of _ new]) (simp split: prod.split)
qed

section \<open>Repeated transfers\<close>

lemma canonical_keys [simp]:
  "canonicalKey ''If-None-Match'' \<noteq> canonicalKey ''If-Modified-Since''"
  "canonicalKey ''X-Object-Meta-Source-Last-Modified'' \<noteq> canonicalKey ''X-Object-Meta-Source-Etag''"
  "canonicalKey ''X-Delete-At'' \<noteq> canonicalKey ''X-Object-Meta-Source-Etag''"
  "canonicalKey ''X-Delete-At'' \<noteq> canonicalKey ''X-Object-Meta-Source-Last-Modified''"
  "canonicalKey ''Content-Type'' \<noteq> canonicalKey ''X-Object-Meta-Source-Etag''"
  "canonicalKey ''Content-Type'' \<noteq> canonicalKey ''X-Object-Meta-Source-Last-Modified''"
  by (rule canonicalKey_neq, simp)+

lemma metadata_keys:
  "metadata_get h ''Source-Etag'' = headers_get h ''X-Object-Meta-Source-Etag''"
  "metadata_get h ''Source-Last-Modified'' = headers_get h ''X-Object-Meta-Source-Last-Modified''"
  "metadata_set h ''Source-Etag'' v = headers_set h ''X-Object-Meta-Source-Etag'' v"
  "metadata_set h ''Source-Last-Modified'' v = headers_set h ''X-Object-Meta-Source-Last-Modified'' v"
  by (simp_all add: metadata_get_def metadata_set_def)

text \<open>The state of the source is kept in the metadata of the target.\<close>

lemma uploadHeaders_metadata:
  "metadata_get (uploadHeadersFor job st) ''Source-Etag'' = fsEtag st"
  "metadata_get (uploadHeadersFor job st) ''Source-Last-Modified'' = fsLastModified st"
  unfolding metadata_keys
  by (simp_all only: uploadHeadersFor_def metadata_keys expiresAt_set_def Let_def split: option.split)
    (simp_all add: canonical_keys[symmetric] not_sym[OF canonical_keys(2)])

lemma requestHeaders_etag:
  "SimplisticComparison m \<noteq> Some True \<Longrightarrow>
     headers_get (requestHeadersFor m hdr) ''If-None-Match'' = metadata_get hdr ''Source-Etag''"
  by (simp add: requestHeadersFor_def Let_def)

lemma symlinkSpec_none [simp]: "SymlinkTargetPath spec = [] \<Longrightarrow> symlinkSpec b m spec = spec"
  by (simp add: symlinkSpec_def)

lemma uploadFile_normal:
  "jbSegmenting job = None \<Longrightarrow> uploadFile sw job spec body st large w =
     uploadNormalObject sw job spec body (uploadHeadersFor job st) large w"
  by (simp add: uploadFile_def)

text \<open>
  What Swift promises for the metadata of objects: \<open>meta w obj\<close> is the object that a HEAD request finds,
  with its symlink target, an upload, manifest or symlink that succeeds stores it, and the other requests
  leave it as it is. \<open>lobj\<close> is the object that a large object under construction will be.
\<close>

locale remembers =
  fixes sw :: "('w, 'r, 'lo) swift" and meta :: "'w \<Rightarrow> object \<Rightarrow> (headers \<times> object option) option"
    and lobj :: "'lo \<Rightarrow> object" and links :: "account \<Rightarrow> bool"
  assumes support: "\<exists>w'. swSymlinkSupport sw a w = (w', Inr (links a)) \<and> meta w' = meta w"
    and head: "meta w obj = Some x \<Longrightarrow> \<exists>w'. swSymlinkHeaders sw obj w = (w', Inr x) \<and> meta w' = meta w"
    and upload: "swUpload sw obj r del h w = (w', None) \<Longrightarrow>
      \<exists>h' l. meta w' obj = Some (h', l) \<and> metadata_get h' ''Source-Etag'' = metadata_get h ''Source-Etag''"
    and large: "swAsNewLargeObject sw obj c del w = (w', Inr lo) \<Longrightarrow> lobj lo = obj"
    and manifest: "swWriteManifest sw lo h w = (w', None) \<Longrightarrow>
      \<exists>h' l. meta w' (lobj lo) = Some (h', l) \<and> metadata_get h' ''Source-Etag'' = metadata_get h ''Source-Etag''"
    and symlink: "swSymlinkTo sw obj target del w = (w', None) \<Longrightarrow> \<exists>h'. meta w' obj = Some (h', Some target)"
    and close: "meta (swCloseBody sw q w) = meta w"
begin

lemma closeBody_meta: "meta (closeBody sw body w) = meta w"
  by (simp add: closeBody_def close split: option.split)

text \<open>A successful upload, segmented or not, leaves the Etag of the source at the target.\<close>

lemma uploadNormal_stores:
  assumes "uploadNormalObject sw job spec body hdr del w = (w', True)"
  shows "\<exists>h l. meta w' (TargetObject job spec) = Some (h, l) \<and>
    metadata_get h ''Source-Etag'' = metadata_get hdr ''Source-Etag''"
proof -
  from assms have "swUpload sw (TargetObject job spec) body del hdr w = (w', None)"
    by (auto simp: uploadNormalObject_def Let_def split: prod.splits option.splits if_splits)
  then show ?thesis by (rule upload)
qed

lemma uploadLarge_stores:
  assumes "uploadLargeObject sw job sg spec body hdr del w = (w', True)"
  shows "\<exists>h l. meta w' (TargetObject job spec) = Some (h, l) \<and>
    metadata_get h ''Source-Etag'' = metadata_get hdr ''Source-Etag''"
proof -
  from assms obtain lo w1 w2 where
    "swAsNewLargeObject sw (TargetObject job spec) (sgContainer sg) del w = (w1, Inr lo)"
    and man: "swWriteManifest sw lo hdr w2 = (w', None)"
    by (auto simp: uploadLargeObject_def writeLargeObject_def Let_def split: prod.splits option.splits sum.splits)
  from large[OF this(1)] manifest[OF man] show ?thesis by simp
qed

lemma uploadFile_stores:
  assumes "uploadFile sw job spec body st del w = (w', True)"
  shows "\<exists>h l. meta w' (TargetObject job spec) = Some (h, l) \<and> metadata_get h ''Source-Etag'' = fsEtag st"
  using assms uploadNormal_stores[of job spec body "uploadHeadersFor job st" del w w']
    uploadLarge_stores[of job _ spec body "uploadHeadersFor job st" del w w']
  by (auto simp: uploadFile_def uploadHeaders_metadata split: option.splits if_splits)

lemma transferContents_stores:
  assumes "transferContents sw pt job spec hdr w = (w', Ret (TransferSuccess, n))"
  shows "\<exists>w1 body st h l.
    getContents sw pt job spec (requestHeadersFor (jbMatcher job) hdr) w = (w1, Inr (body, st)) \<and> \<not> fsSkipTransfer st \<and>
    meta w' (TargetObject job spec) = Some (h, l) \<and> metadata_get h ''Source-Etag'' = fsEtag st"
proof -
  from assms obtain w1 w2 body st where
    get: "getContents sw pt job spec (requestHeadersFor (jbMatcher job) hdr) w = (w1, Inr (body, st))" "\<not> fsSkipTransfer st"
    and up: "uploadFile sw job spec body st (isLargeObject hdr) w1 = (w2, True)" and w': "w' = closeBody sw body w2"
    by (auto simp: transferContents_def split: if_splits prod.splits sum.splits option.splits)
  from uploadFile_stores[OF up] get show ?thesis by (auto simp: w' closeBody_meta)
qed

lemma uploadSymlink_stores:
  assumes "uploadSymlink sw job spec prev del w = (w', TransferSuccess)"
  shows "\<exists>h. meta w' (TargetObject job spec) =
    Some (h, Some (ObjectAtPath (jbTarget job) (SymlinkTargetPath spec)))"
proof -
  from assms have "swSymlinkTo sw (TargetObject job spec)
      (ObjectAtPath (jbTarget job) (SymlinkTargetPath spec)) del w = (w', None)"
    by (auto simp: uploadSymlink_def Let_def split: prod.splits option.splits if_splits)
  then show ?thesis by (rule symlink)
qed

text \<open>What a successful transfer finds when it is done once more.\<close>

lemma PerformTransfer_again:
  assumes "\<not> immutable job spec" "meta w (TargetObject job spec) = Some (h, l)"
    and "spec' = symlinkSpec (links (cnAccount (the (Container (jbTarget job))))) (jbMatcher job) spec"
  shows "\<exists>w2. PerformTransfer sw pt job spec w =
    (if SymlinkTargetPath spec' \<noteq> [] then
       (case uploadSymlink sw job spec' l (isLargeObject h) w2 of (w3, result) \<Rightarrow> (w3, Ret (result, 0)))
     else transferContents sw pt job spec' h w2)"
proof -
  obtain w1 where sup: "swSymlinkSupport sw (cnAccount (the (Container (jbTarget job)))) w =
      (w1, Inr (links (cnAccount (the (Container (jbTarget job))))))" "meta w1 = meta w"
    using support by blast
  with assms(2) have "meta w1 (TargetObject job spec) = Some (h, l)" by simp
  from head[OF this] obtain w2 where "swSymlinkHeaders sw (TargetObject job spec) w1 = (w2, Inr (h, l))" by blast
  with sup assms(1,3) show ?thesis by (intro exI[of _ w2]) (simp add: PerformTransfer_def Let_def)
qed

lemma PerformTransfer_parts:
  assumes "PerformTransfer sw pt job spec w = (w', Ret (TransferSuccess, n))"
    and "spec' = symlinkSpec (links (cnAccount (the (Container (jbTarget job))))) (jbMatcher job) spec"
  obtains (contents) hdr w2 where "SymlinkTargetPath spec' = []"
      "transferContents sw pt job spec' hdr w2 = (w', Ret (TransferSuccess, n))"
    | (link) prev del w2 where "SymlinkTargetPath spec' \<noteq> []"
      "uploadSymlink sw job spec' prev del w2 = (w', TransferSuccess)"
proof -
  have im: "\<not> immutable job spec" using assms(1) by (auto simp: PerformTransfer_def split: if_splits)
  obtain w1 where sup: "swSymlinkSupport sw (cnAccount (the (Container (jbTarget job)))) w =
      (w1, Inr (links (cnAccount (the (Container (jbTarget job))))))"
    using support by blast
  show thesis
  proof (cases "SymlinkTargetPath spec' = []")
    case True
    with assms im sup have "\<exists>hdr w2. transferContents sw pt job spec' hdr w2 = (w', Ret (TransferSuccess, n))"
      by (auto simp: PerformTransfer_def Let_def split: prod.splits sum.splits option.splits if_splits)
    with True contents show thesis by blast
  next
    case False
    with assms im sup show thesis
      by (auto simp: PerformTransfer_def Let_def intro: link split: prod.splits sum.splits option.splits if_splits)
  qed
qed

end

text \<open>
  What a source promises for a file with an Etag: it tells the Etag with the contents, and when it is asked
  for them under the condition that the Etag has changed (\<^verbatim>\<open>If-None-Match\<close>), it says that it has not.
\<close>

definition conditional_file :: "('w, 'r) Source \<Rightarrow> string \<Rightarrow> string \<Rightarrow> bool" where
  "conditional_file src path etag \<longleftrightarrow>
     (\<forall>h w w' r st. srcGetFile src path h w = (w', Inr (r, st)) \<longrightarrow> fsSkipTransfer st \<or> fsEtag st = etag) \<and>
     (\<forall>h w. headers_get h ''If-None-Match'' = etag \<longrightarrow>
        (\<exists>w' r st. srcGetFile src path h w = (w', Inr (r, st)) \<and> fsSkipTransfer st))"

text \<open>The Etag of a file is told by its source, or was noted when its contents were read in the listing.\<close>

definition has_etag :: "('w, 'r) Job \<Rightarrow> FileSpec \<Rightarrow> string \<Rightarrow> bool" where
  "has_etag job spec etag \<longleftrightarrow> etag \<noteq> [] \<and>
     (case Contents spec of
        None \<Rightarrow> conditional_file (jbSource job) (if DownloadPath spec \<noteq> [] then DownloadPath spec else Path spec) etag
      | Some c \<Rightarrow> header_get (Headers spec) ''Etag'' = etag)"

lemma has_etag_symlinkSpec [simp]: "has_etag job (symlinkSpec b m spec) etag = has_etag job spec etag"
  by (simp add: has_etag_def symlinkSpec_def Let_def cong: option.case_cong)

lemma has_etag_told:
  assumes "has_etag job spec etag" "getContents sw pt job spec h w = (w', Inr (body, st))" "\<not> fsSkipTransfer st"
  shows "fsEtag st = etag"
proof (cases "Contents spec")
  case None
  with assms show ?thesis unfolding has_etag_def conditional_file_def getContents_def by (simp split: if_splits) blast+
next
  case (Some c)
  with assms show ?thesis
    by (auto simp: has_etag_def getContents_def toTransferFormat_def Let_def split: sum.splits prod.splits if_splits)
qed

lemma has_etag_skips:
  assumes "has_etag job spec etag" "SimplisticComparison (jbMatcher job) \<noteq> Some True"
    and "metadata_get hdr ''Source-Etag'' = etag"
  shows "snd (transferContents sw pt job spec hdr w) = Ret (TransferSkipped, 0)"
proof -
  have h: "headers_get (requestHeadersFor (jbMatcher job) hdr) ''If-None-Match'' = etag"
    using assms(2,3) by (simp add: requestHeaders_etag)
  have "\<exists>w' body st. getContents sw pt job spec (requestHeadersFor (jbMatcher job) hdr) w = (w', Inr (body, st)) \<and>
      fsSkipTransfer st"
  proof (cases "Contents spec")
    case None
    with assms(1) h show ?thesis by (simp add: has_etag_def getContents_def conditional_file_def)
  next
    case (Some c)
    with assms(1) h show ?thesis
      by (auto simp: has_etag_def getContents_def toTransferFormat_def Let_def split: prod.split)
  qed
  then show ?thesis by (auto simp: transferContents_def)
qed

text \<open>C14: a transfer is not repeated. Take a Swift server that remembers what is uploaded, and a file with an
  Etag: one that its source tells with the contents and does not send again under \<^verbatim>\<open>If-None-Match\<close>, or the
  one noted with contents that were read while listing. Unless the job asks for the simplistic comparison
  (by Last-Modified only), a second transfer after a successful one finds the Etag in the metadata of the
  target, of a segmented large object as well as of a normal one, and skips the file. A file that was
  transferred as a symlink is skipped since the target links to the same place, whether or not it has an
  Etag.\<close>

theorem second_transfer_skips:
  assumes "remembers sw meta lobj links"
    and "PerformTransfer sw pt job spec w = (w1, Ret (TransferSuccess, n))"
    and "SymlinkTargetPath (symlinkSpec (links (cnAccount (the (Container (jbTarget job))))) (jbMatcher job) spec) = [] \<longrightarrow>
      has_etag job spec etag \<and> SimplisticComparison (jbMatcher job) \<noteq> Some True"
  shows "snd (PerformTransfer sw pt job spec w1) = Ret (TransferSkipped, 0)"
proof -
  let ?obj = "TargetObject job spec"
  let ?spec = "symlinkSpec (links (cnAccount (the (Container (jbTarget job))))) (jbMatcher job) spec"
  have im: "\<not> immutable job spec" using assms(2) by (auto simp: PerformTransfer_def split: if_splits)
  note again = remembers.PerformTransfer_again[OF assms(1) im _ refl, where pt = pt]
  show ?thesis
  proof (rule remembers.PerformTransfer_parts[OF assms(1,2) refl])
    fix hdr w2 assume p: "SymlinkTargetPath ?spec = []"
      "transferContents sw pt job ?spec hdr w2 = (w1, Ret (TransferSuccess, n))"
    with assms(3) have e: "has_etag job ?spec etag" "SimplisticComparison (jbMatcher job) \<noteq> Some True" by simp_all
    from remembers.transferContents_stores[OF assms(1) p(2)] obtain w3 body st h l where
      g: "getContents sw pt job ?spec (requestHeadersFor (jbMatcher job) hdr) w2 = (w3, Inr (body, st))" "\<not> fsSkipTransfer st"
      and m: "meta w1 ?obj = Some (h, l)" "metadata_get h ''Source-Etag'' = fsEtag st" by auto
    from has_etag_told[OF e(1) g] m(2) have "metadata_get h ''Source-Etag'' = etag" by simp
    with again[OF m(1)] has_etag_skips[OF e, of h] p(1) show ?thesis by auto
  next
    fix prev del w2 assume p: "SymlinkTargetPath ?spec \<noteq> []"
      "uploadSymlink sw job ?spec prev del w2 = (w1, TransferSuccess)"
    from remembers.uploadSymlink_stores[OF assms(1) p(2)] obtain h where
      "meta w1 ?obj = Some (h, Some (ObjectAtPath (jbTarget job) (SymlinkTargetPath ?spec)))" by auto
    from again[OF this] p(1) show ?thesis by (auto simp: uploadSymlink_def Let_def)
  qed
qed

interpretation mem: remembers mem_swift
  "\<lambda>w obj. map_option (\<lambda>st. (stHeaders st, stLink st)) (map_of (stObjects w) obj)" "\<lambda>lo. lo" "\<lambda>a. True"
proof
  show "\<exists>h' l. map_option (\<lambda>st. (stHeaders st, stLink st)) (map_of (stObjects w') lo) = Some (h', l) \<and>
      metadata_get h' ''Source-Etag'' = metadata_get h ''Source-Etag''"
    if "swWriteManifest mem_swift lo h w = (w', None)" for lo h w w'
    using that canonicalKey_neq[of "''X-Object-Meta-Source-Etag''" "''X-Static-Large-Object''"]
    by (auto simp: mem_swift_def store_put_def metadata_keys)
qed (auto simp: store_head_def store_put_def mem_swift_def)

definition demo_job :: "(store, bytes) Job" where
  "demo_job =
     \<lparr>jbSource = \<lparr>srcListAllFiles = (\<lambda>w. (w, [], None)), srcListEntries = (\<lambda>p w. (w, Inr [])),
        srcGetFile = (\<lambda>p h w. (w, Inl (Err ''gone'')))\<rparr>,
      jbTarget = demo_location, jbMatcher = \<lparr>ExcludeRx = None, IncludeRx = None, ImmutableFileRx = None,
        NotOlderThan = None, SimplisticComparison = None\<rparr>,
      jbSegmenting = None,
      jbExpiration = \<lparr>EnabledIn = None, Enabled = True, DelaySeconds = 0\<rparr>, jbCleanup = KeepUnknownFiles\<rparr>"

lemma requestHeadersFor_empty [simp]: "requestHeadersFor m Map.empty = Map.empty"
  by (simp add: requestHeadersFor_def metadata_get_def Let_def)

text \<open>A source that answers conditional requests, and a job that segments its files.\<close>

definition etag_state :: "bool \<Rightarrow> FileState" where
  "etag_state skip = \<lparr>fsEtag = ''e1'', fsLastModified = [], fsSizeBytes = Some 2, fsExpiryTime = None,
     fsSkipTransfer = skip, fsContentType = []\<rparr>"

definition etag_job :: "(store, bytes) Job" where
  "etag_job = demo_job\<lparr>
     jbSource := (jbSource demo_job)\<lparr>srcGetFile := (\<lambda>p h w. (w, Inr
       (if headers_get h ''If-None-Match'' = ''e1'' then (None, etag_state True) else (Some [1, 2], etag_state False))))\<rparr>,
     jbSegmenting := Some \<lparr>MinObjectSize = 1, SegmentSize = 1, sgContainerName = ''s'', sgContainer = Some demo_container\<rparr>\<rparr>"

lemma etag_file: "conditional_file (jbSource etag_job) path ''e1''"
  by (auto simp: conditional_file_def etag_job_def etag_state_def split: if_splits)

lemma etag_transfer:
  "\<exists>w1. PerformTransfer mem_swift pt etag_job (fileSpec ''a'') empty_store = (w1, Ret (TransferSuccess, 2)) \<and>
     (\<exists>st. map_of (stObjects w1) (TargetObject etag_job (fileSpec ''a'')) = Some st \<and> stBody st = [1, 2] \<and>
        isLargeObject (stHeaders st))"
  by (simp add: PerformTransfer_def immutable_def etag_job_def demo_job_def store_head_def not_found_def StatusNotFound_def
      empty_store_def transferContents_def getContents_def etag_state_def uploadFile_def uploadLargeObject_def
      writeLargeObject_def closeBody_def mem_swift_def store_put_def isLargeObject_def fileSpec_def TargetObject_def Let_def)

theorem second_transfer_skips_witness:
  "\<exists>w1 st. PerformTransfer mem_swift (\<lambda>t. Inr 0) etag_job (fileSpec ''a'') empty_store = (w1, Ret (TransferSuccess, 2)) \<and>
     map_of (stObjects w1) (TargetObject etag_job (fileSpec ''a'')) = Some st \<and> stBody st = [1, 2] \<and>
     isLargeObject (stHeaders st) \<and>
     snd (PerformTransfer mem_swift (\<lambda>t. Inr 0) etag_job (fileSpec ''a'') w1) = Ret (TransferSkipped, 0)"
proof -
  obtain w1 st where 1: "PerformTransfer mem_swift (\<lambda>t. Inr 0) etag_job (fileSpec ''a'') empty_store = (w1, Ret (TransferSuccess, 2))"
    and st: "map_of (stObjects w1) (TargetObject etag_job (fileSpec ''a'')) = Some st" "stBody st = [1, 2]"
      "isLargeObject (stHeaders st)"
    using etag_transfer[of "\<lambda>t. Inr 0"] by blast
  have "has_etag etag_job (fileSpec ''a'') ''e1'' \<and> SimplisticComparison (jbMatcher etag_job) \<noteq> Some True"
    using etag_file by (simp add: has_etag_def fileSpec_def) (simp add: etag_job_def demo_job_def)
  with second_transfer_skips[OF mem.remembers_axioms 1] 1 st show ?thesis by blast
qed

text \<open>When a transfer panics. Only in two ways: the target does not answer its /info query, which ends
  the process, or the source gave a body of unknown size, was uploaded in full, and then the size is
  dereferenced.\<close>

theorem PerformTransfer_panics:
  assumes "PerformTransfer sw pt job spec w = (w', Panic m)"
  shows "(\<exists>err. swSymlinkSupport sw (cnAccount (the (Container (jbTarget job)))) w = (w', Inl err)) \<or>
    Contents spec = None \<and>
    (\<exists>path h w1 w2 body st. srcGetFile (jbSource job) path h w1 = (w2, Inr (body, st)) \<and>
       fsSizeBytes st = None \<and> \<not> fsSkipTransfer st)"
proof -
  have im: "\<not> immutable job spec" using assms by (auto simp: PerformTransfer_def split: if_splits)
  obtain w1 r where sup: "swSymlinkSupport sw (cnAccount (the (Container (jbTarget job)))) w = (w1, r)" by fastforce
  show ?thesis
  proof (cases r)
    case (Inl err)
    with assms im sup show ?thesis by (simp add: PerformTransfer_def)
  next
    case (Inr b)
    let ?spec = "symlinkSpec b (jbMatcher job) spec"
    from assms im sup Inr obtain hdr w2 where
      tc: "transferContents sw pt job ?spec hdr w2 = (w', Panic m)"
      by (auto simp: PerformTransfer_def Let_def split: prod.splits sum.splits option.splits if_splits)
    have c: "Contents ?spec = Contents spec" by (simp add: symlinkSpec_def Let_def)
    from tc obtain w3 body st where gc: "getContents sw pt job ?spec (requestHeadersFor (jbMatcher job) hdr) w2 =
        (w3, Inr (body, st))" and st: "fsSizeBytes st = None" "\<not> fsSkipTransfer st"
      by (auto simp: transferContents_def split: prod.splits sum.splits option.splits if_splits)
    have n: "Contents spec = None"
      using gc st c by (auto simp: getContents_def toTransferFormat_def Let_def
          split: option.splits sum.splits prod.splits if_splits)
    with gc c have "srcGetFile (jbSource job) (if DownloadPath ?spec \<noteq> [] then DownloadPath ?spec else Path ?spec)
        (requestHeadersFor (jbMatcher job) hdr) w2 = (w3, Inr (body, st))"
      by (simp add: getContents_def)
    with st n show ?thesis by blast
  qed
qed

text \<open>A source that does not tell the size of its files.\<close>

definition unsized :: FileState where
  "unsized = \<lparr>fsEtag = [], fsLastModified = [], fsSizeBytes = None, fsExpiryTime = None, fsSkipTransfer = False,
     fsContentType = []\<rparr>"

definition unsized_job :: "(store, bytes) Job" where
  "unsized_job = demo_job\<lparr>jbSource := \<lparr>srcListAllFiles = (\<lambda>w. (w, [], None)), srcListEntries = (\<lambda>p w. (w, Inr [])),
     srcGetFile = (\<lambda>p h w. (w, Inr (Some [1], unsized)))\<rparr>\<rparr>"

theorem PerformTransfer_panics_witness:
  "\<exists>w'. PerformTransfer mem_swift (\<lambda>t. Inr 0) unsized_job (fileSpec ''a'') empty_store =
      (w', Panic ''nil dereference of size'') \<and>
    (\<exists>path h w1 w2 body st. srcGetFile (jbSource unsized_job) path h w1 = (w2, Inr (body, st)) \<and>
       fsSizeBytes st = None \<and> \<not> fsSkipTransfer st)"
proof -
  have j: "\<not> immutable unsized_job (fileSpec ''a'')" "jbSegmenting unsized_job = None"
    "srcGetFile (jbSource unsized_job) p h w = (w, Inr (Some [1], unsized))" for p h w
    by (simp_all add: immutable_def unsized_job_def demo_job_def)
  have u: "fsSizeBytes unsized = None" "\<not> fsSkipTransfer unsized" by (simp_all add: unsized_def)
  have "map_of (stObjects empty_store) (TargetObject unsized_job (fileSpec ''a'')) = None"
    by (simp add: empty_store_def)
  with j u have "snd (PerformTransfer mem_swift (\<lambda>t. Inr 0) unsized_job (fileSpec ''a'') empty_store) =
      Panic ''nil dereference of size''"
    by (simp add: PerformTransfer_def store_head_def not_found_def StatusNotFound_def transferContents_def
        getContents_def Let_def uploadFile_normal uploadNormalObject_def closeBody_def)
  then obtain w' where p: "PerformTransfer mem_swift (\<lambda>t. Inr 0) unsized_job (fileSpec ''a'') empty_store =
      (w', Panic ''nil dereference of size'')" by (metis prod.collapse)
  from PerformTransfer_panics[OF p] p show ?thesis by auto
qed

end
