(* ===== verification/ScraperClaims.thy ===== *)
theory ScraperClaims
  imports ScraperProps FileClaims
begin

text \<open>The theorems about the scraper, and a job with two files on which they are tried out.\<close>

section \<open>Termination\<close>

text \<open>
  A source is ranked by \<open>W\<close> if every directory outweighs three times all the subdirectories that a
  listing of it can give, which is so for every finite tree of directories (and for a source that
  lists all files at once, with \<open>W = 1\<close>).
\<close>

definition dirWeight :: "(FileSpec \<Rightarrow> bool) \<Rightarrow> (string \<Rightarrow> nat) \<Rightarrow> FileSpec list \<Rightarrow> nat" where
  "dirWeight acc W es = sum_list (map (W \<circ> Path) (filter (\<lambda>fs. acc fs \<and> IsDirectory fs) es))"

definition ranked_source :: "(FileSpec \<Rightarrow> bool) \<Rightarrow> ('w, 'r) Source \<Rightarrow> (string \<Rightarrow> nat) \<Rightarrow> bool" where
  "ranked_source acc src W \<longleftrightarrow>
     (\<forall>w w' fs e. srcListAllFiles src w = (w', fs, e) \<longrightarrow>
        (if e = Some ErrListAllFilesNotSupported then fs = [] else 3 * dirWeight acc W fs < W ''/'')) \<and>
     (\<forall>p w w' fs. srcListEntries src p w = (w', Inr fs) \<longrightarrow> 3 * dirWeight acc W fs < W p) \<and>
     (\<forall>p. 0 < W p)"

definition stackWeight :: "(nat \<Rightarrow> string \<Rightarrow> nat) \<Rightarrow> directoryStack \<Rightarrow> nat" where
  "stackWeight W s = sum_list (map (\<lambda>d. (3 - dRetryCounter d) * W (dJob d) (dPath d)) s)"

lemma stackWeight_append [simp]: "stackWeight W (s @ t) = stackWeight W s + stackWeight W t"
  by (simp add: stackWeight_def)

lemma stackWeight_simps [simp]:
  "stackWeight W [] = 0"
  "stackWeight W (d # s) = (3 - dRetryCounter d) * W (dJob d) (dPath d) + stackWeight W s"
  by (simp_all add: stackWeight_def)

lemma stackWeight_rev: "stackWeight W (rev s) = stackWeight W s"
  by (simp add: stackWeight_def rev_map[symmetric] sum_list_rev)

lemma stackWeight_push: "stackWeight W (foldl stack_Push s ds) = stackWeight W s + stackWeight W ds"
proof -
  have "foldl stack_Push s ds = s @ ds"
    using ds.order_foldl_push[of s ds] by (metis rev_append rev_rev_ident)
  then show ?thesis by simp
qed

lemma stackWeight_newDirs:
  "stackWeight W (newDirs jobs j es) = 3 * dirWeight (accepted jobs j) (W j) es"
  by (induction es) (auto simp: stackWeight_def newDirs_def dirWeight_def)

lemma listDirectory_ranked:
  assumes "listDirectory jobs d st = (st', err)"
    and "ranked_source (accepted jobs (dJob d)) (jbSource (jobs ! dJob d)) (W (dJob d))"
  shows "\<exists>es w. st' = handled jobs (dJob d) es (st\<lparr>scWorld := w\<rparr>) \<and>
    stackWeight W (newDirs jobs (dJob d) es) < W (dJob d) (dPath d)"
proof -
  let ?src = "jbSource (jobs ! dJob d)" and ?acc = "accepted jobs (dJob d)"
  have pos: "0 < W (dJob d) p" for p using assms(2) by (simp add: ranked_source_def)
  have one: "\<exists>es w. t' = handled jobs (dJob d) es (t\<lparr>scWorld := w\<rparr>) \<and>
      stackWeight W (newDirs jobs (dJob d) es) < W (dJob d) (dPath d)"
    if "listEntries jobs d t = (t', e)" for t t' e
  proof (cases "srcListEntries ?src (dPath d) (scWorld t)")
    case (Pair w r)
    show ?thesis
    proof (cases r)
      case (Inl x)
      with that Pair show ?thesis
        by (intro exI[of _ "[]"] exI[of _ w]) (auto simp: listEntries_def handled_def newFiles_def pos newDirs_def)
    next
      case (Inr fs)
      with Pair assms(2) have "stackWeight W (newDirs jobs (dJob d) fs) < W (dJob d) (dPath d)"
        by (simp add: stackWeight_newDirs ranked_source_def)
      with that Pair Inr show ?thesis
        by (intro exI[of _ fs] exI[of _ w]) (auto simp: listEntries_def fold_handleFileSpec)
    qed
  qed
  show ?thesis
  proof (cases "dPath d = ''/''")
    case False
    with assms(1) one show ?thesis by (simp add: listDirectory_def)
  next
    case True
    obtain w fs e where all: "srcListAllFiles ?src (scWorld st) = (w, fs, e)" by (metis prod_cases3)
    show ?thesis
    proof (cases "e = Some ErrListAllFilesNotSupported")
      case unsup: True
      with all assms(2) have fs: "fs = []"
        unfolding ranked_source_def by (metis (no_types, lifting))
      have "listEntries jobs d (st\<lparr>scWorld := w\<rparr>) = (st', err)"
        using assms(1) True all unsup fs by (simp add: listDirectory_def)
      from one[OF this] show ?thesis by simp
    next
      case False
      with all assms(2) have "stackWeight W (newDirs jobs (dJob d) fs) < W (dJob d) ''/''"
        unfolding ranked_source_def stackWeight_newDirs by (metis (no_types, lifting))
      with assms(1) True all False show ?thesis
        by (intro exI[of _ fs] exI[of _ w]) (auto simp: listDirectory_def fold_handleFileSpec Let_def)
    qed
  qed
qed

lemma finishDirectory_weight:
  "stackWeight W (scStack (finishDirectory d err st)) \<le>
     stackWeight W (scStack st) + (2 - dRetryCounter d) * W (dJob d) (dPath d)"
proof -
  have "3 - Suc n = 2 - n" for n :: nat by simp
  then show ?thesis by (auto simp: finishDirectory_def stack_PushBack_def split: option.split)
qed

lemma scrapeNext_decreases:
  assumes "\<not> stack_IsEmpty (scStack st)" "scraper_ok jobs st"
    and "\<forall>j<length jobs. ranked_source (accepted jobs j) (jbSource (jobs ! j)) (W j)"
  shows "stackWeight W (scStack (scrapeNext jobs st)) < stackWeight W (scStack st)"
proof -
  obtain stack d where pop: "stack_Pop (scStack st) = (stack, d)" by fastforce
  then have ord: "rev (scStack st) = d # rev stack"
    using ds.order_pop[of "scStack st" stack d] assms(1) by (simp add: ds.isEmpty_iff)
  then have w: "stackWeight W (scStack st) = (3 - dRetryCounter d) * W (dJob d) (dPath d) + stackWeight W stack"
    unfolding stackWeight_rev[of W "scStack st", symmetric] ord
    by (simp add: stackWeight_rev)
  have "d \<in> set (scStack st)" using ds.set_order_pop[OF assms(1) pop] by simp
  with assms(2) have d: "dJob d < length jobs" "dRetryCounter d \<le> 2" by (auto simp: scraper_ok_def)
  obtain st' err where ld: "listDirectory jobs d (st\<lparr>scStack := stack\<rparr>) = (st', err)" by fastforce
  from listDirectory_ranked[OF ld, of W] assms(3) d(1) obtain es w' where
    st': "st' = handled jobs (dJob d) es (st\<lparr>scStack := stack, scWorld := w'\<rparr>)"
    and lt: "stackWeight W (newDirs jobs (dJob d) es) < W (dJob d) (dPath d)" by auto
  have "stackWeight W (scStack (scrapeNext jobs st)) \<le>
      stackWeight W stack + stackWeight W (newDirs jobs (dJob d) es) + (2 - dRetryCounter d) * W (dJob d) (dPath d)"
    using pop ld finishDirectory_weight[of W d err st'] by (simp add: scrapeNext_def st' handled_def stackWeight_push)
  also have "\<dots> < stackWeight W stack + W (dJob d) (dPath d) + (2 - dRetryCounter d) * W (dJob d) (dPath d)"
    using lt by simp
  also have "\<dots> = stackWeight W (scStack st)"
  proof -
    have "3 - dRetryCounter d = Suc (2 - dRetryCounter d)" using d(2) by simp
    then show ?thesis unfolding w by simp
  qed
  finally show ?thesis .
qed

lemma Scraper_loop_returns:
  assumes "\<forall>j<length jobs. ranked_source (accepted jobs j) (jbSource (jobs ! j)) (W j)" "scraper_ok jobs st"
  shows "\<exists>st'. Scraper_loop jobs cancelled st = Some st'"
  using assms(2)
proof (induction "stackWeight W (scStack st)" arbitrary: st rule: less_induct)
  case less
  show ?case
  proof (cases "stack_IsEmpty (scStack st) \<or> cancelled (scWorld st)")
    case True
    then show ?thesis by (subst Scraper_loop.simps) simp
  next
    case False
    with less.hyps[of "scrapeNext jobs st"] scrapeNext_decreases[OF _ less.prems assms(1)]
      scrapeNext_ok[OF less.prems] obtain st' where "Scraper_loop jobs cancelled (scrapeNext jobs st) = Some st'"
      by blast
    with False show ?thesis by (subst Scraper_loop.simps) simp
  qed
qed

section \<open>Properties\<close>

text \<open>C34: what the scraper sends. When the scraper is done, every file it sent belongs to one of the jobs,
  is accepted by the matcher of that job (with all directories on its way), and is not a directory;
  nothing was tried more than three times; and some job is marked as incompletely scraped exactly if
  a failed directory or a skipped job was reported.\<close>

theorem scraper_sound:
  assumes "Scraper_Run jobs cancelled w = Some st"
  shows "(\<forall>(j, fs)\<in>set (scOutput st). j < length jobs \<and> CheckFile (jbMatcher (jobs ! j)) fs = None \<and> \<not> IsDirectory fs) \<and>
    (\<forall>d\<in>set (scStack st). dRetryCounter d \<le> 2) \<and>
    (scIncomplete st \<noteq> {} \<longleftrightarrow>
      (\<exists>ev\<in>set (scReport st). (evIsDirectory ev \<and> DirectoryFailed ev) \<or> ev = jobSkippedEvent))"
  using Scraper_Run_ok(1)[OF assms] unfolding scraper_ok_def accepted_def trouble_def by blast

text \<open>C11: the scraper misses nothing. Let the source of a job be stable (a listing that succeeds gives
  the entries of the directory). If the run was not cancelled and the job is not marked as
  incompletely scraped, then every file that is listed in a directory that can be reached through
  included directories, and that is included itself, was sent.\<close>

theorem scraper_complete:
  assumes "Scraper_Run jobs cancelled w = Some st" "\<not> cancelled (scWorld st)"
    and "j < length jobs" "j \<notin> scIncomplete st" "stable_source (jbSource (jobs ! j)) ents"
    and "listed_file (\<lambda>fs. CheckFile (jbMatcher (jobs ! j)) fs = None) ents fs"
  shows "(j, fs) \<in> set (scOutput st)"
proof -
  have "accepted jobs j = (\<lambda>fs. CheckFile (jbMatcher (jobs ! j)) fs = None)" by (auto simp: accepted_def)
  with Scraper_Run_complete[OF assms(1,3,5,4,2)] assms(6) show ?thesis by simp
qed

text \<open>C20: the scraper comes to an end, also when listings fail again and again, if the directories of each
  source are a finite tree.\<close>

theorem scraper_terminates:
  assumes "\<forall>j<length jobs. ranked_source (\<lambda>fs. CheckFile (jbMatcher (jobs ! j)) fs = None) (jbSource (jobs ! j)) (W j)"
  shows "\<exists>st. Scraper_Run jobs cancelled w = Some st"
proof -
  have "accepted jobs j = (\<lambda>fs. CheckFile (jbMatcher (jobs ! j)) fs = None)" for j by (auto simp: accepted_def)
  with assms Scraper_loop_returns[OF _ scraper_ok_start] show ?thesis
    unfolding Scraper_Run_def by metis
qed

text \<open>A job whose source has the files a and tmp/b; the second is excluded.\<close>

definition demo_files :: "FileSpec list" where
  "demo_files = [fileSpec ''a'', fileSpec ''tmp/b'']"

definition demo_jobs :: "(store, bytes) Job list" where
  "demo_jobs = [demo_job\<lparr>jbMatcher := demo_matcher,
     jbSource := \<lparr>srcListAllFiles = (\<lambda>w. (w, demo_files, None)), srcListEntries = (\<lambda>p w. (w, Inr demo_files)),
       srcGetFile = (\<lambda>p h w. (w, Inl (Err ''gone'')))\<rparr>\<rparr>]"

lemma demo_accepts:
  "CheckFile demo_matcher (fileSpec ''a'') = None" "CheckFile demo_matcher (fileSpec ''tmp/b'') \<noteq> None"
  by code_simp+

lemma demo_job_sel [simp]:
  "length demo_jobs = 1" "jbMatcher (demo_jobs ! 0) = demo_matcher"
  "srcListAllFiles (jbSource (demo_jobs ! 0)) w = (w, demo_files, None)"
  "srcListEntries (jbSource (demo_jobs ! 0)) p w = (w, Inr demo_files)"
  by (simp_all add: demo_jobs_def)

theorem scraper_terminates_witness: "\<exists>st. Scraper_Run demo_jobs (\<lambda>w. False) empty_store = Some st"
proof (rule scraper_terminates[where W = "\<lambda>j p. 1"], intro allI impI)
  fix j
  assume "j < length demo_jobs"
  then have "j = 0" by simp
  moreover have "dirWeight acc (\<lambda>p. 1) demo_files = 0" for acc by (simp add: dirWeight_def demo_files_def)
  ultimately show "ranked_source (\<lambda>fs. CheckFile (jbMatcher (demo_jobs ! j)) fs = None) (jbSource (demo_jobs ! j)) (\<lambda>p. 1)"
    by (simp add: ranked_source_def)
qed

definition demo_result :: "store scraper" where
  "demo_result =
     \<lparr>scWorld = empty_store, scStack = [], scOutput = [(0, fileSpec ''a'')],
      scReport = [directoryEvent False], scIncomplete = {}\<rparr>"

lemma demo_step: "scrapeNext demo_jobs (Scraper_start demo_jobs empty_store) = demo_result"
proof -
  let ?root = "\<lparr>dJob = 0, dPath = ''/'', dRetryCounter = 0\<rparr>"
  have start: "Scraper_start demo_jobs empty_store =
      \<lparr>scWorld = empty_store, scStack = [?root], scOutput = [], scReport = [], scIncomplete = {}\<rparr>"
    by (simp add: Scraper_start_def stack_Push_def)
  have "newDirs demo_jobs 0 demo_files = []" by (simp add: newDirs_def demo_files_def)
  moreover have "newFiles demo_jobs 0 demo_files = [(0, fileSpec ''a'')]"
    using demo_accepts by (simp only: newFiles_def demo_files_def accepted_def demo_job_sel filter.simps
        fileSpec_sel simp_thms if_True if_False list.map)
  ultimately show ?thesis
    by (simp add: start scrapeNext_def stack_Pop_def listDirectory_def fold_handleFileSpec handled_def
        finishDirectory_def demo_result_def)
qed

lemma demo_run: "Scraper_Run demo_jobs (\<lambda>w. False) empty_store = Some demo_result"
proof -
  have "\<not> stack_IsEmpty (scStack (Scraper_start demo_jobs empty_store))"
    by (simp add: Scraper_start_def stack_Push_def stack_IsEmpty_def)
  then have "Scraper_loop demo_jobs (\<lambda>w. False) (Scraper_start demo_jobs empty_store) =
      Scraper_loop demo_jobs (\<lambda>w. False) demo_result"
    by (subst Scraper_loop.simps) (simp add: demo_step)
  also have "\<dots> = Some demo_result"
    by (subst Scraper_loop.simps) (simp add: demo_result_def stack_IsEmpty_def)
  finally show ?thesis by (simp add: Scraper_Run_def)
qed

theorem scraper_sound_witness:
  "\<exists>st. Scraper_Run demo_jobs (\<lambda>w. False) empty_store = Some st \<and>
     (\<forall>(j, fs)\<in>set (scOutput st). CheckFile (jbMatcher (demo_jobs ! j)) fs = None) \<and> scIncomplete st = {}"
  using scraper_sound[OF demo_run] demo_run by (intro exI[of _ demo_result]) (auto simp: demo_result_def)

theorem scraper_complete_witness:
  "\<exists>st. Scraper_Run demo_jobs (\<lambda>w. False) empty_store = Some st \<and> (0, fileSpec ''a'') \<in> set (scOutput st)"
proof -
  have st: "stable_source (jbSource (demo_jobs ! 0)) (\<lambda>p. demo_files)" by (simp add: stable_source_def)
  have li: "listed_file (\<lambda>fs. CheckFile (jbMatcher (demo_jobs ! 0)) fs = None) (\<lambda>p. demo_files) (fileSpec ''a'')"
    using demo_accepts by (auto simp: listed_file_def demo_files_def intro!: listed_dir.root)
  from scraper_complete[OF demo_run _ _ _ st li] demo_run show ?thesis
    by (intro exI[of _ demo_result]) (simp add: demo_result_def)
qed

end
