(* ===== verification/Transferor.thy ===== *)
theory Transferor
  imports Report Numeric "HOL-Library.Multiset"
begin

text \<open>
  \<^verbatim>\<open>pkg/actors/transfer.go\<close>: the actor that transfers files and tries those that failed once more.
  A file is a job (its index) with a file specification; \<open>perform\<close> is the method
  \<^verbatim>\<open>PerformTransfer\<close> of a file. The scheduler decides what the \<^verbatim>\<open>select\<close> of the main loop receives:
  a run has a list of events, each a file from the input channel or the cancellation (the end of the
  list is the closed channel). What the main loop leaves in the list is received by the last loop, which
  discards it. Whether the context is cancelled during the second phase is seen in the state of the
  outside world. A panic of a transfer ends the process.
\<close>

section \<open>Definitions\<close>

type_synonym tfile = "nat \<times> FileSpec"

record FileInfoForCleaner =
  fiFile :: tfile
  fiFailed :: bool

datatype input_event = Receive tfile | Cancelled

record 'w transferor =
  trWorld :: 'w
  trRetry :: "tfile list"
  trOutput :: "FileInfoForCleaner list"
  trReport :: "ReportEvent list"
  trDiscarded :: "tfile list"

type_synonym 'w perform = "tfile \<Rightarrow> 'w \<Rightarrow> 'w \<times> (TransferResult \<times> u64) outcome"

text \<open>The \<^verbatim>\<open>File\<close> of the program has a pointer to its job.\<close>

definition transferFile ::
  "('w, 'r, 'lo) swift \<Rightarrow> (string \<Rightarrow> goerror + gotime) \<Rightarrow> ('w, 'r) Job list \<Rightarrow> 'w perform" where
  "transferFile sw parseTime jobs f = PerformTransfer sw parseTime (jobs ! fst f) (snd f)"

definition emit :: "tfile \<Rightarrow> TransferResult \<Rightarrow> u64 \<Rightarrow> 'w transferor \<Rightarrow> 'w transferor" where
  "emit f result sz st =
     st\<lparr>trOutput := trOutput st @ [\<lparr>fiFile = f, fiFailed = (result = TransferFailed)\<rparr>],
        trReport := trReport st @ [fileEvent result sz]\<rparr>"

text \<open>The main loop returns whether it was aborted, and what it has left to be received.\<close>

fun transferLoop ::
  "'w perform \<Rightarrow> input_event list \<Rightarrow> 'w transferor \<Rightarrow> (bool \<times> input_event list \<times> 'w transferor) outcome" where
  "transferLoop perform [] st = Ret (False, [], st)"
| "transferLoop perform (Cancelled # evs) st = Ret (True, evs, st)"
| "transferLoop perform (Receive f # evs) st =
     (case perform f (trWorld st) of
        (w, Panic m) \<Rightarrow> Panic m
      | (w, Ret (result, sz)) \<Rightarrow>
          let st' = st\<lparr>trWorld := w\<rparr>
          in if result = TransferFailed then transferLoop perform evs (st'\<lparr>trRetry := trRetry st' @ [f]\<rparr>)
             else transferLoop perform evs (emit f result sz st'))"

fun retryLoop :: "'w perform \<Rightarrow> ('w \<Rightarrow> bool) \<Rightarrow> bool \<Rightarrow> tfile list \<Rightarrow> 'w transferor \<Rightarrow> 'w transferor outcome" where
  "retryLoop perform cancelled aborted [] st = Ret st"
| "retryLoop perform cancelled aborted (f # fs) st =
     (if \<not> aborted \<and> \<not> cancelled (trWorld st) then
        (case perform f (trWorld st) of
           (w, Panic m) \<Rightarrow> Panic m
         | (w, Ret (result, sz)) \<Rightarrow> retryLoop perform cancelled aborted fs (emit f result sz (st\<lparr>trWorld := w\<rparr>)))
      else retryLoop perform cancelled aborted fs (emit f TransferFailed 0 st))"

text \<open>The last loop, \<^verbatim>\<open>for range t.Input\<close>, which does not look at the context any more.\<close>

fun drainLoop :: "input_event list \<Rightarrow> 'w transferor \<Rightarrow> 'w transferor" where
  "drainLoop [] st = st"
| "drainLoop (Cancelled # evs) st = drainLoop evs st"
| "drainLoop (Receive f # evs) st = drainLoop evs (st\<lparr>trDiscarded := trDiscarded st @ [f]\<rparr>)"

definition Transferor_init :: "'w \<Rightarrow> 'w transferor" where
  "Transferor_init w = \<lparr>trWorld = w, trRetry = [], trOutput = [], trReport = [], trDiscarded = []\<rparr>"

definition Transferor_Run :: "'w perform \<Rightarrow> ('w \<Rightarrow> bool) \<Rightarrow> input_event list \<Rightarrow> 'w \<Rightarrow> 'w transferor outcome" where
  "Transferor_Run perform cancelled evs w =
     (case transferLoop perform evs (Transferor_init w) of
        Panic m \<Rightarrow> Panic m
      | Ret (aborted, rest, st) \<Rightarrow>
          (case retryLoop perform cancelled aborted (trRetry st) st of
             Panic m \<Rightarrow> Panic m
           | Ret st' \<Rightarrow> Ret (drainLoop rest st')))"

section \<open>Accounting for files\<close>

text \<open>
  The files that a run receives before it is cancelled, and those that are in its input afterwards.
\<close>

fun received :: "input_event list \<Rightarrow> tfile list" where
  "received [] = []"
| "received (Cancelled # evs) = []"
| "received (Receive f # evs) = f # received evs"

fun files_of :: "input_event list \<Rightarrow> tfile list" where
  "files_of [] = []"
| "files_of (Cancelled # evs) = files_of evs"
| "files_of (Receive f # evs) = f # files_of evs"

fun late :: "input_event list \<Rightarrow> tfile list" where
  "late [] = []"
| "late (Cancelled # evs) = files_of evs"
| "late (Receive f # evs) = late evs"

lemma files_split: "files_of evs = received evs @ late evs"
  by (induction evs rule: files_of.induct) auto

lemma late_uncancelled: "Cancelled \<notin> set evs \<Longrightarrow> late evs = []"
  by (induction evs rule: late.induct) auto

lemma drainLoop_eq: "drainLoop evs st = st\<lparr>trDiscarded := trDiscarded st @ files_of evs\<rparr>"
  by (induction evs st rule: drainLoop.induct) auto

lemma Transferor_init_sel [simp]:
  "trWorld (Transferor_init w) = w" "trRetry (Transferor_init w) = []" "trOutput (Transferor_init w) = []"
  "trReport (Transferor_init w) = []" "trDiscarded (Transferor_init w) = []"
  by (simp_all add: Transferor_init_def)

lemma emit_sel [simp]:
  "trWorld (emit f r n st) = trWorld st" "trRetry (emit f r n st) = trRetry st"
  "trDiscarded (emit f r n st) = trDiscarded st"
  "map fiFile (trOutput (emit f r n st)) = map fiFile (trOutput st) @ [f]"
  by (simp_all add: emit_def)

text \<open>Outputs and reports are sent in pairs that agree.\<close>

definition paired :: "FileInfoForCleaner list \<Rightarrow> ReportEvent list \<Rightarrow> bool" where
  "paired infos evs \<longleftrightarrow>
     list_all2 (\<lambda>i e. \<not> evIsDirectory e \<and> IsFile e \<and> fiFailed i = (FileTransferResult e = TransferFailed)) infos evs"

lemma paired_emit: "paired (trOutput st) (trReport st) \<Longrightarrow> paired (trOutput (emit f r n st)) (trReport (emit f r n st))"
  by (auto simp: paired_def emit_def intro: list_all2_appendI)

lemma paired_update [simp]:
  "paired (trOutput (st\<lparr>trWorld := w\<rparr>)) (trReport (st\<lparr>trWorld := w\<rparr>)) = paired (trOutput st) (trReport st)"
  "paired (trOutput (st\<lparr>trRetry := x\<rparr>)) (trReport (st\<lparr>trRetry := x\<rparr>)) = paired (trOutput st) (trReport st)"
  by simp_all

text \<open>The three phases of a run that returns.\<close>

lemma Transferor_Run_phases:
  assumes "Transferor_Run perform cancelled evs w = Ret st"
  obtains aborted rest st1 st2 where
    "transferLoop perform evs (Transferor_init w) = Ret (aborted, rest, st1)"
    "retryLoop perform cancelled aborted (trRetry st1) st1 = Ret st2"
    "st = st2\<lparr>trDiscarded := trDiscarded st2 @ files_of rest\<rparr>"
  using assms by (auto simp: Transferor_Run_def drainLoop_eq split: outcome.splits prod.splits)

lemma transferLoop_rest:
  "transferLoop perform evs st = Ret (aborted, rest, st') \<Longrightarrow>
     aborted = (Cancelled \<in> set evs) \<and> files_of rest = late evs \<and> trDiscarded st' = trDiscarded st"
  by (induction perform evs st rule: transferLoop.induct)
    (auto simp: Let_def split: prod.splits outcome.splits if_splits)

lemma retryLoop_discarded:
  "retryLoop perform cancelled aborted fs st = Ret st' \<Longrightarrow> trDiscarded st' = trDiscarded st"
  by (induction perform cancelled aborted fs st rule: retryLoop.induct)
    (auto split: prod.splits outcome.splits if_splits)

lemma transferLoop_files:
  assumes "transferLoop perform evs st = Ret (aborted, rest, st')" "paired (trOutput st) (trReport st)"
  shows "mset (map fiFile (trOutput st')) + mset (trRetry st') =
      mset (map fiFile (trOutput st)) + mset (trRetry st) + mset (received evs) \<and>
    paired (trOutput st') (trReport st') \<and>
    (\<exists>new. trOutput st' = trOutput st @ new \<and> (\<forall>i\<in>set new. \<not> fiFailed i))"
  using assms
proof (induction perform evs st rule: transferLoop.induct)
  case (3 perform f evs st)
  obtain w r where p: "perform f (trWorld st) = (w, r)" by fastforce
  with "3.prems"(1) obtain result sz where r: "r = Ret (result, sz)" by (cases r) auto
  show ?case
  proof (cases "result = TransferFailed")
    case True
    with "3.IH"(1)[OF p[symmetric] r] "3.prems" p r show ?thesis by (auto simp: Let_def)
  next
    case False
    have pr: "paired (trOutput (emit f result sz (st\<lparr>trWorld := w\<rparr>))) (trReport (emit f result sz (st\<lparr>trWorld := w\<rparr>)))"
      using "3.prems"(2) by (intro paired_emit) simp
    from "3.prems"(1) p r False have
      "transferLoop perform evs (emit f result sz (st\<lparr>trWorld := w\<rparr>)) = Ret (aborted, rest, st')" by (simp add: Let_def)
    from "3.IH"(2)[OF p[symmetric] r] False this pr
    have ih: "mset (map fiFile (trOutput st')) + mset (trRetry st') =
        mset (map fiFile (trOutput (emit f result sz (st\<lparr>trWorld := w\<rparr>)))) + mset (trRetry st) + mset (received evs) \<and>
      paired (trOutput st') (trReport st') \<and>
      (\<exists>new. trOutput st' = trOutput (emit f result sz (st\<lparr>trWorld := w\<rparr>)) @ new \<and> (\<forall>i\<in>set new. \<not> fiFailed i))"
      by simp
    then obtain new where new: "trOutput st' = trOutput (emit f result sz (st\<lparr>trWorld := w\<rparr>)) @ new"
      "\<forall>i\<in>set new. \<not> fiFailed i" by blast
    with False have "\<exists>new. trOutput st' = trOutput st @ new \<and> (\<forall>i\<in>set new. \<not> fiFailed i)"
      by (intro exI[of _ "\<lparr>fiFile = f, fiFailed = False\<rparr> # new"]) (simp add: emit_def)
    with ih show ?thesis by (simp del: map_append)
  qed
qed auto

lemma retryLoop_files:
  assumes "retryLoop perform cancelled aborted fs st = Ret st'" "paired (trOutput st) (trReport st)"
  shows "map fiFile (trOutput st') = map fiFile (trOutput st) @ fs \<and> paired (trOutput st') (trReport st') \<and>
    (\<exists>new. trOutput st' = trOutput st @ new)"
  using assms
proof (induction perform cancelled aborted fs st rule: retryLoop.induct)
  case (2 perform cancelled aborted f fs st)
  have grow: "\<exists>new. trOutput (emit f r n st0) = trOutput st0 @ new" for r n and st0 :: "'a transferor"
    by (simp add: emit_def)
  show ?case
  proof (cases "\<not> aborted \<and> \<not> cancelled (trWorld st)")
    case True
    obtain w r where p: "perform f (trWorld st) = (w, r)" by fastforce
    with True "2.prems"(1) obtain result sz where r: "r = Ret (result, sz)" by (cases r) auto
    have pr: "paired (trOutput (emit f result sz (st\<lparr>trWorld := w\<rparr>))) (trReport (emit f result sz (st\<lparr>trWorld := w\<rparr>)))"
      using "2.prems"(2) by (intro paired_emit) simp
    from "2.IH"(1)[OF True p[symmetric] r _ _ pr] "2.prems"(1) True p r show ?thesis
      by (auto simp: emit_def)
  next
    case False
    with "2.IH"(2)[OF False _ paired_emit[OF "2.prems"(2)]] "2.prems"(1) show ?thesis by (auto simp: emit_def)
  qed
qed auto

section \<open>Attempts\<close>

text \<open>The same transfers with a log of the attempts and their results.\<close>

type_synonym attempt = "tfile \<times> TransferResult"

definition counted :: "'w perform \<Rightarrow> ('w \<times> attempt list) perform" where
  "counted perform f wl =
     (case perform f (fst wl) of
        (w, Panic m) \<Rightarrow> ((w, snd wl), Panic m)
      | (w, Ret (result, sz)) \<Rightarrow> ((w, snd wl @ [(f, result)]), Ret (result, sz)))"

definition failedAttempt :: "attempt \<Rightarrow> bool" where
  "failedAttempt a \<longleftrightarrow> snd a = TransferFailed"

lemma transferLoop_attempts:
  assumes "transferLoop (counted perform) evs st = Ret (aborted, rest, st')"
  shows "\<exists>new. snd (trWorld st') = snd (trWorld st) @ new \<and> map fst new = received evs \<and>
    trRetry st' = trRetry st @ map fst (filter failedAttempt new) \<and>
    map fiFile (trOutput st') = map fiFile (trOutput st) @ map fst (filter (Not \<circ> failedAttempt) new)"
  using assms
proof (induction "counted perform" evs st rule: transferLoop.induct)
  case (3 f evs st)
  obtain w r where p: "perform f (fst (trWorld st)) = (w, r)" by fastforce
  with "3.prems" obtain result sz where r: "r = Ret (result, sz)" by (cases r) (auto simp: counted_def)
  let ?w = "(w, snd (trWorld st) @ [(f, result)])"
  have c: "counted perform f (trWorld st) = (?w, Ret (result, sz))" using p r by (simp add: counted_def)
  show ?case
  proof (cases "result = TransferFailed")
    case True
    with "3.prems" c have "transferLoop (counted perform) evs (st\<lparr>trWorld := ?w, trRetry := trRetry st @ [f]\<rparr>) = Ret (aborted, rest, st')"
      by (simp add: Let_def)
    with "3.hyps"(1)[OF c[symmetric] refl refl refl True] obtain new where
      "snd (trWorld st') = snd (trWorld st) @ (f, result) # new" "map fst new = received evs"
      "trRetry st' = trRetry st @ f # map fst (filter failedAttempt new)"
      "map fiFile (trOutput st') = map fiFile (trOutput st) @ map fst (filter (Not \<circ> failedAttempt) new)"
      by (auto simp: Let_def)
    with True show ?thesis by (intro exI[of _ "(f, result) # new"]) (simp add: failedAttempt_def)
  next
    case False
    with "3.prems" c have "transferLoop (counted perform) evs (emit f result sz (st\<lparr>trWorld := ?w\<rparr>)) = Ret (aborted, rest, st')"
      by (simp add: Let_def)
    with "3.hyps"(2)[OF c[symmetric] refl refl refl False] obtain new where
      "snd (trWorld st') = snd (trWorld st) @ (f, result) # new" "map fst new = received evs"
      "trRetry st' = trRetry st @ map fst (filter failedAttempt new)"
      "map fiFile (trOutput st') = map fiFile (trOutput st) @ f # map fst (filter (Not \<circ> failedAttempt) new)"
      by (auto simp: Let_def)
    with False show ?thesis by (intro exI[of _ "(f, result) # new"]) (simp add: failedAttempt_def)
  qed
qed auto

lemma retryLoop_attempts:
  assumes "retryLoop (counted perform) cancelled aborted fs st = Ret st'"
  shows "\<exists>new outs. snd (trWorld st') = snd (trWorld st) @ new \<and> trOutput st' = trOutput st @ outs \<and>
    mset (map fst new) \<subseteq># mset fs \<and>
    (\<forall>i\<in>set outs. \<not> fiFailed i \<longrightarrow> (\<exists>a\<in>set new. fst a = fiFile i \<and> \<not> failedAttempt a)) \<and>
    (aborted \<longrightarrow> new = [])"
  using assms
proof (induction fs arbitrary: st)
  case (Cons f fs)
  show ?case
  proof (cases "\<not> aborted \<and> \<not> cancelled (trWorld st)")
    case True
    obtain w r where p: "perform f (fst (trWorld st)) = (w, r)" by fastforce
    with True Cons.prems obtain result sz where r: "r = Ret (result, sz)" by (cases r) (auto simp: counted_def)
    let ?w = "(w, snd (trWorld st) @ [(f, result)])"
    have c: "counted perform f (trWorld st) = (?w, Ret (result, sz))" using p r by (simp add: counted_def)
    have "retryLoop (counted perform) cancelled aborted fs (emit f result sz (st\<lparr>trWorld := ?w\<rparr>)) = Ret st'"
      using Cons.prems True c by simp
    from Cons.IH[OF this] obtain new outs where
      "snd (trWorld st') = snd (trWorld st) @ (f, result) # new"
      "trOutput st' = trOutput st @ \<lparr>fiFile = f, fiFailed = (result = TransferFailed)\<rparr> # outs"
      "mset (map fst new) \<subseteq># mset fs"
      "\<forall>i\<in>set outs. \<not> fiFailed i \<longrightarrow> (\<exists>a\<in>set new. fst a = fiFile i \<and> \<not> failedAttempt a)"
      by (auto simp: emit_def)
    then show ?thesis
      using True
      by (intro exI[of _ "(f, result) # new"] exI[of _ "\<lparr>fiFile = f, fiFailed = (result = TransferFailed)\<rparr> # outs"])
        (auto simp: failedAttempt_def)
  next
    case False
    then have "retryLoop (counted perform) cancelled aborted fs (emit f TransferFailed 0 st) = Ret st'"
      using Cons.prems by (simp split: if_splits)
    from Cons.IH[OF this] obtain new outs where
      "snd (trWorld st') = snd (trWorld st) @ new"
      "trOutput st' = trOutput st @ \<lparr>fiFile = f, fiFailed = True\<rparr> # outs"
      "mset (map fst new) \<subseteq># mset fs"
      "\<forall>i\<in>set outs. \<not> fiFailed i \<longrightarrow> (\<exists>a\<in>set new. fst a = fiFile i \<and> \<not> failedAttempt a)"
      "aborted \<longrightarrow> new = []"
      by (auto simp: emit_def)
    then show ?thesis
      by (intro exI[of _ new] exI[of _ "\<lparr>fiFile = f, fiFailed = True\<rparr> # outs"])
        (auto intro: subset_mset.order_trans)
  qed
qed auto

lemma Transferor_Run_files:
  assumes "Transferor_Run perform cancelled evs w = Ret st"
  shows "mset (map fiFile (trOutput st)) = mset (received evs)" "paired (trOutput st) (trReport st)"
    "trDiscarded st = late evs"
proof -
  from assms obtain aborted rest st1 st2 where
    l: "transferLoop perform evs (Transferor_init w) = Ret (aborted, rest, st1)"
    and r: "retryLoop perform cancelled aborted (trRetry st1) st1 = Ret st2"
    and st: "st = st2\<lparr>trDiscarded := trDiscarded st2 @ files_of rest\<rparr>"
    by (rule Transferor_Run_phases)
  from transferLoop_rest[OF l] retryLoop_discarded[OF r] st show "trDiscarded st = late evs" by simp
  from transferLoop_files[OF l] have
    1: "mset (map fiFile (trOutput st1)) + mset (trRetry st1) = mset (received evs)"
    and 2: "paired (trOutput st1) (trReport st1)" by (auto simp: paired_def)
  from retryLoop_files[OF r 2] 1 st show "mset (map fiFile (trOutput st)) = mset (received evs)"
    "paired (trOutput st) (trReport st)" by (auto simp del: map_append)
qed

section \<open>The transfers of a run\<close>

text \<open>
  The files that are transferred one after the other, each with the state of the world that its transfer
  meets, and the state after all of them. A run transfers the files that it received and then some of
  them again.
\<close>

fun visited :: "'w perform \<Rightarrow> tfile list \<Rightarrow> 'w \<Rightarrow> (tfile \<times> 'w) list" where
  "visited perform [] v = []"
| "visited perform (f # fs) v = (f, v) # visited perform fs (fst (perform f v))"

definition after_all :: "'w perform \<Rightarrow> tfile list \<Rightarrow> 'w \<Rightarrow> 'w" where
  "after_all perform fs v = fold (\<lambda>f v. fst (perform f v)) fs v"

lemma after_all_simps [simp]:
  "after_all perform [] v = v" "after_all perform (fs @ gs) v = after_all perform gs (after_all perform fs v)"
  "after_all perform (f # fs) v = after_all perform fs (fst (perform f v))"
  by (simp_all add: after_all_def)

lemma visited_append: "visited perform (fs @ gs) v = visited perform fs v @ visited perform gs (after_all perform fs v)"
  by (induction fs arbitrary: v) auto

text \<open>A file is only passed on as not failed after a transfer that did not fail.\<close>

definition succeeded :: "'w perform \<Rightarrow> 'w \<Rightarrow> tfile list \<Rightarrow> tfile \<Rightarrow> bool" where
  "succeeded perform w fs f \<longleftrightarrow>
     (\<exists>v v' result n. (f, v) \<in> set (visited perform fs w) \<and> perform f v = (v', Ret (result, n)) \<and>
        result \<noteq> TransferFailed)"

definition accounted :: "'w perform \<Rightarrow> 'w \<Rightarrow> tfile list \<Rightarrow> 'w transferor \<Rightarrow> bool" where
  "accounted perform w fs st \<longleftrightarrow>
     trWorld st = after_all perform fs w \<and> (\<forall>i\<in>set (trOutput st). fiFailed i \<or> succeeded perform w fs (fiFile i))"

lemma succeeded_more: "succeeded perform w fs f \<Longrightarrow> succeeded perform w (fs @ gs) f"
  by (auto simp: succeeded_def visited_append)

lemma accounted_perform:
  assumes "accounted perform w fs st" "perform f (trWorld st) = (v, Ret (result, n))"
  shows "accounted perform w (fs @ [f]) (st\<lparr>trWorld := v, trRetry := rs\<rparr>)"
    and "accounted perform w (fs @ [f]) (emit f result n (st\<lparr>trWorld := v\<rparr>))"
proof -
  have v: "v = after_all perform (fs @ [f]) w" using assms by (simp add: accounted_def)
  have new: "result = TransferFailed \<or> succeeded perform w (fs @ [f]) f"
    using assms by (auto simp: succeeded_def visited_append accounted_def)
  have old: "\<forall>i\<in>set (trOutput st). fiFailed i \<or> succeeded perform w (fs @ [f]) (fiFile i)"
  proof
    fix i assume "i \<in> set (trOutput st)"
    with assms(1) have "fiFailed i \<or> succeeded perform w fs (fiFile i)" by (simp add: accounted_def)
    with succeeded_more[of perform w fs "fiFile i" "[f]"] show "fiFailed i \<or> succeeded perform w (fs @ [f]) (fiFile i)"
      by blast
  qed
  show "accounted perform w (fs @ [f]) (st\<lparr>trWorld := v, trRetry := rs\<rparr>)"
    unfolding accounted_def using v old by simp
  show "accounted perform w (fs @ [f]) (emit f result n (st\<lparr>trWorld := v\<rparr>))"
    unfolding accounted_def emit_def using v old new by simp
qed

lemma transferLoop_accounted:
  "transferLoop perform evs st = Ret (aborted, rest, st') \<Longrightarrow> accounted perform w fs st \<Longrightarrow>
     accounted perform w (fs @ received evs) st' \<and> set (trRetry st') \<subseteq> set (trRetry st) \<union> set (received evs)"
proof (induction perform evs st arbitrary: fs rule: transferLoop.induct)
  case (3 perform f evs st)
  obtain v r where p: "perform f (trWorld st) = (v, r)" by fastforce
  with "3.prems"(1) obtain result n where r: "r = Ret (result, n)" by (cases r) auto
  note acc = accounted_perform[OF "3.prems"(2) p[unfolded r]]
  show ?case
  proof (cases "result = TransferFailed")
    case True
    with "3.prems"(1) p r have
      "transferLoop perform evs (st\<lparr>trWorld := v, trRetry := trRetry st @ [f]\<rparr>) = Ret (aborted, rest, st')" by simp
    with "3.IH"(1)[OF p[symmetric] r refl refl True, of "fs @ [f]"] acc(1)[of "trRetry st @ [f]"] show ?thesis by auto
  next
    case False
    with "3.prems"(1) p r have
      "transferLoop perform evs (emit f result n (st\<lparr>trWorld := v\<rparr>)) = Ret (aborted, rest, st')" by simp
    with "3.IH"(2)[OF p[symmetric] r refl refl False, of "fs @ [f]"] acc(2) show ?thesis by auto
  qed
qed auto

lemma retryLoop_accounted:
  "retryLoop perform cancelled aborted gs st = Ret st' \<Longrightarrow> accounted perform w fs st \<Longrightarrow>
     \<exists>rs. set rs \<subseteq> set gs \<and> accounted perform w (fs @ rs) st'"
proof (induction gs arbitrary: st fs)
  case Nil
  then show ?case by (intro exI[of _ "[]"]) simp
next
  case (Cons g gs)
  show ?case
  proof (cases "\<not> aborted \<and> \<not> cancelled (trWorld st)")
    case True
    obtain v r where p: "perform g (trWorld st) = (v, r)" by fastforce
    with Cons.prems(1) True obtain result n where r: "r = Ret (result, n)" by (cases r) auto
    with Cons.prems(1) True p have
      "retryLoop perform cancelled aborted gs (emit g result n (st\<lparr>trWorld := v\<rparr>)) = Ret st'" by simp
    from Cons.IH[OF this accounted_perform(2)[OF Cons.prems(2) p[unfolded r]]]
    obtain rs where "set rs \<subseteq> set gs" "accounted perform w ((fs @ [g]) @ rs) st'" by blast
    then show ?thesis by (intro exI[of _ "g # rs"]) auto
  next
    case False
    with Cons.prems(1) have "retryLoop perform cancelled aborted gs (emit g TransferFailed 0 st) = Ret st'"
      by (simp split: if_splits)
    moreover have "accounted perform w fs (emit g TransferFailed 0 st)"
      using Cons.prems(2) by (auto simp: accounted_def emit_def)
    ultimately obtain rs where "set rs \<subseteq> set gs" "accounted perform w (fs @ rs) st'" using Cons.IH by blast
    then show ?thesis by (intro exI[of _ rs]) auto
  qed
qed

lemma Transferor_Run_succeeded:
  assumes "Transferor_Run perform cancelled evs w = Ret st" "i \<in> set (trOutput st)" "\<not> fiFailed i"
  shows "\<exists>rs. set rs \<subseteq> set (received evs) \<and> succeeded perform w (received evs @ rs) (fiFile i)"
proof -
  from assms(1) obtain aborted rest st1 st2 where
    l: "transferLoop perform evs (Transferor_init w) = Ret (aborted, rest, st1)"
    and r: "retryLoop perform cancelled aborted (trRetry st1) st1 = Ret st2"
    and st: "st = st2\<lparr>trDiscarded := trDiscarded st2 @ files_of rest\<rparr>"
    by (rule Transferor_Run_phases)
  have "accounted perform w [] (Transferor_init w)" by (simp add: accounted_def)
  from transferLoop_accounted[OF l this] have a: "accounted perform w (received evs) st1"
    and s: "set (trRetry st1) \<subseteq> set (received evs)" by simp_all
  from retryLoop_accounted[OF r a] obtain rs where "set rs \<subseteq> set (trRetry st1)"
    "accounted perform w (received evs @ rs) st2" by blast
  with s st assms(2,3) show ?thesis by (auto simp: accounted_def)
qed

section \<open>Properties\<close>

text \<open>C12: every file in the input is accounted for. For every schedule, whatever transfers fail and
  whenever the run is cancelled, a transferor that returns has sent exactly one FileInfoForCleaner and
  exactly one report for each file that it received before the cancellation, and the two agree on whether
  the file failed. The files that come after the cancellation are discarded, each of them, without an
  info and without a report; without a cancellation there are none.\<close>

theorem transferor_accounts:
  assumes "Transferor_Run perform cancelled evs w = Ret st"
  shows "mset (map fiFile (trOutput st)) = mset (received evs) \<and>
    list_all2 (\<lambda>i e. IsFile e \<and> \<not> evIsDirectory e \<and> fiFailed i = (FileTransferResult e = TransferFailed))
      (trOutput st) (trReport st) \<and>
    files_of evs = received evs @ trDiscarded st \<and> (Cancelled \<notin> set evs \<longrightarrow> trDiscarded st = [])"
  using Transferor_Run_files[OF assms] by (auto simp: paired_def files_split late_uncancelled elim: list_all2_mono)

text \<open>C23: every file that is received before a cancellation is transferred at least once and at most twice,
  exactly once if the main loop was cancelled, and a file is only passed on to the cleaner as not failed
  if one of these attempts had succeeded or had been skipped. Files that come after the cancellation are
  not transferred at all: the attempts of a cancelled run are those of the files received before.\<close>

theorem transferor_attempts:
  assumes "Transferor_Run (counted perform) cancelled evs (w, []) = Ret st"
  shows "mset (received evs) \<subseteq># mset (map fst (snd (trWorld st))) \<and>
    mset (map fst (snd (trWorld st))) \<subseteq># mset (received evs) + mset (received evs) \<and>
    (Cancelled \<in> set evs \<longrightarrow> map fst (snd (trWorld st)) = received evs) \<and>
    (\<forall>i\<in>set (trOutput st). \<not> fiFailed i \<longrightarrow>
       (\<exists>result. (fiFile i, result) \<in> set (snd (trWorld st)) \<and> result \<noteq> TransferFailed))"
proof -
  from assms obtain aborted rest st1 st2 where
    l: "transferLoop (counted perform) evs (Transferor_init (w, [])) = Ret (aborted, rest, st1)"
    and r: "retryLoop (counted perform) cancelled aborted (trRetry st1) st1 = Ret st2"
    and st: "st = st2\<lparr>trDiscarded := trDiscarded st2 @ files_of rest\<rparr>"
    by (rule Transferor_Run_phases)
  from transferLoop_attempts[OF l] obtain new1 where
    1: "snd (trWorld st1) = new1" "map fst new1 = received evs"
      "trRetry st1 = map fst (filter failedAttempt new1)"
      "map fiFile (trOutput st1) = map fst (filter (Not \<circ> failedAttempt) new1)" by auto
  from retryLoop_attempts[OF r] obtain new2 outs where
    2: "snd (trWorld st2) = snd (trWorld st1) @ new2" "trOutput st2 = trOutput st1 @ outs"
      "mset (map fst new2) \<subseteq># mset (trRetry st1)"
      "\<forall>i\<in>set outs. \<not> fiFailed i \<longrightarrow> (\<exists>a\<in>set new2. fst a = fiFile i \<and> \<not> failedAttempt a)"
      "aborted \<Longrightarrow> new2 = []" by blast
  have "mset (trRetry st1) \<subseteq># mset (received evs)"
    unfolding 1(3) 1(2)[symmetric] mset_map by (intro image_mset_subseteq_mono) simp
  with 2(3) have "mset (map fst new2) \<subseteq># mset (received evs)" by (rule subset_mset.order_trans)
  moreover have "\<exists>result. (fiFile i, result) \<in> set (snd (trWorld st2)) \<and> result \<noteq> TransferFailed"
    if i: "i \<in> set (trOutput st2)" "\<not> fiFailed i" for i
  proof (cases "i \<in> set outs")
    case True
    with 2(4) i obtain a where "a \<in> set new2" "fst a = fiFile i" "\<not> failedAttempt a" by blast
    then have "(fiFile i, snd a) \<in> set (snd (trWorld st2))" by (metis 2(1) prod.collapse set_append UnI1 UnI2)
    with \<open>\<not> failedAttempt a\<close> show ?thesis by (auto simp: failedAttempt_def)
  next
    case False
    with i 2(2) have "fiFile i \<in> set (map fiFile (trOutput st1))" by auto
    then obtain a where "a \<in> set new1" "fst a = fiFile i" "\<not> failedAttempt a" unfolding 1(4) by auto
    then have "(fiFile i, snd a) \<in> set (snd (trWorld st2))" by (metis 2(1) 1(1) prod.collapse set_append UnI1 UnI2)
    with \<open>\<not> failedAttempt a\<close> show ?thesis by (auto simp: failedAttempt_def)
  qed
  moreover have "Cancelled \<in> set evs \<Longrightarrow> map fst (snd (trWorld st2)) = received evs"
    using transferLoop_rest[OF l] 1(1,2) 2(1,5) by simp
  ultimately show ?thesis using 1(1,2) 2(1) st by (auto simp: subset_mset.add_increasing2)
qed

text \<open>Transfers by numbers: the world counts the transfers, those with an even number fail.\<close>

definition flaky :: "nat perform" where
  "flaky f n = (Suc n, Ret (if even n then TransferFailed else TransferSuccess, if even n then 0 else 9))"

definition demo_events :: "input_event list" where
  "demo_events = [Receive (0, fileSpec ''a''), Receive (0, fileSpec ''b''), Receive (0, fileSpec ''c''), Cancelled]"

lemma demo_transferor:
  "Transferor_Run flaky (\<lambda>n. False) (butlast demo_events) 0 =
     Ret \<lparr>trWorld = 5, trRetry = [(0, fileSpec ''a''), (0, fileSpec ''c'')],
       trOutput = [\<lparr>fiFile = (0, fileSpec ''b''), fiFailed = False\<rparr>, \<lparr>fiFile = (0, fileSpec ''a''), fiFailed = False\<rparr>,
         \<lparr>fiFile = (0, fileSpec ''c''), fiFailed = True\<rparr>],
       trReport = [fileEvent TransferSuccess 9, fileEvent TransferSuccess 9, fileEvent TransferFailed 0],
       trDiscarded = []\<rparr>"
  by (simp add: Transferor_Run_def Transferor_init_def demo_events_def flaky_def emit_def)

text \<open>A cancelled run: b arrived before the cancellation and c after it.\<close>

definition late_events :: "input_event list" where
  "late_events = [Receive (0, fileSpec ''a''), Receive (0, fileSpec ''b''), Cancelled, Receive (0, fileSpec ''c'')]"

lemma late_transferor:
  "Transferor_Run (counted flaky) (\<lambda>wl. True) late_events (0, []) =
     Ret \<lparr>trWorld = (2, [((0, fileSpec ''a''), TransferFailed), ((0, fileSpec ''b''), TransferSuccess)]),
       trRetry = [(0, fileSpec ''a'')],
       trOutput = [\<lparr>fiFile = (0, fileSpec ''b''), fiFailed = False\<rparr>, \<lparr>fiFile = (0, fileSpec ''a''), fiFailed = True\<rparr>],
       trReport = [fileEvent TransferSuccess 9, fileEvent TransferFailed 0],
       trDiscarded = [(0, fileSpec ''c'')]\<rparr>"
  by (simp add: Transferor_Run_def Transferor_init_def late_events_def flaky_def emit_def counted_def)

text \<open>
  Not every file of the input gets a report, as the comment at the type \<^verbatim>\<open>Transferor\<close> says.
\<close>

lemma not_every_file_reported:
  "\<exists>st. Transferor_Run (counted flaky) (\<lambda>wl. True) late_events (0, []) = Ret st \<and>
     length (files_of late_events) = 3 \<and> length (trReport st) = 2 \<and> (0, fileSpec ''c'') \<notin> fst ` set (snd (trWorld st))"
  by (simp add: late_transferor) (simp add: late_events_def fileSpec_def)

theorem transferor_accounts_witness:
  "\<exists>st. Transferor_Run (counted flaky) (\<lambda>wl. True) late_events (0, []) = Ret st \<and>
     mset (map fiFile (trOutput st)) = {#(0, fileSpec ''a''), (0, fileSpec ''b'')#} \<and>
     trDiscarded st = [(0, fileSpec ''c'')]"
  using transferor_accounts[OF late_transferor] by (simp add: late_transferor) (simp add: late_events_def)

theorem transferor_attempts_witness:
  "\<exists>st. Transferor_Run (counted flaky) (\<lambda>n. False) (butlast demo_events) (0, []) = Ret st \<and>
     map fst (snd (trWorld st)) = [(0, fileSpec ''a''), (0, fileSpec ''b''), (0, fileSpec ''c''),
       (0, fileSpec ''a''), (0, fileSpec ''c'')] \<and>
     mset (map fst (snd (trWorld st))) \<subseteq># mset (received (butlast demo_events)) + mset (received (butlast demo_events))"
proof -
  obtain st where st: "Transferor_Run (counted flaky) (\<lambda>n. False) (butlast demo_events) (0, []) = Ret st"
    and a: "map fst (snd (trWorld st)) = [(0, fileSpec ''a''), (0, fileSpec ''b''), (0, fileSpec ''c''),
       (0, fileSpec ''a''), (0, fileSpec ''c'')]"
    by (simp add: Transferor_Run_def Transferor_init_def demo_events_def flaky_def emit_def counted_def)
  show ?thesis
    using st a transferor_attempts[OF st, THEN conjunct2, THEN conjunct1] by (intro exI[of _ st] conjI)
qed

end
