(* ===== verification/Cleaner.thy ===== *)
theory Cleaner
  imports Transferor SwiftStore
begin

text \<open>
  \<^verbatim>\<open>pkg/actors/cleaner.go\<close>: the actor that deletes the objects of the target which are not at the
  source. \<open>incomplete\<close> has the jobs whose scraping is incomplete. Go iterates over a map in any order:
  \<open>Cleaner_Run\<close> takes the order of the jobs as an argument.
\<close>

section \<open>Definitions\<close>

text \<open>\<^verbatim>\<open>isJobFailed\<close> and \<^verbatim>\<open>isFileTransferred\<close>, whose inner maps are sets of object names.\<close>

record collected =
  isJobFailed :: "nat set"
  isFileTransferred :: "nat \<rightharpoonup> string set"

definition collectInfo :: "('w, 'r) Job list \<Rightarrow> FileInfoForCleaner \<Rightarrow> collected \<Rightarrow> collected" where
  "collectInfo jobs info c =
     (case fiFile info of
        (j, spec) \<Rightarrow>
          if jbCleanup (jobs ! j) = KeepUnknownFiles then c
          else
            let c1 = (if fiFailed info then c\<lparr>isJobFailed := insert j (isJobFailed c)\<rparr> else c);
                m = (case isFileTransferred c1 j of None \<Rightarrow> {} | Some m \<Rightarrow> m)
            in c1\<lparr>isFileTransferred :=
                 (isFileTransferred c1)(j \<mapsto> insert (obName (TargetObject (jobs ! j) spec)) m)\<rparr>)"

definition collect :: "('w, 'r) Job list \<Rightarrow> FileInfoForCleaner list \<Rightarrow> collected" where
  "collect jobs infos = fold (collectInfo jobs) infos \<lparr>isJobFailed = {}, isFileTransferred = Map.empty\<rparr>"

text \<open>
  \<open>bulk\<close> is \<^verbatim>\<open>Account.BulkDelete\<close>, which returns the number of deleted objects and an error. (The type of
  the world in the jobs does not matter here, since their sources are not used.)
\<close>

type_synonym 'w bulkDelete = "account \<Rightarrow> object list \<Rightarrow> 'w \<Rightarrow> 'w \<times> int \<times> goerror option"

record 'w cleaner =
  clWorld :: 'w
  clReport :: "ReportEvent list"

text \<open>The unknown objects of a job in the order of their names.\<close>

definition unknownObjects :: "('w, 'r) Job \<Rightarrow> string set \<Rightarrow> object list" where
  "unknownObjects job transferred =
     map (\<lambda>objectName. \<lparr>obContainer = the (Container (jbTarget job)), obName = objectName\<rparr>)
       (sorted_list_of_set (FileExists (jbTarget job) - transferred))"

definition performCleanup ::
  "'w bulkDelete \<Rightarrow> ('v, 'r) Job \<Rightarrow> string set \<Rightarrow> 'w cleaner \<Rightarrow> 'w cleaner" where
  "performCleanup bulk job transferred st =
     (let objs = unknownObjects job transferred
      in if jbCleanup job = DeleteUnknownFiles then
           (case bulk (cnAccount (the (Container (jbTarget job)))) objs (clWorld st) of
              (w, numDeleted, err) \<Rightarrow>
                let numDeleted' = (if numDeleted < 0 then 0 else numDeleted)
                in st\<lparr>clWorld := w,
                      clReport := clReport st @ [cleanupEvent (AtLeastZero (word_of_int numDeleted'))]\<rparr>)
         else st)"

fun cleanupLoop ::
  "'w bulkDelete \<Rightarrow> ('v, 'r) Job list \<Rightarrow> ('w \<Rightarrow> bool) \<Rightarrow> nat set \<Rightarrow> (nat \<rightharpoonup> string set) \<Rightarrow> nat list \<Rightarrow>
    'w cleaner \<Rightarrow> 'w cleaner" where
  "cleanupLoop bulk jobs cancelled failed transferred [] st = st"
| "cleanupLoop bulk jobs cancelled failed transferred (j # js) st =
     (if cancelled (clWorld st) then st
      else
        cleanupLoop bulk jobs cancelled failed transferred js
          (if j \<notin> failed then performCleanup bulk (jobs ! j) (the (transferred j)) st else st))"

definition Cleaner_Run ::
  "'w bulkDelete \<Rightarrow> ('v, 'r) Job list \<Rightarrow> ('w \<Rightarrow> bool) \<Rightarrow> nat set \<Rightarrow> nat list \<Rightarrow> FileInfoForCleaner list \<Rightarrow> 'w \<Rightarrow>
    'w cleaner" where
  "Cleaner_Run bulk jobs cancelled incomplete order infos w =
     (let c = collect jobs infos; st = \<lparr>clWorld = w, clReport = []\<rparr>
      in if cancelled w then st
         else
           let failed = isJobFailed c \<union> (dom (isFileTransferred c) \<inter> incomplete)
           in cleanupLoop bulk jobs cancelled failed (isFileTransferred c) order st)"

section \<open>What is collected\<close>

definition objectNames :: "('w, 'r) Job list \<Rightarrow> FileInfoForCleaner list \<Rightarrow> nat \<Rightarrow> string set" where
  "objectNames jobs infos j = {obName (TargetObject (jobs ! j) spec) |spec. \<exists>i\<in>set infos. fiFile i = (j, spec)}"

definition cleanedJob :: "('w, 'r) Job list \<Rightarrow> FileInfoForCleaner list \<Rightarrow> nat \<Rightarrow> bool" where
  "cleanedJob jobs infos j \<longleftrightarrow> jbCleanup (jobs ! j) \<noteq> KeepUnknownFiles \<and> (\<exists>i\<in>set infos. fst (fiFile i) = j)"

lemma objectNames_snoc:
  "objectNames jobs (infos @ [i]) j =
     objectNames jobs infos j \<union> (if fst (fiFile i) = j then {obName (TargetObject (jobs ! j) (snd (fiFile i)))} else {})"
  by (cases "fiFile i") (auto simp: objectNames_def)

lemma collect_correct:
  "isJobFailed (collect jobs infos) =
     {j. jbCleanup (jobs ! j) \<noteq> KeepUnknownFiles \<and> (\<exists>i\<in>set infos. fst (fiFile i) = j \<and> fiFailed i)} \<and>
   isFileTransferred (collect jobs infos) =
     (\<lambda>j. if cleanedJob jobs infos j then Some (objectNames jobs infos j) else None)"
proof (induction infos rule: rev_induct)
  case Nil
  then show ?case by (simp add: collect_def cleanedJob_def)
next
  case (snoc i infos)
  obtain j spec where f: "fiFile i = (j, spec)" by fastforce
  let ?c = "collect jobs infos" and ?name = "obName (TargetObject (jobs ! j) spec)"
  have c: "collect jobs (infos @ [i]) = collectInfo jobs i ?c" by (simp add: collect_def)
  have failed: "isJobFailed (collectInfo jobs i ?c) =
      (if jbCleanup (jobs ! j) \<noteq> KeepUnknownFiles \<and> fiFailed i then insert j (isJobFailed ?c) else isJobFailed ?c)"
    by (simp add: collectInfo_def f Let_def)
  have transferred: "isFileTransferred (collectInfo jobs i ?c) =
      (if jbCleanup (jobs ! j) = KeepUnknownFiles then isFileTransferred ?c
       else (isFileTransferred ?c)(j \<mapsto> insert ?name (case isFileTransferred ?c j of None \<Rightarrow> {} | Some m \<Rightarrow> m)))"
    by (simp add: collectInfo_def f Let_def)
  have "objectNames jobs infos j = {}" if "\<not> cleanedJob jobs infos j" "jbCleanup (jobs ! j) \<noteq> KeepUnknownFiles"
    using that by (force simp: cleanedJob_def objectNames_def)
  with snoc.IH have "isFileTransferred (collectInfo jobs i ?c) =
      (\<lambda>j. if cleanedJob jobs (infos @ [i]) j then Some (objectNames jobs (infos @ [i]) j) else None)"
    unfolding transferred by (auto simp: fun_eq_iff cleanedJob_def f objectNames_snoc)
  moreover from snoc.IH have "isJobFailed (collectInfo jobs i ?c) =
     {j. jbCleanup (jobs ! j) \<noteq> KeepUnknownFiles \<and> (\<exists>i\<in>set (infos @ [i]). fst (fiFile i) = j \<and> fiFailed i)}"
    unfolding failed by (auto simp: f)
  ultimately show ?case unfolding c by blast
qed

section \<open>What is deleted\<close>

text \<open>The requests for deletion, in order, are observed by a log.\<close>

type_synonym deletion = "account \<times> object list"

definition logDeletions :: "'w bulkDelete \<Rightarrow> ('w \<times> deletion list) bulkDelete" where
  "logDeletions bulk a objs wl =
     (case bulk a objs (fst wl) of (w, n, e) \<Rightarrow> ((w, snd wl @ [(a, objs)]), n, e))"

definition safeJob :: "('w, 'r) Job list \<Rightarrow> nat set \<Rightarrow> FileInfoForCleaner list \<Rightarrow> nat \<Rightarrow> bool" where
  "safeJob jobs incomplete infos j \<longleftrightarrow>
     jbCleanup (jobs ! j) = DeleteUnknownFiles \<and> (\<exists>i\<in>set infos. fst (fiFile i) = j) \<and>
     (\<forall>i\<in>set infos. fst (fiFile i) = j \<longrightarrow> \<not> fiFailed i) \<and> j \<notin> incomplete"

definition deletionOf :: "('w, 'r) Job list \<Rightarrow> FileInfoForCleaner list \<Rightarrow> nat \<Rightarrow> deletion" where
  "deletionOf jobs infos j =
     (cnAccount (the (Container (jbTarget (jobs ! j)))), unknownObjects (jobs ! j) (objectNames jobs infos j))"

lemma KeepUnknownFiles_neq [simp]: "KeepUnknownFiles \<noteq> DeleteUnknownFiles" "DeleteUnknownFiles \<noteq> KeepUnknownFiles"
  by (simp_all add: KeepUnknownFiles_def DeleteUnknownFiles_def)

text \<open>A cancelled clean-up has treated the first jobs only.\<close>

lemma cleanupLoop_deletions:
  assumes "\<forall>j\<in>set js. transferred j = Some (objectNames jobs infos j)"
  shows "\<exists>n. ((\<forall>w. \<not> cancelled w) \<longrightarrow> n = length js) \<and>
    snd (clWorld (cleanupLoop (logDeletions bulk) jobs cancelled failed transferred js st)) =
     snd (clWorld st) @ map (deletionOf jobs infos)
       (filter (\<lambda>j. j \<notin> failed \<and> jbCleanup (jobs ! j) = DeleteUnknownFiles) (take n js))"
  using assms
proof (induction js arbitrary: st)
  case (Cons j js)
  let ?st = "if j \<notin> failed then performCleanup (logDeletions bulk) (jobs ! j) (the (transferred j)) st else st"
  have del: "snd (clWorld ?st) =
      snd (clWorld st) @ (if j \<notin> failed \<and> jbCleanup (jobs ! j) = DeleteUnknownFiles then [deletionOf jobs infos j] else [])"
    using Cons.prems by (auto simp: performCleanup_def logDeletions_def deletionOf_def Let_def split: prod.split)
  show ?case
  proof (cases "cancelled (clWorld st)")
    case True
    then show ?thesis by (intro exI[of _ 0] conjI) (blast, simp)
  next
    case False
    from Cons.IH[of ?st] Cons.prems obtain n where n: "(\<forall>w. \<not> cancelled w) \<longrightarrow> n = length js"
      "snd (clWorld (cleanupLoop (logDeletions bulk) jobs cancelled failed transferred js ?st)) =
        snd (clWorld ?st) @ map (deletionOf jobs infos)
          (filter (\<lambda>j. j \<notin> failed \<and> jbCleanup (jobs ! j) = DeleteUnknownFiles) (take n js))" by auto
    with del False show ?thesis by (intro exI[of _ "Suc n"]) (auto split: if_splits)
  qed
qed simp

lemma Cleaner_Run_deletions:
  assumes "set order = dom (isFileTransferred (collect jobs infos))"
  shows "\<exists>n. ((\<forall>w. \<not> cancelled w) \<longrightarrow> n = length order) \<and>
    snd (clWorld (Cleaner_Run (logDeletions bulk) jobs cancelled incomplete order infos (w, []))) =
      map (deletionOf jobs infos) (filter (safeJob jobs incomplete infos) (take n order))"
proof (cases "cancelled (w, [])")
  case True
  then show ?thesis by (intro exI[of _ 0]) (auto simp: Cleaner_Run_def Let_def)
next
  case False
  let ?c = "collect jobs infos"
  let ?failed = "isJobFailed ?c \<union> (dom (isFileTransferred ?c) \<inter> incomplete)"
  note cc = collect_correct[of jobs infos]
  have "\<forall>j\<in>set order. isFileTransferred ?c j = Some (objectNames jobs infos j)"
    unfolding assms using cc by (auto simp: dom_def split: if_splits)
  from cleanupLoop_deletions[OF this, of cancelled bulk ?failed "\<lparr>clWorld = (w, []), clReport = []\<rparr>"]
  obtain n where n: "(\<forall>w. \<not> cancelled w) \<longrightarrow> n = length order"
    "snd (clWorld (Cleaner_Run (logDeletions bulk) jobs cancelled incomplete order infos (w, []))) =
      map (deletionOf jobs infos)
        (filter (\<lambda>j. j \<notin> ?failed \<and> jbCleanup (jobs ! j) = DeleteUnknownFiles) (take n order))"
    using False by (auto simp: Cleaner_Run_def Let_def)
  have "j \<notin> ?failed \<and> jbCleanup (jobs ! j) = DeleteUnknownFiles \<longleftrightarrow> safeJob jobs incomplete infos j"
    if "j \<in> set order" for j
    using that unfolding assms safeJob_def using cc by (auto simp: dom_def cleanedJob_def split: if_splits)
  then have "filter (\<lambda>j. j \<notin> ?failed \<and> jbCleanup (jobs ! j) = DeleteUnknownFiles) (take n order) =
      filter (safeJob jobs incomplete infos) (take n order)"
    by (intro filter_cong refl) (meson in_set_takeD)
  with n show ?thesis by auto
qed

lemma set_unknownObjects:
  "finite (FileExists (jbTarget job)) \<Longrightarrow>
     set (unknownObjects job names) =
       {\<lparr>obContainer = the (Container (jbTarget job)), obName = n\<rparr> |n. n \<in> FileExists (jbTarget job) \<and> n \<notin> names}"
  by (auto simp: unknownObjects_def)

lemma deleted_objects:
  assumes "set order = dom (isFileTransferred (collect jobs infos))"
    and "\<forall>j<length jobs. finite (FileExists (jbTarget (jobs ! j)))" "\<forall>i\<in>set infos. fst (fiFile i) < length jobs"
    and "(a, objs) \<in> set (snd (clWorld (Cleaner_Run (logDeletions bulk) jobs cancelled incomplete order infos (w, []))))"
    and "obj \<in> set objs"
  shows "\<exists>j<length jobs. jbCleanup (jobs ! j) = DeleteUnknownFiles \<and> j \<notin> incomplete \<and>
    (\<exists>i\<in>set infos. fst (fiFile i) = j) \<and> (\<forall>i\<in>set infos. fst (fiFile i) = j \<longrightarrow> \<not> fiFailed i) \<and>
    obContainer obj = the (Container (jbTarget (jobs ! j))) \<and> obName obj \<in> FileExists (jbTarget (jobs ! j)) \<and>
    (\<forall>i\<in>set infos. fst (fiFile i) = j \<longrightarrow> obName obj \<noteq> obName (TargetObject (jobs ! j) (snd (fiFile i))))"
proof -
  from Cleaner_Run_deletions[OF assms(1), of cancelled bulk incomplete w] obtain n where
    "snd (clWorld (Cleaner_Run (logDeletions bulk) jobs cancelled incomplete order infos (w, []))) =
      map (deletionOf jobs infos) (filter (safeJob jobs incomplete infos) (take n order))" by blast
  with assms(4) obtain j where j: "safeJob jobs incomplete infos j" "(a, objs) = deletionOf jobs infos j" by auto
  then have lt: "j < length jobs" using assms(3) by (auto simp: safeJob_def)
  from j(2) have "objs = unknownObjects (jobs ! j) (objectNames jobs infos j)" by (simp add: deletionOf_def)
  with set_unknownObjects[of "jobs ! j"] assms(2,5) lt have
    obj: "obContainer obj = the (Container (jbTarget (jobs ! j)))" "obName obj \<in> FileExists (jbTarget (jobs ! j))"
      "obName obj \<notin> objectNames jobs infos j" by auto
  have "obName obj \<noteq> obName (TargetObject (jobs ! j) (snd (fiFile i)))" if "i \<in> set infos" "fst (fiFile i) = j" for i
    using obj(3) that by (cases "fiFile i") (auto simp: objectNames_def)
  with j(1) lt obj show ?thesis unfolding safeJob_def by blast
qed

section \<open>Properties\<close>

text \<open>C13: the cleaner deletes only what is certainly unknown. Whatever order Go iterates in and whenever the
  run is cancelled, each object that is requested to be deleted is one of the existing objects of a job
  with the strategy "delete" that is not incompletely scraped, of which files have come through and
  none has failed, and it is not the target of any of these files.\<close>

theorem cleanup_safe:
  assumes "set order = dom (isFileTransferred (collect jobs infos))"
    and "\<forall>j<length jobs. finite (FileExists (jbTarget (jobs ! j)))" "\<forall>i\<in>set infos. fst (fiFile i) < length jobs"
    and "(a, objs) \<in> set (snd (clWorld (Cleaner_Run (logDeletions bulk) jobs cancelled incomplete order infos (w, []))))"
    and "obj \<in> set objs"
  shows "\<exists>j<length jobs. jbCleanup (jobs ! j) = DeleteUnknownFiles \<and> j \<notin> incomplete \<and>
    (\<exists>i\<in>set infos. fst (fiFile i) = j) \<and> (\<forall>i\<in>set infos. fst (fiFile i) = j \<longrightarrow> \<not> fiFailed i) \<and>
    obContainer obj = the (Container (jbTarget (jobs ! j))) \<and> obName obj \<in> FileExists (jbTarget (jobs ! j)) \<and>
    (\<forall>i\<in>set infos. fst (fiFile i) = j \<longrightarrow> obName obj \<noteq> obName (TargetObject (jobs ! j) (snd (fiFile i))))"
  using assms by (rule deleted_objects)

text \<open>C26: the cleaner deletes all that is unknown. If the run is not cancelled, it makes exactly one request
  for each job that may be cleaned up, with all existing objects of the job that are not the target of
  one of its files, in strictly ascending order of their names, and no other request.\<close>

theorem cleanup_complete:
  assumes "distinct order" "set order = dom (isFileTransferred (collect jobs infos))" "\<forall>w. \<not> cancelled w"
  shows "mset (snd (clWorld (Cleaner_Run (logDeletions bulk) jobs cancelled incomplete order infos (w, [])))) =
      image_mset (deletionOf jobs infos) (mset_set {j. safeJob jobs incomplete infos j}) \<and>
    (\<forall>j. sorted_wrt (<) (map obName (snd (deletionOf jobs infos j))))"
proof -
  from Cleaner_Run_deletions[OF assms(2), of cancelled bulk incomplete w] assms(3) have
    log: "snd (clWorld (Cleaner_Run (logDeletions bulk) jobs cancelled incomplete order infos (w, []))) =
      map (deletionOf jobs infos) (filter (safeJob jobs incomplete infos) order)" by auto
  have "safeJob jobs incomplete infos j \<Longrightarrow> j \<in> set order" for j
    unfolding assms(2) using collect_correct[of jobs infos]
    by (auto simp: safeJob_def dom_def cleanedJob_def)
  then have "set (filter (safeJob jobs incomplete infos) order) = {j. safeJob jobs incomplete infos j}" by auto
  moreover have "distinct (filter (safeJob jobs incomplete infos) order)" using assms(1) by simp
  ultimately have "mset (filter (safeJob jobs incomplete infos) order) = mset_set {j. safeJob jobs incomplete infos j}"
    by (metis mset_set_set)
  moreover have "sorted_wrt (<) (map obName (snd (deletionOf jobs infos j)))" for j
    by (simp add: deletionOf_def unknownObjects_def comp_def strict_sorted_list_of_set)
  ultimately show ?thesis unfolding log mset_map[symmetric] by (metis mset_map)
qed

text \<open>A job with the file a, whose target also has an object b.\<close>

definition clean_job :: "(store, bytes) Job" where
  "clean_job =
     \<lparr>jbSource = \<lparr>srcListAllFiles = (\<lambda>w. (w, [fileSpec ''a''], None)), srcListEntries = (\<lambda>p w. (w, Inl ErrListEntriesNotSupported)),
        srcGetFile = (\<lambda>p h w. (w, Inl (Err ''gone'')))\<rparr>,
      jbTarget = demo_location\<lparr>FileExists := {''x/a'', ''x/b''}\<rparr>,
      jbMatcher = \<lparr>ExcludeRx = None, IncludeRx = None, ImmutableFileRx = None, NotOlderThan = None,
        SimplisticComparison = None\<rparr>,
      jbSegmenting = None, jbExpiration = \<lparr>EnabledIn = None, Enabled = True, DelaySeconds = 0\<rparr>,
      jbCleanup = DeleteUnknownFiles\<rparr>"

definition clean_infos :: "FileInfoForCleaner list" where
  "clean_infos = [\<lparr>fiFile = (0, fileSpec ''a''), fiFailed = False\<rparr>]"

definition obj_b :: object where
  "obj_b = \<lparr>obContainer = demo_container, obName = ''x/b''\<rparr>"

lemma clean_target: "obName (TargetObject clean_job (fileSpec ''a'')) = ''x/a''"
  by (simp add: clean_job_def TargetObject_def ObjectAtPath_def objectNameAt_def demo_location_def
      trimPrefix_def hasPrefix_def)

lemma clean_collect: "isFileTransferred (collect [clean_job] clean_infos) = [0 \<mapsto> {''x/a''}]"
proof -
  have "jbCleanup clean_job \<noteq> KeepUnknownFiles" by (simp add: clean_job_def)
  then show ?thesis by (simp add: collect_def clean_infos_def collectInfo_def clean_target)
qed

lemma clean_objectNames: "objectNames [clean_job] clean_infos 0 = {''x/a''}"
  by (auto simp: objectNames_def clean_infos_def clean_target)

lemma clean_deletion: "deletionOf [clean_job] clean_infos 0 = (demo_account, [obj_b])"
proof -
  have "FileExists (jbTarget clean_job) - {''x/a''} = {''x/b''}" by (auto simp: clean_job_def)
  then show ?thesis
    by (simp add: deletionOf_def clean_objectNames unknownObjects_def)
      (simp add: clean_job_def demo_location_def demo_container_def obj_b_def)
qed

lemma clean_safe: "{j. safeJob [clean_job] {} clean_infos j} = {0}"
  by (auto simp: safeJob_def clean_infos_def) (simp add: clean_job_def)

lemma clean_run:
  "snd (clWorld (Cleaner_Run (logDeletions (swBulkDelete mem_swift)) [clean_job] (\<lambda>w. False) {} [0] clean_infos
     (empty_store, []))) = [(demo_account, [obj_b])]"
proof -
  have "set [0] = dom (isFileTransferred (collect [clean_job] clean_infos))" by (simp add: clean_collect)
  from Cleaner_Run_deletions[OF this, of "\<lambda>w. False" "swBulkDelete mem_swift" "{}" empty_store]
  have "snd (clWorld (Cleaner_Run (logDeletions (swBulkDelete mem_swift)) [clean_job] (\<lambda>w. False) {} [0] clean_infos
     (empty_store, []))) = map (deletionOf [clean_job] clean_infos) (filter (safeJob [clean_job] {} clean_infos) [0])"
    by auto
  moreover have "safeJob [clean_job] {} clean_infos 0" using clean_safe by blast
  ultimately show ?thesis by (simp add: clean_deletion)
qed

theorem cleanup_safe_witness:
  "snd (clWorld (Cleaner_Run (logDeletions (swBulkDelete mem_swift)) [clean_job] (\<lambda>w. False) {} [0] clean_infos
     (empty_store, []))) = [(demo_account, [obj_b])] \<and>
   obName obj_b \<noteq> obName (TargetObject clean_job (fileSpec ''a''))"
proof -
  have "set [0] = dom (isFileTransferred (collect [clean_job] clean_infos))" by (simp add: clean_collect)
  moreover have "\<forall>j<length [clean_job]. finite (FileExists (jbTarget ([clean_job] ! j)))" by (simp add: clean_job_def)
  moreover have "\<forall>i\<in>set clean_infos. fst (fiFile i) < length [clean_job]" by (simp add: clean_infos_def)
  ultimately have "\<exists>j<length [clean_job]. \<forall>i\<in>set clean_infos. fst (fiFile i) = j \<longrightarrow>
      obName obj_b \<noteq> obName (TargetObject ([clean_job] ! j) (snd (fiFile i)))"
    using cleanup_safe[of "[0]" "[clean_job]" clean_infos demo_account "[obj_b]" "swBulkDelete mem_swift" "\<lambda>w. False" "{}"
        empty_store obj_b] clean_run by auto
  with clean_run show ?thesis by (simp add: clean_infos_def)
qed

theorem cleanup_complete_witness:
  "mset (snd (clWorld (Cleaner_Run (logDeletions (swBulkDelete mem_swift)) [clean_job] (\<lambda>w. False) {} [0] clean_infos
     (empty_store, [])))) = {#(demo_account, [obj_b])#}"
proof -
  have "set [0] = dom (isFileTransferred (collect [clean_job] clean_infos))" by (simp add: clean_collect)
  from cleanup_complete[OF _ this, of "\<lambda>w. False" "swBulkDelete mem_swift" "{}" empty_store] show ?thesis
    by (simp add: clean_safe clean_deletion)
qed

end
