(* ===== verification/Pipeline.thy ===== *)
theory Pipeline
  imports ScraperClaims Cleaner
begin

text \<open>
  \<^verbatim>\<open>runPipeline\<close> of \<^verbatim>\<open>main.go\<close>: the scraper sends files to any number of transferors, these send
  infos to the cleaner, which starts when all transferors are done. A run is given by what each
  actor received: every file that the scraper sent was received by one of the transferors, in any
  distribution and order, and the cleaner received the infos of all transferors, in any order. Since
  nothing is assumed of the states of the outside world in which the transfers run, they may be
  interleaved in any way.
\<close>

section \<open>Runs\<close>

definition pipelineRun ::
  "('w, 'r) Job list \<Rightarrow> 'w perform \<Rightarrow> ('w \<Rightarrow> bool) \<Rightarrow> 'w \<Rightarrow> 'w scraper \<Rightarrow> (input_event list \<times> 'w) list \<Rightarrow>
    'w transferor list \<Rightarrow> FileInfoForCleaner list \<Rightarrow> bool" where
  "pipelineRun jobs perform cancelled w sc inputs trs infos \<longleftrightarrow>
     Scraper_Run jobs cancelled w = Some sc \<and>
     list_all2 (\<lambda>(evs, w') tr. Transferor_Run perform cancelled evs w' = Ret tr) inputs trs \<and>
     mset (concat (map (received \<circ> fst) inputs)) = mset (scOutput sc) \<and>
     mset infos = mset (concat (map trOutput trs))"

lemma transferors_files:
  assumes "list_all2 (\<lambda>(evs, w') tr. Transferor_Run perform cancelled evs w' = Ret tr) inputs trs"
  shows "mset (map fiFile (concat (map trOutput trs))) = mset (concat (map (received \<circ> fst) inputs))"
  using assms
proof (induction rule: list_all2_induct)
  case (Cons x inputs tr trs)
  from Transferor_Run_files(1)[of perform cancelled "fst x" "snd x" tr] Cons show ?case
    by (auto simp: case_prod_beta)
qed simp

lemma pipeline_files:
  assumes "pipelineRun jobs perform cancelled w sc inputs trs infos"
  shows "mset (map fiFile infos) = mset (scOutput sc)"
proof -
  from assms have infos: "mset infos = mset (concat (map trOutput trs))"
    and all2: "list_all2 (\<lambda>(evs, w') tr. Transferor_Run perform cancelled evs w' = Ret tr) inputs trs"
    and out: "mset (concat (map (received \<circ> fst) inputs)) = mset (scOutput sc)"
    by (simp_all add: pipelineRun_def)
  have "mset (map fiFile infos) = mset (map fiFile (concat (map trOutput trs)))"
    unfolding mset_map infos ..
  with transferors_files[OF all2] out show ?thesis by simp
qed

lemma pipeline_succeeded:
  assumes "pipelineRun jobs perform cancelled w sc inputs trs infos" "i \<in> set infos" "\<not> fiFailed i"
  shows "\<exists>(evs, v)\<in>set inputs. \<exists>rs. set rs \<subseteq> set (received evs) \<and> succeeded perform v (received evs @ rs) (fiFile i)"
proof -
  from assms have trs: "list_all2 (\<lambda>(evs, w') tr. Transferor_Run perform cancelled evs w' = Ret tr) inputs trs"
    and "mset infos = mset (concat (map trOutput trs))" by (simp_all add: pipelineRun_def)
  then have "set infos = set (concat (map trOutput trs))" by (metis set_mset_mset)
  with assms(2) obtain tr where tr: "tr \<in> set trs" "i \<in> set (trOutput tr)" by auto
  from tr(1) obtain k where k: "k < length trs" "trs ! k = tr" by (auto simp: in_set_conv_nth)
  define x where "x = inputs ! k"
  have x: "x \<in> set inputs" "Transferor_Run perform cancelled (fst x) (snd x) = Ret tr"
    using trs k by (simp_all add: x_def list_all2_conv_all_nth case_prod_beta)
  from Transferor_Run_succeeded[OF x(2) tr(2) assms(3)] x(1) show ?thesis by (auto simp: case_prod_beta)
qed

section \<open>Properties\<close>

text \<open>A run accounts for every file. The infos that reach the cleaner are, file by file, exactly the
  files that the scraper sent, and the transferors have sent exactly one file report for each.\<close>

theorem pipeline_accounts:
  assumes "pipelineRun jobs perform cancelled w sc inputs trs infos"
  shows "mset (map fiFile infos) = mset (scOutput sc) \<and>
    countEvents (\<lambda>e. \<not> evIsDirectory e \<and> IsFile e) (concat (map trReport trs)) = length (scOutput sc)"
proof -
  from assms have
    all2: "list_all2 (\<lambda>(evs, w') tr. Transferor_Run perform cancelled evs w' = Ret tr) inputs trs"
    by (simp add: pipelineRun_def)
  then have "countEvents (\<lambda>e. \<not> evIsDirectory e \<and> IsFile e) (concat (map trReport trs)) =
      length (map fiFile (concat (map trOutput trs)))"
  proof (induction rule: list_all2_induct)
    case (Cons x inputs tr trs)
    then have "Transferor_Run perform cancelled (fst x) (snd x) = Ret tr" by (simp add: case_prod_beta)
    from Transferor_Run_files(2)[OF this]
    have "countEvents (\<lambda>e. \<not> evIsDirectory e \<and> IsFile e) (trReport tr) = length (trOutput tr)"
      unfolding paired_def by (induction rule: list_all2_induct) auto
    with Cons.IH show ?case by (simp add: countEvents_def)
  qed simp
  also have "\<dots> = length (scOutput sc)"
  proof -
    have "mset (map fiFile infos) = mset (scOutput sc)" by (rule pipeline_files[OF assms])
    moreover have "mset infos = mset (concat (map trOutput trs))" using assms by (simp add: pipelineRun_def)
    ultimately show ?thesis by (metis length_map mset_eq_length)
  qed
  finally show ?thesis using pipeline_files[OF assms] by simp
qed

text \<open>
  Cleaning up never deletes what the source still has: in a complete run of a scraper that was not
  cancelled, no file of a job with a stable source that is listed in included directories, and is
  included itself, has its target object deleted.
\<close>

lemma run_keeps_listed_files:
  assumes "pipelineRun jobs perform cancelled w sc inputs trs infos" "\<not> cancelled (scWorld sc)"
    and "set order = dom (isFileTransferred (collect jobs infos))"
    and "\<forall>k<length jobs. finite (FileExists (jbTarget (jobs ! k)))"
    and "j < length jobs" "stable_source (jbSource (jobs ! j)) ents"
    and "listed_file (\<lambda>fs. CheckFile (jbMatcher (jobs ! j)) fs = None) ents fs"
    and "\<forall>k<length jobs. k \<noteq> j \<longrightarrow> Container (jbTarget (jobs ! k)) \<noteq> Container (jbTarget (jobs ! j)) \<or>
      obName (TargetObject (jobs ! j) fs) \<notin> FileExists (jbTarget (jobs ! k))"
    and "\<forall>k<length jobs. Container (jbTarget (jobs ! k)) \<noteq> None"
    and "(a, objs) \<in> set (snd (clWorld (Cleaner_Run (logDeletions bulk) jobs cancelled' (scIncomplete sc) order infos (w', []))))"
  shows "TargetObject (jobs ! j) fs \<notin> set objs"
proof
  let ?obj = "TargetObject (jobs ! j) fs"
  assume obj: "?obj \<in> set objs"
  have run: "Scraper_Run jobs cancelled w = Some sc" using assms(1) by (simp add: pipelineRun_def)
  have files: "fiFile ` set infos = set (scOutput sc)"
    using pipeline_files[OF assms(1)] by (metis set_map set_mset_mset)
  have "\<forall>(k, s)\<in>set (scOutput sc). k < length jobs" using Scraper_Run_ok(1)[OF run] by (auto simp: scraper_ok_def)
  then have "\<forall>i\<in>set infos. fst (fiFile i) < length jobs" using files by (metis (mono_tags) case_prod_beta image_eqI)
  from deleted_objects[OF assms(3,4) this assms(10) obj] obtain k where k: "k < length jobs" "k \<notin> scIncomplete sc"
    and c: "obContainer ?obj = the (Container (jbTarget (jobs ! k)))" "obName ?obj \<in> FileExists (jbTarget (jobs ! k))"
    and names: "\<forall>i\<in>set infos. fst (fiFile i) = k \<longrightarrow> obName ?obj \<noteq> obName (TargetObject (jobs ! k) (snd (fiFile i)))"
    by blast
  have "the (Container (jbTarget (jobs ! k))) = the (Container (jbTarget (jobs ! j)))"
    using c(1) by (simp add: TargetObject_def ObjectAtPath_def)
  then have "Container (jbTarget (jobs ! k)) = Container (jbTarget (jobs ! j))"
    using assms(5,9) k(1) by (metis option.expand)
  with assms(8) c(2) k(1) have [simp]: "k = j" by blast
  have acc: "accepted jobs j = (\<lambda>fs. CheckFile (jbMatcher (jobs ! j)) fs = None)" by (auto simp: accepted_def)
  have "(j, fs) \<in> set (scOutput sc)"
    using Scraper_Run_complete[OF run assms(5,6) _ assms(2)] k(2) assms(7) acc by simp
  with files obtain i where "i \<in> set infos" "fiFile i = (j, fs)" by (metis imageE)
  with names show False by auto
qed

section \<open>A run\<close>

text \<open>The job with the file a is run through the pipeline: a is transferred, and the object b is deleted.\<close>

definition lists_one :: "('w, 'r) Job \<Rightarrow> bool" where
  "lists_one job \<longleftrightarrow>
     (\<forall>w. srcListAllFiles (jbSource job) w = (w, [fileSpec ''a''], None)) \<and> (\<forall>fs. CheckFile (jbMatcher job) fs = None)"

definition one_scraped :: "'w \<Rightarrow> 'w scraper" where
  "one_scraped w =
     \<lparr>scWorld = w, scStack = [], scOutput = [(0, fileSpec ''a'')], scReport = [directoryEvent False], scIncomplete = {}\<rparr>"

definition clean_scraped :: "store scraper" where
  "clean_scraped = one_scraped empty_store"

definition clean_perform :: "store perform" where
  "clean_perform f w = (w, Ret (TransferSuccess, 1))"

definition clean_transferor :: "store transferor" where
  "clean_transferor =
     \<lparr>trWorld = empty_store, trRetry = [], trOutput = clean_infos, trReport = [fileEvent TransferSuccess 1],
      trDiscarded = []\<rparr>"

lemma clean_job_sel [simp]:
  "jbMatcher clean_job = \<lparr>ExcludeRx = None, IncludeRx = None, ImmutableFileRx = None, NotOlderThan = None,
     SimplisticComparison = None\<rparr>"
  "srcListAllFiles (jbSource clean_job) w = (w, [fileSpec ''a''], None)"
  "srcListEntries (jbSource clean_job) p w = (w, Inl ErrListEntriesNotSupported)"
  by (simp_all add: clean_job_def)

lemma clean_accepts: "CheckFile (jbMatcher clean_job) fs = None"
proof -
  have c: "Check (jbMatcher clean_job) p lm = None" for p lm by (simp add: Check_None_iff)
  then have "checkSteps (jbMatcher clean_job) ps = None" for ps by (induction ps) (simp_all del: clean_job_sel)
  with c show ?thesis by (simp add: CheckFile_def CheckRecursive_eq del: clean_job_sel)
qed

lemma clean_lists_one: "lists_one clean_job"
  using clean_accepts by (simp add: lists_one_def)

lemma one_start:
  "Scraper_start [job] w =
     \<lparr>scWorld = w, scStack = [\<lparr>dJob = 0, dPath = ''/'', dRetryCounter = 0\<rparr>], scOutput = [], scReport = [],
      scIncomplete = {}\<rparr>"
  by (simp add: Scraper_start_def stack_Push_def)

lemma one_scrapeNext:
  assumes "lists_one job"
  shows "scrapeNext [job] (Scraper_start [job] w) = one_scraped w"
proof -
  have "newDirs [job] 0 [fileSpec ''a''] = []" by (simp add: newDirs_def)
  moreover have "newFiles [job] 0 [fileSpec ''a''] = [(0, fileSpec ''a'')]"
    using assms by (simp add: newFiles_def accepted_def lists_one_def)
  ultimately show ?thesis
    using assms
    by (simp add: one_start scrapeNext_def stack_Pop_def listDirectory_def fold_handleFileSpec handled_def
        finishDirectory_def one_scraped_def lists_one_def)
qed

lemma clean_scrape: "Scraper_Run [clean_job] (\<lambda>w. False) empty_store = Some clean_scraped"
proof -
  have "Scraper_loop [clean_job] (\<lambda>w. False) (Scraper_start [clean_job] empty_store) =
      Scraper_loop [clean_job] (\<lambda>w. False) clean_scraped"
    by (subst Scraper_loop.simps) (simp add: one_scrapeNext clean_lists_one clean_scraped_def, simp add: one_start stack_IsEmpty_def)
  also have "\<dots> = Some clean_scraped"
    by (subst Scraper_loop.simps) (simp add: clean_scraped_def one_scraped_def stack_IsEmpty_def)
  finally show ?thesis by (simp add: Scraper_Run_def)
qed

lemma clean_pipeline:
  "pipelineRun [clean_job] clean_perform (\<lambda>w. False) empty_store clean_scraped
     [([Receive (0, fileSpec ''a'')], empty_store)] [clean_transferor] clean_infos"
  by (simp add: pipelineRun_def clean_scrape)
    (simp add: Transferor_Run_def Transferor_init_def clean_perform_def emit_def clean_transferor_def clean_infos_def clean_scraped_def one_scraped_def)

theorem pipeline_accounts_witness:
  "countEvents (\<lambda>e. \<not> evIsDirectory e \<and> IsFile e) (concat (map trReport [clean_transferor])) = 1 \<and>
   map fiFile clean_infos = [(0, fileSpec ''a'')]"
  using pipeline_accounts[OF clean_pipeline] by (simp add: clean_scraped_def one_scraped_def clean_infos_def)

end
