(* ===== verification/Network.thy ===== *)
theory Network
  imports Pipeline
begin

text \<open>
  The actors of \<^verbatim>\<open>runPipeline\<close> (\<^verbatim>\<open>main.go\<close>) as processes that are started by
  \<^verbatim>\<open>actors.Start\<close> and run concurrently: the scraper, the transferors, the cleaner and the main
  goroutine, with the bounded channels \<^verbatim>\<open>queue1\<close> and \<^verbatim>\<open>queue2\<close> between them. A move of an actor is
  one pass of a loop up to its next operation on a channel; an actor that cannot send or receive has
  no move. A transferor that waits in its \<^verbatim>\<open>select\<close> may be told at any time that the context is
  cancelled. Each actor has its own view of the outside world; since the sources, the transfers and the
  worlds are arbitrary, a view can be the sequence of the states that the actor's calls meet, so that
  nothing is assumed of what the actors do to each other through the outside world. The unbuffered report channel never
  blocks, since the report actor receives until it is closed at the very end; a transfer that panics
  ends the process, so that the network has no move for it.

  Every schedule that goes to its end without being cancelled is a run in the sense of \<open>pipelineRun\<close>,
  so that what \<open>Pipeline\<close> and \<open>MainRun\<close> prove of runs holds of the concurrent program. No schedule gets
  stuck, and none goes on for ever.
\<close>

section \<open>The transferors\<close>

datatype phase = Looping | Retrying bool "tfile list" | Draining | Returned

text \<open>
  The infos in the outbox have been emitted, but \<^verbatim>\<open>queue2\<close> has not yet taken them. The last two
  fields are a history: the first view of the world, and what was received in the main loop and in the
  last loop (\<^verbatim>\<open>for range t.Input\<close>).
\<close>

record 'w process =
  prPhase :: phase
  prState :: "'w transferor"
  prOutbox :: "FileInfoForCleaner list"
  prStart :: 'w
  prEvents :: "input_event list"

definition Transferor_start :: "'w \<Rightarrow> 'w process" where
  "Transferor_start w =
     \<lparr>prPhase = Looping, prState = Transferor_init w, prOutbox = [], prStart = w, prEvents = []\<rparr>"

text \<open>The channels as a transferor sees them: \<^verbatim>\<open>queue1\<close>, whether it is closed, and \<^verbatim>\<open>queue2\<close>.\<close>

type_synonym channels = "tfile list \<times> bool \<times> FileInfoForCleaner list"

definition capacity :: nat where
  "capacity = 10"

definition emitInfo :: "tfile \<Rightarrow> TransferResult \<Rightarrow> u64 \<Rightarrow> 'w transferor \<Rightarrow> 'w process \<Rightarrow> 'w process" where
  "emitInfo f result sz st p =
     p\<lparr>prState := emit f result sz st, prOutbox := [\<lparr>fiFile = f, fiFailed = (result = TransferFailed)\<rparr>]\<rparr>"

definition receiveFile :: "'w perform \<Rightarrow> tfile \<Rightarrow> 'w process \<Rightarrow> 'w process option" where
  "receiveFile perform f p =
     (case perform f (trWorld (prState p)) of
        (w, Panic m) \<Rightarrow> None
      | (w, Ret (result, sz)) \<Rightarrow>
          let st = (prState p)\<lparr>trWorld := w\<rparr>; p' = p\<lparr>prEvents := prEvents p @ [Receive f]\<rparr>
          in Some (if result = TransferFailed then p'\<lparr>prState := st\<lparr>trRetry := trRetry st @ [f]\<rparr>\<rparr>
                   else emitInfo f result sz st p'))"

definition discardFile :: "tfile \<Rightarrow> 'w process \<Rightarrow> 'w process" where
  "discardFile f p =
     p\<lparr>prEvents := prEvents p @ [Receive f],
       prState := (prState p)\<lparr>trDiscarded := trDiscarded (prState p) @ [f]\<rparr>\<rparr>"

definition retryFile ::
  "'w perform \<Rightarrow> ('w \<Rightarrow> bool) \<Rightarrow> bool \<Rightarrow> tfile \<Rightarrow> tfile list \<Rightarrow> 'w process \<Rightarrow> 'w process option" where
  "retryFile perform cancelled aborted f fs p =
     (let p' = p\<lparr>prPhase := Retrying aborted fs\<rparr>; st = prState p
      in if \<not> aborted \<and> \<not> cancelled (trWorld st) then
           (case perform f (trWorld st) of
              (w, Panic m) \<Rightarrow> None
            | (w, Ret (result, sz)) \<Rightarrow> Some (emitInfo f result sz (st\<lparr>trWorld := w\<rparr>) p'))
         else Some (emitInfo f TransferFailed 0 st p'))"

text \<open>A move of a transferor; \<open>done\<close> says whether its \<^verbatim>\<open>select\<close> takes the cancellation.\<close>

fun transferorMove ::
  "'w perform \<Rightarrow> ('w \<Rightarrow> bool) \<Rightarrow> bool \<Rightarrow> 'w process \<Rightarrow> channels \<Rightarrow> ('w process \<times> channels) option" where
  "transferorMove perform cancelled dn p (q1, closed, q2) =
     (case prOutbox p of
        info # infos \<Rightarrow>
          if length q2 < capacity then Some (p\<lparr>prOutbox := infos\<rparr>, q1, closed, q2 @ [info]) else None
      | [] \<Rightarrow>
          (case prPhase p of
             Looping \<Rightarrow>
               if dn then
                 Some (p\<lparr>prPhase := Retrying True (trRetry (prState p)), prEvents := prEvents p @ [Cancelled]\<rparr>,
                   q1, closed, q2)
               else
                 (case q1 of
                    f # fs \<Rightarrow> map_option (\<lambda>p'. (p', fs, closed, q2)) (receiveFile perform f p)
                  | [] \<Rightarrow>
                      if closed then Some (p\<lparr>prPhase := Retrying False (trRetry (prState p))\<rparr>, q1, closed, q2)
                      else None)
           | Retrying aborted (f # fs) \<Rightarrow>
               map_option (\<lambda>p'. (p', q1, closed, q2)) (retryFile perform cancelled aborted f fs p)
           | Retrying aborted [] \<Rightarrow> Some (p\<lparr>prPhase := Draining\<rparr>, q1, closed, q2)
           | Draining \<Rightarrow>
               (case q1 of
                  f # fs \<Rightarrow> Some (discardFile f p, fs, closed, q2)
                | [] \<Rightarrow> if closed then Some (p\<lparr>prPhase := Returned\<rparr>, q1, closed, q2) else None)
           | Returned \<Rightarrow> None))"

section \<open>The network\<close>

text \<open>
  The files in \<open>nwPending\<close> have been found, but \<^verbatim>\<open>queue1\<close> has not yet taken them. The collected infos are
  those which the cleaner has received; it starts cleaning (\<open>Cleaner_Run\<close>) when its input is closed.
\<close>

record 'w network =
  nwScraper :: "'w scraper"
  nwPending :: "tfile list"
  nwQueue1 :: "tfile list"
  nwClosed1 :: bool
  nwTransferors :: "'w process list"
  nwQueue2 :: "FileInfoForCleaner list"
  nwClosed2 :: bool
  nwCollected :: "FileInfoForCleaner list"
  nwCleaning :: bool

definition runPipeline :: "('w, 'r) Job list \<Rightarrow> 'w \<Rightarrow> 'w list \<Rightarrow> 'w network" where
  "runPipeline jobs w ws =
     \<lparr>nwScraper = Scraper_start jobs w, nwPending = [], nwQueue1 = [], nwClosed1 = False,
      nwTransferors = map Transferor_start ws, nwQueue2 = [], nwClosed2 = False, nwCollected = [], nwCleaning = False\<rparr>"

definition scraperMove :: "('w, 'r) Job list \<Rightarrow> ('w \<Rightarrow> bool) \<Rightarrow> 'w network \<Rightarrow> 'w network option" where
  "scraperMove jobs cancelled s =
     (case nwPending s of
        f # fs \<Rightarrow>
          if length (nwQueue1 s) < capacity then Some (s\<lparr>nwPending := fs, nwQueue1 := nwQueue1 s @ [f]\<rparr>) else None
      | [] \<Rightarrow>
          if nwClosed1 s then None
          else if stack_IsEmpty (scStack (nwScraper s)) \<or> cancelled (scWorld (nwScraper s)) then
            Some (s\<lparr>nwClosed1 := True\<rparr>)
          else
            let sc = scrapeNext jobs (nwScraper s)
            in Some (s\<lparr>nwScraper := sc, nwPending := drop (length (scOutput (nwScraper s))) (scOutput sc)\<rparr>))"

definition transferorsMove ::
  "'w perform \<Rightarrow> ('w \<Rightarrow> bool) \<Rightarrow> nat \<Rightarrow> bool \<Rightarrow> 'w network \<Rightarrow> 'w network option" where
  "transferorsMove perform cancelled i dn s =
     (if i < length (nwTransferors s) then
        (case transferorMove perform cancelled dn (nwTransferors s ! i) (nwQueue1 s, nwClosed1 s, nwQueue2 s) of
           None \<Rightarrow> None
         | Some (p, q1, closed, q2) \<Rightarrow>
             Some (s\<lparr>nwTransferors := (nwTransferors s)[i := p], nwQueue1 := q1, nwQueue2 := q2\<rparr>))
      else None)"

definition returned :: "'w network \<Rightarrow> bool" where
  "returned s \<longleftrightarrow> list_all (\<lambda>p. prPhase p = Returned) (nwTransferors s)"

text \<open>The main goroutine waits for the transferors and closes \<^verbatim>\<open>queue2\<close>.\<close>

definition mainMove :: "'w network \<Rightarrow> 'w network option" where
  "mainMove s = (if returned s \<and> \<not> nwClosed2 s then Some (s\<lparr>nwClosed2 := True\<rparr>) else None)"

definition cleanerMove :: "'w network \<Rightarrow> 'w network option" where
  "cleanerMove s =
     (case nwQueue2 s of
        info # infos \<Rightarrow> Some (s\<lparr>nwQueue2 := infos, nwCollected := nwCollected s @ [info]\<rparr>)
      | [] \<Rightarrow> if nwClosed2 s \<and> \<not> nwCleaning s then Some (s\<lparr>nwCleaning := True\<rparr>) else None)"

datatype move = ScraperMoves | TransferorMoves nat bool | MainMoves | CleanerMoves

fun netMove :: "('w, 'r) Job list \<Rightarrow> 'w perform \<Rightarrow> ('w \<Rightarrow> bool) \<Rightarrow> move \<Rightarrow> 'w network \<Rightarrow> 'w network option" where
  "netMove jobs perform cancelled ScraperMoves s = scraperMove jobs cancelled s"
| "netMove jobs perform cancelled (TransferorMoves i dn) s = transferorsMove perform cancelled i dn s"
| "netMove jobs perform cancelled MainMoves s = mainMove s"
| "netMove jobs perform cancelled CleanerMoves s = cleanerMove s"

text \<open>The states that some schedule reaches, when the scraper starts in w and the transferors in ws.\<close>

inductive scheduled ::
  "('w, 'r) Job list \<Rightarrow> 'w perform \<Rightarrow> ('w \<Rightarrow> bool) \<Rightarrow> 'w \<Rightarrow> 'w list \<Rightarrow> 'w network \<Rightarrow> bool"
  for jobs :: "('w, 'r) Job list" and perform :: "'w perform" and cancelled :: "'w \<Rightarrow> bool" and w :: 'w and ws :: "'w list"
where
  start: "scheduled jobs perform cancelled w ws (runPipeline jobs w ws)"
| move: "scheduled jobs perform cancelled w ws s \<Longrightarrow> netMove jobs perform cancelled m s = Some s' \<Longrightarrow>
    scheduled jobs perform cancelled w ws s'"

text \<open>All actors have returned, except that the cleaner has its clean-up (\<open>Cleaner_Run\<close>) still before it.\<close>

definition finished :: "'w network \<Rightarrow> bool" where
  "finished s \<longleftrightarrow> nwClosed1 s \<and> nwPending s = [] \<and> returned s \<and> nwCleaning s"

end
