(* ===== verification/NetworkProps.thy ===== *)
theory NetworkProps
  imports Network
begin

text \<open>
  Invariants of the network: what each transferor has done so far is an initial part of
  \<open>Transferor_Run\<close>, no file and no info is lost between the actors, and the channels stay within their
  capacity.
\<close>

section \<open>Moves of a transferor\<close>

lemma transferorMove_cases [consumes 1, case_names Send Abort Receive Closed Retry Retried Discard Return]:
  assumes "transferorMove perform cancelled dn p (q1, closed, q2) = Some (p', q1', closed', q2')"
  obtains
    (Send) info infos where "prOutbox p = info # infos" "length q2 < capacity" "p' = p\<lparr>prOutbox := infos\<rparr>"
      "q1' = q1" "closed' = closed" "q2' = q2 @ [info]"
  | (Abort) "prOutbox p = []" "prPhase p = Looping"
      "p' = p\<lparr>prPhase := Retrying True (trRetry (prState p)), prEvents := prEvents p @ [Cancelled]\<rparr>"
      "q1' = q1" "closed' = closed" "q2' = q2"
  | (Receive) f where "prOutbox p = []" "prPhase p = Looping" "q1 = f # q1'" "receiveFile perform f p = Some p'"
      "closed' = closed" "q2' = q2"
  | (Closed) "prOutbox p = []" "prPhase p = Looping" "q1 = []" "closed"
      "p' = p\<lparr>prPhase := Retrying False (trRetry (prState p))\<rparr>" "q1' = q1" "closed' = closed" "q2' = q2"
  | (Retry) aborted f fs where "prOutbox p = []" "prPhase p = Retrying aborted (f # fs)"
      "retryFile perform cancelled aborted f fs p = Some p'" "q1' = q1" "closed' = closed" "q2' = q2"
  | (Retried) aborted where "prOutbox p = []" "prPhase p = Retrying aborted []" "p' = p\<lparr>prPhase := Draining\<rparr>"
      "q1' = q1" "closed' = closed" "q2' = q2"
  | (Discard) f where "prOutbox p = []" "prPhase p = Draining" "q1 = f # q1'"
      "p' = discardFile f p" "closed' = closed" "q2' = q2"
  | (Return) "prOutbox p = []" "prPhase p = Draining" "q1 = []" "closed" "p' = p\<lparr>prPhase := Returned\<rparr>"
      "q1' = q1" "closed' = closed" "q2' = q2"
proof (cases "prOutbox p")
  case (Cons info infos)
  with assms show thesis by (intro that(1)) (auto split: if_splits)
next
  case Nil
  show thesis
  proof (cases "prPhase p")
    case Looping
    show thesis
    proof (cases dn)
      case True
      with assms Nil Looping show thesis by (intro that(2)) auto
    next
      case False
      show thesis
      proof (cases q1)
        case q: Nil
        with assms Nil Looping False show thesis by (intro that(4)) (auto split: if_splits)
      next
        case (Cons f fs)
        with assms Nil Looping False show thesis by (intro that(3)[of f]) auto
      qed
    qed
  next
    case (Retrying aborted fs)
    show thesis
    proof (cases fs)
      case fs: Nil
      with assms Nil Retrying show thesis by (intro that(6)) auto
    next
      case (Cons f fs')
      with assms Nil Retrying show thesis by (intro that(5)[of aborted f fs']) auto
    qed
  next
    case Draining
    show thesis
    proof (cases q1)
      case q: Nil
      with assms Nil Draining show thesis by (intro that(8)) (auto split: if_splits)
    next
      case (Cons f fs)
      with assms Nil Draining show thesis by (intro that(7)[of f]) auto
    qed
  next
    case Returned
    with assms Nil show thesis by simp
  qed
qed

lemma receiveFile_cases [consumes 1, case_names Failed Done]:
  assumes "receiveFile perform f p = Some p'"
  obtains
    (Failed) w sz where "perform f (trWorld (prState p)) = (w, Ret (TransferFailed, sz))"
      "p' = p\<lparr>prEvents := prEvents p @ [Receive f],
         prState := (prState p)\<lparr>trWorld := w, trRetry := trRetry (prState p) @ [f]\<rparr>\<rparr>"
  | (Done) w result sz where "perform f (trWorld (prState p)) = (w, Ret (result, sz))" "result \<noteq> TransferFailed"
      "p' = emitInfo f result sz ((prState p)\<lparr>trWorld := w\<rparr>) (p\<lparr>prEvents := prEvents p @ [Receive f]\<rparr>)"
proof -
  obtain w r where pf: "perform f (trWorld (prState p)) = (w, r)" by fastforce
  with assms obtain result sz where r: "r = Ret (result, sz)" by (cases r) (auto simp: receiveFile_def)
  show thesis
  proof (cases "result = TransferFailed")
    case True
    with assms pf r show thesis by (intro that(1)[of w sz]) (simp_all add: receiveFile_def Let_def)
  next
    case False
    with assms pf r show thesis by (intro that(2)[of w result sz]) (simp_all add: receiveFile_def Let_def)
  qed
qed

lemma retryFile_cases [consumes 1, case_names Again GiveUp]:
  assumes "retryFile perform cancelled aborted f fs p = Some p'"
  obtains
    (Again) w result sz where "\<not> aborted" "\<not> cancelled (trWorld (prState p))"
      "perform f (trWorld (prState p)) = (w, Ret (result, sz))"
      "p' = emitInfo f result sz ((prState p)\<lparr>trWorld := w\<rparr>) (p\<lparr>prPhase := Retrying aborted fs\<rparr>)"
  | (GiveUp) "aborted \<or> cancelled (trWorld (prState p))"
      "p' = emitInfo f TransferFailed 0 (prState p) (p\<lparr>prPhase := Retrying aborted fs\<rparr>)"
proof (cases "\<not> aborted \<and> \<not> cancelled (trWorld (prState p))")
  case True
  obtain w r where pf: "perform f (trWorld (prState p)) = (w, r)" by fastforce
  with assms True obtain result sz where r: "r = Ret (result, sz)" by (cases r) (auto simp: retryFile_def Let_def)
  with assms True pf show thesis by (intro that(1)[of w result sz]) (simp_all add: retryFile_def Let_def)
next
  case False
  with assms show thesis by (intro that(2)) (auto simp: retryFile_def Let_def)
qed

lemma emitInfo_sel [simp]:
  "prPhase (emitInfo f r n st p) = prPhase p" "prState (emitInfo f r n st p) = emit f r n st"
  "prOutbox (emitInfo f r n st p) = [\<lparr>fiFile = f, fiFailed = (r = TransferFailed)\<rparr>]"
  "prStart (emitInfo f r n st p) = prStart p" "prEvents (emitInfo f r n st p) = prEvents p"
  by (simp_all add: emitInfo_def)

lemma discardFile_sel [simp]:
  "prPhase (discardFile f p) = prPhase p" "prOutbox (discardFile f p) = prOutbox p"
  "prStart (discardFile f p) = prStart p" "prEvents (discardFile f p) = prEvents p @ [Receive f]"
  "prState (discardFile f p) = (prState p)\<lparr>trDiscarded := trDiscarded (prState p) @ [f]\<rparr>"
  by (simp_all add: discardFile_def)

section \<open>What a transferor has done\<close>

lemma transferLoop_append:
  "transferLoop perform (evs @ evs') st =
     (case transferLoop perform evs st of
        Panic m \<Rightarrow> Panic m
      | Ret (aborted, rest, st') \<Rightarrow>
          if aborted then Ret (True, rest @ evs', st') else transferLoop perform evs' st')"
  by (induction perform evs st rule: transferLoop.induct) (auto simp: Let_def split: prod.splits outcome.splits)

lemma files_of_append: "files_of (evs @ evs') = files_of evs @ files_of evs'"
  by (induction evs rule: files_of.induct) auto

lemma received_append: "received (evs @ evs') = received evs @ (if Cancelled \<in> set evs then [] else received evs')"
  by (induction evs rule: received.induct) auto

lemma late_append: "Cancelled \<in> set evs \<Longrightarrow> late (evs @ evs') = late evs @ files_of evs'"
  by (induction evs rule: late.induct) (auto simp: files_of_append)

text \<open>A file that arrives after the cancellation is discarded.\<close>

lemma Transferor_Run_late:
  assumes "Transferor_Run perform cancelled evs w = Ret st" "Cancelled \<in> set evs"
  shows "Transferor_Run perform cancelled (evs @ [Receive f]) w = Ret (st\<lparr>trDiscarded := trDiscarded st @ [f]\<rparr>)"
proof -
  from assms(1) obtain aborted rest st1 st2 where
    l: "transferLoop perform evs (Transferor_init w) = Ret (aborted, rest, st1)"
    and r: "retryLoop perform cancelled aborted (trRetry st1) st1 = Ret st2"
    and st: "st = st2\<lparr>trDiscarded := trDiscarded st2 @ files_of rest\<rparr>"
    by (rule Transferor_Run_phases)
  from transferLoop_rest[OF l] assms(2) have aborted by simp
  with l r st show ?thesis by (simp add: Transferor_Run_def transferLoop_append drainLoop_eq files_of_append)
qed

text \<open>A transferor that is not done yet will do what \<open>Transferor_Run\<close> does on its events.\<close>

definition begins :: "'w perform \<Rightarrow> 'w process \<Rightarrow> bool \<Rightarrow> 'w transferor \<Rightarrow> bool" where
  "begins perform p aborted st \<longleftrightarrow>
     transferLoop perform (prEvents p) (Transferor_init (prStart p)) = Ret (aborted, [], st)"

definition follows :: "'w perform \<Rightarrow> ('w \<Rightarrow> bool) \<Rightarrow> 'w process \<Rightarrow> bool" where
  "follows perform cancelled p \<longleftrightarrow>
     (case prPhase p of
        Looping \<Rightarrow> begins perform p False (prState p)
      | Retrying aborted fs \<Rightarrow>
          aborted = (Cancelled \<in> set (prEvents p)) \<and>
          (\<exists>st. begins perform p aborted st \<and>
            retryLoop perform cancelled aborted (trRetry st) st = retryLoop perform cancelled aborted fs (prState p))
      | _ \<Rightarrow> Transferor_Run perform cancelled (prEvents p) (prStart p) = Ret (prState p))"

lemma follows_start: "follows perform cancelled (Transferor_start w)"
  by (simp add: follows_def begins_def Transferor_start_def)

lemma begins_update [simp]:
  "begins perform (p\<lparr>prPhase := x\<rparr>) a st = begins perform p a st"
  "begins perform (p\<lparr>prOutbox := y\<rparr>) a st = begins perform p a st"
  "begins perform (emitInfo f r n st' p) a st = begins perform p a st"
  by (simp_all add: begins_def)

lemma begins_snoc:
  assumes "begins perform p False st"
  shows "begins perform (p\<lparr>prEvents := prEvents p @ [e]\<rparr>) a st' \<longleftrightarrow> transferLoop perform [e] st = Ret (a, [], st')"
    "begins perform (p\<lparr>prEvents := prEvents p @ [e], prState := x\<rparr>) a st' \<longleftrightarrow>
       transferLoop perform [e] st = Ret (a, [], st')"
    "begins perform (p\<lparr>prPhase := y, prEvents := prEvents p @ [e]\<rparr>) a st' \<longleftrightarrow>
       transferLoop perform [e] st = Ret (a, [], st')"
  using assms by (simp_all add: begins_def transferLoop_append)

lemma begins_not_cancelled: "begins perform p False st \<Longrightarrow> Cancelled \<notin> set (prEvents p)"
  unfolding begins_def by (drule transferLoop_rest) simp

lemma follows_move:
  assumes "transferorMove perform cancelled dn p (q1, closed, q2) = Some (p', q1', closed', q2')"
    and "follows perform cancelled p"
    and "prPhase p = Draining \<Longrightarrow> q1 \<noteq> [] \<Longrightarrow> Cancelled \<in> set (prEvents p)"
  shows "follows perform cancelled p'"
  using assms(1)
proof (cases rule: transferorMove_cases)
  case (Send info infos)
  have "follows perform cancelled (p\<lparr>prOutbox := infos\<rparr>) = follows perform cancelled p"
    by (simp add: follows_def cong: phase.case_cong)
  with Send assms(2) show ?thesis by simp
next
  case Abort
  with assms(2) have "begins perform p False (prState p)" by (simp add: follows_def)
  with Abort show ?thesis by (simp add: follows_def begins_snoc)
next
  case (Receive f)
  with assms(2) have b: "begins perform p False (prState p)" by (simp add: follows_def)
  from Receive(4) show ?thesis
  proof (cases rule: receiveFile_cases)
    case (Failed w sz)
    with b Receive(2) show ?thesis by (simp add: follows_def begins_snoc Let_def)
  next
    case (Done w result sz)
    with b Receive(2) show ?thesis by (simp add: follows_def begins_snoc Let_def)
  qed
next
  case Closed
  with assms(2) have b: "begins perform p False (prState p)" by (simp add: follows_def)
  with begins_not_cancelled[OF b] Closed show ?thesis by (auto simp: follows_def)
next
  case (Retry aborted f fs)
  with assms(2) obtain st where st: "begins perform p aborted st" "aborted = (Cancelled \<in> set (prEvents p))"
    "retryLoop perform cancelled aborted (trRetry st) st =
     retryLoop perform cancelled aborted (f # fs) (prState p)"
    by (auto simp: follows_def)
  from Retry(3) have "retryLoop perform cancelled aborted (f # fs) (prState p) =
      retryLoop perform cancelled aborted fs (prState p') \<and> prPhase p' = Retrying aborted fs \<and>
      prEvents p' = prEvents p \<and> begins perform p' aborted st = begins perform p aborted st"
    by (cases rule: retryFile_cases) auto
  with st show ?thesis by (auto simp: follows_def)
next
  case (Retried aborted)
  with assms(2) have "Transferor_Run perform cancelled (prEvents p) (prStart p) = Ret (prState p)"
    by (auto simp: follows_def begins_def Transferor_Run_def)
  with Retried show ?thesis by (simp add: follows_def)
next
  case (Discard f)
  with assms(2) have "Transferor_Run perform cancelled (prEvents p) (prStart p) = Ret (prState p)"
    by (simp add: follows_def)
  from Transferor_Run_late[OF this assms(3)] Discard show ?thesis by (simp add: follows_def)
next
  case Return
  with assms(2) show ?thesis by (simp add: follows_def)
qed


section \<open>No file is lost\<close>

definition taken :: "'w process \<Rightarrow> tfile list" where
  "taken p = received (prEvents p) @ trDiscarded (prState p)"

lemma follows_Looping: "follows perform cancelled p \<Longrightarrow> prPhase p = Looping \<Longrightarrow> Cancelled \<notin> set (prEvents p)"
  using begins_not_cancelled[of perform p "prState p"] by (simp add: follows_def)

lemma receiveFile_sel:
  assumes "receiveFile perform f p = Some p'"
  shows "prEvents p' = prEvents p @ [Receive f]" "trDiscarded (prState p') = trDiscarded (prState p)" "prStart p' = prStart p"
    "prPhase p' = prPhase p"
  using assms by (cases rule: receiveFile_cases; simp)+

lemma retryFile_sel:
  assumes "retryFile perform cancelled aborted f fs p = Some p'"
  shows "prEvents p' = prEvents p" "trDiscarded (prState p') = trDiscarded (prState p)" "prStart p' = prStart p"
    "prPhase p' = Retrying aborted fs"
  using assms by (cases rule: retryFile_cases; simp)+

lemma move_takes:
  assumes "transferorMove perform cancelled dn p (q1, closed, q2) = Some (p', q1', closed', q2')"
    and "follows perform cancelled p"
    and "prPhase p = Draining \<Longrightarrow> q1 \<noteq> [] \<Longrightarrow> Cancelled \<in> set (prEvents p)"
  shows "mset q1' + mset (taken p') = mset q1 + mset (taken p)"
  using assms(1)
proof (cases rule: transferorMove_cases)
  case (Receive f)
  with receiveFile_sel[OF Receive(4)] follows_Looping[OF assms(2)] show ?thesis
    by (simp add: taken_def received_append)
next
  case (Retry aborted f fs)
  with retryFile_sel[OF Retry(3)] show ?thesis by (simp add: taken_def)
next
  case (Discard f)
  with assms(3) show ?thesis by (simp add: taken_def received_append)
qed (simp_all add: taken_def received_append)

lemma move_emits:
  assumes "transferorMove perform cancelled dn p (q1, closed, q2) = Some (p', q1', closed', q2')"
  shows "mset q2' + mset (prOutbox p') + mset (trOutput (prState p)) =
    mset q2 + mset (prOutbox p) + mset (trOutput (prState p'))"
  using assms
proof (cases rule: transferorMove_cases)
  case (Receive f)
  from Receive(4) Receive(1,6) show ?thesis by (cases rule: receiveFile_cases) (simp_all add: emit_def)
next
  case (Retry aborted f fs)
  from Retry(3) Retry(1,6) show ?thesis by (cases rule: retryFile_cases) (simp_all add: emit_def)
qed simp_all

lemma mset_concat_update:
  assumes "i < length ps"
  shows "mset (concat (map f (ps[i := p]))) + mset (f (ps ! i)) = mset (concat (map f ps)) + mset (f p)"
proof -
  have "mset (concat (map f (ps[i := p]))) = mset (concat (map f (take i ps))) + mset (f p) + mset (concat (map f (drop (Suc i) ps)))"
    using assms by (simp add: upd_conv_take_nth_drop)
  moreover have "mset (concat (map f ps)) =
      mset (concat (map f (take i ps))) + mset (f (ps ! i)) + mset (concat (map f (drop (Suc i) ps)))"
    by (subst id_take_nth_drop[OF assms]) (simp only: map_append list.map concat_append concat.simps mset_append add.assoc)
  ultimately show ?thesis by simp
qed

lemma conserved:
  fixes A :: "'a multiset"
  assumes "A' + t = A + t'" "q' + t' = q + t"
  shows "q' + A' = q + A"
proof -
  have "count (q' + A') x = count (q + A) x" for x
    using arg_cong[OF assms(1), of "\<lambda>M. count M x"] arg_cong[OF assms(2), of "\<lambda>M. count M x"] by simp
  then show ?thesis by (simp add: multiset_eq_iff)
qed

lemma emitted:
  fixes A :: "'a multiset"
  assumes "A' + t = A + t'" "O' + u = O1 + u'" "q' + t' + u = q + t + u'" "c + q + A = O1"
  shows "c + q' + A' = O'"
proof -
  have "count (c + q' + A') x = count O' x" for x
    using arg_cong[OF assms(1), of "\<lambda>M. count M x"] arg_cong[OF assms(2), of "\<lambda>M. count M x"]
      arg_cong[OF assms(3), of "\<lambda>M. count M x"] arg_cong[OF assms(4), of "\<lambda>M. count M x"] by simp
  then show ?thesis by (simp add: multiset_eq_iff)
qed

section \<open>The order of events\<close>

text \<open>
  Before the input is closed, a transferor leaves its main loop only by a cancellation, and it
  discards files only after one.
\<close>

definition orderly :: "'w network \<Rightarrow> 'w process \<Rightarrow> bool" where
  "orderly s p \<longleftrightarrow>
     (Cancelled \<notin> set (prEvents p) \<longrightarrow> trDiscarded (prState p) = [] \<and>
        (prPhase p \<noteq> Looping \<longrightarrow> nwQueue1 s = [] \<and> nwPending s = [] \<and> nwClosed1 s)) \<and>
     (prPhase p = Returned \<longrightarrow> prOutbox p = [] \<and> nwQueue1 s = [] \<and> nwPending s = [] \<and> nwClosed1 s)"

lemma orderly_start: "orderly s (Transferor_start w)"
  by (simp add: orderly_def Transferor_start_def)

lemma orderly_move:
  assumes "transferorMove perform cancelled dn p (nwQueue1 s, nwClosed1 s, q2) = Some (p', q1', closed', q2')"
    and "orderly s p" "nwClosed1 s \<Longrightarrow> nwPending s = []"
    and "nwQueue1 s' = q1'" "nwClosed1 s' = nwClosed1 s" "nwPending s' = nwPending s"
  shows "orderly s' p'"
  using assms(1)
proof (cases rule: transferorMove_cases)
  case (Receive f)
  with receiveFile_sel[OF Receive(4)] assms(2-) show ?thesis by (auto simp: orderly_def)
next
  case (Retry aborted f fs)
  with retryFile_sel[OF Retry(3)] assms(2-) show ?thesis by (auto simp: orderly_def)
next
  case (Send info infos)
  with assms(2-) show ?thesis by (auto simp: orderly_def)
next
  case (Discard f)
  with assms(2-) show ?thesis by (auto simp: orderly_def)
qed (use assms(2-) in \<open>simp_all add: orderly_def\<close>)

lemma orderly_mono:
  "orderly s p \<Longrightarrow> (nwQueue1 s = [] \<Longrightarrow> nwPending s = [] \<Longrightarrow> nwClosed1 s \<Longrightarrow>
     nwQueue1 s' = [] \<and> nwPending s' = [] \<and> nwClosed1 s') \<Longrightarrow> orderly s' p"
  by (auto simp: orderly_def)


section \<open>The invariant of the network\<close>

definition network_ok ::
  "('w, 'r) Job list \<Rightarrow> 'w perform \<Rightarrow> ('w \<Rightarrow> bool) \<Rightarrow> 'w \<Rightarrow> 'w list \<Rightarrow> 'w network \<Rightarrow> bool" where
  "network_ok jobs perform cancelled w ws s \<longleftrightarrow>
     Scraper_loop jobs cancelled (nwScraper s) = Scraper_Run jobs cancelled w \<and>
     (nwClosed1 s \<longrightarrow> nwPending s = [] \<and>
        (stack_IsEmpty (scStack (nwScraper s)) \<or> cancelled (scWorld (nwScraper s)))) \<and>
     mset (nwPending s) + mset (nwQueue1 s) + mset (concat (map taken (nwTransferors s))) =
       mset (scOutput (nwScraper s)) \<and>
     mset (nwCollected s) + mset (nwQueue2 s) + mset (concat (map prOutbox (nwTransferors s))) =
       mset (concat (map (trOutput \<circ> prState) (nwTransferors s))) \<and>
     (\<forall>p\<in>set (nwTransferors s). follows perform cancelled p \<and> orderly s p) \<and>
     (nwClosed2 s \<longrightarrow> returned s) \<and> (nwCleaning s \<longrightarrow> nwClosed2 s \<and> nwQueue2 s = []) \<and>
     length (nwQueue1 s) \<le> capacity \<and> length (nwQueue2 s) \<le> capacity \<and>
     map prStart (nwTransferors s) = ws"

lemma network_okD:
  assumes "network_ok jobs perform cancelled w ws s"
  shows "Scraper_loop jobs cancelled (nwScraper s) = Scraper_Run jobs cancelled w"
    "nwClosed1 s \<Longrightarrow> nwPending s = []"
    "nwClosed1 s \<Longrightarrow> stack_IsEmpty (scStack (nwScraper s)) \<or> cancelled (scWorld (nwScraper s))"
    "mset (nwPending s) + mset (nwQueue1 s) + mset (concat (map taken (nwTransferors s))) =
       mset (scOutput (nwScraper s))"
    "mset (nwCollected s) + mset (nwQueue2 s) + mset (concat (map prOutbox (nwTransferors s))) =
       mset (concat (map (trOutput \<circ> prState) (nwTransferors s)))"
    "p \<in> set (nwTransferors s) \<Longrightarrow> follows perform cancelled p"
    "p \<in> set (nwTransferors s) \<Longrightarrow> orderly s p"
    "nwClosed2 s \<Longrightarrow> returned s"
    "nwCleaning s \<Longrightarrow> nwClosed2 s" "nwCleaning s \<Longrightarrow> nwQueue2 s = []"
    "length (nwQueue1 s) \<le> capacity" "length (nwQueue2 s) \<le> capacity"
    "map prStart (nwTransferors s) = ws"
  by (insert assms, unfold network_ok_def, blast+)

lemma network_ok_start: "network_ok jobs perform cancelled w ws (runPipeline jobs w ws)"
proof -
  have "concat (map f (map Transferor_start ws)) = []" if "\<And>w. f (Transferor_start w) = []" for f :: "'a process \<Rightarrow> 'c list"
    using that by (induction ws) simp_all
  then have "concat (map taken (map Transferor_start ws)) = []" "concat (map prOutbox (map Transferor_start ws)) = []"
    "concat (map (trOutput \<circ> prState) (map Transferor_start ws)) = []"
    by (simp_all add: Transferor_start_def taken_def)
  then show ?thesis
    by (auto simp: network_ok_def runPipeline_def Scraper_Run_def follows_start orderly_start o_def)
      (simp_all add: Scraper_start_def Transferor_start_def)
qed

text \<open>The files that a step of the scraper finds are added to its output.\<close>

lemma fold_handleFileSpec_output:
  "\<exists>new. scOutput (fold (handleFileSpec jobs j) entries st) = scOutput st @ new"
proof (induction entries arbitrary: st)
  case (Cons fs entries)
  from Cons.IH[of "handleFileSpec jobs j fs st"] obtain new where
    "scOutput (fold (handleFileSpec jobs j) (fs # entries) st) = scOutput (handleFileSpec jobs j fs st) @ new" by auto
  moreover have "\<exists>new. scOutput (handleFileSpec jobs j fs st) = scOutput st @ new"
    by (auto simp: handleFileSpec_def split: option.splits)
  ultimately show ?case by auto
qed simp

lemma listEntries_output: "\<exists>new. scOutput (fst (listEntries jobs d st)) = scOutput st @ new"
  using fold_handleFileSpec_output[of jobs "dJob d" _ "st\<lparr>scWorld := _\<rparr>"]
  by (fastforce simp: listEntries_def split: prod.splits sum.splits)

lemma scrapeNext_output: "\<exists>new. scOutput (scrapeNext jobs st) = scOutput st @ new"
proof -
  obtain stack d where pop: "stack_Pop (scStack st) = (stack, d)" by fastforce
  obtain st' err where l: "listDirectory jobs d (st\<lparr>scStack := stack\<rparr>) = (st', err)" by fastforce
  have "scOutput (scrapeNext jobs st) = scOutput st'"
    by (auto simp: scrapeNext_def pop l finishDirectory_def split: option.splits)
  moreover have "\<exists>new. scOutput st' = scOutput st @ new"
  proof (cases "dPath d = ''/''")
    case False
    with l listEntries_output[of jobs d "st\<lparr>scStack := stack\<rparr>"] show ?thesis by (simp add: listDirectory_def)
  next
    case True
    obtain w entries e where s: "srcListAllFiles (jbSource (jobs ! dJob d)) (scWorld st) = (w, entries, e)"
      by (metis prod_cases3)
    let ?st = "fold (handleFileSpec jobs (dJob d)) entries (st\<lparr>scStack := stack, scWorld := w\<rparr>)"
    have "scOutput st' = scOutput ?st \<or> st' = fst (listEntries jobs d ?st)"
      using l True s by (auto simp: listDirectory_def Let_def split: if_splits)
    moreover obtain new where "scOutput ?st = scOutput st @ new"
      using fold_handleFileSpec_output[of jobs "dJob d" entries "st\<lparr>scStack := stack, scWorld := w\<rparr>"] by auto
    ultimately show ?thesis using listEntries_output[of jobs d ?st] by auto
  qed
  ultimately show ?thesis by simp
qed


lemma network_ok_scraper:
  assumes "network_ok jobs perform cancelled w ws s" "scraperMove jobs cancelled s = Some s'"
  shows "network_ok jobs perform cancelled w ws s'"
proof (cases "nwPending s")
  case (Cons f fs)
  with assms(2) have s': "length (nwQueue1 s) < capacity" "s' = s\<lparr>nwPending := fs, nwQueue1 := nwQueue1 s @ [f]\<rparr>"
    by (auto simp: scraperMove_def split: if_splits)
  have "orderly s' p" if "orderly s p" for p
    using that by (rule orderly_mono) (use s' Cons in auto)
  with assms(1) s' Cons show ?thesis by (simp add: network_ok_def returned_def)
next
  case Nil
  with assms(2) have open1: "\<not> nwClosed1 s" by (auto simp: scraperMove_def split: if_splits)
  show ?thesis
  proof (cases "stack_IsEmpty (scStack (nwScraper s)) \<or> cancelled (scWorld (nwScraper s))")
    case True
    with assms(2) Nil open1 have s': "s' = s\<lparr>nwClosed1 := True\<rparr>" by (simp add: scraperMove_def)
    have "orderly s' p" if "orderly s p" for p
      using that by (rule orderly_mono) (use s' in auto)
    with assms(1) s' Nil True show ?thesis by (simp add: network_ok_def returned_def)
  next
    case False
    let ?sc = "scrapeNext jobs (nwScraper s)"
    from assms(2) Nil open1 False have
      s': "s' = s\<lparr>nwScraper := ?sc, nwPending := drop (length (scOutput (nwScraper s))) (scOutput ?sc)\<rparr>"
      by (auto simp: scraperMove_def Let_def)
    obtain new where new: "scOutput ?sc = scOutput (nwScraper s) @ new"
      using scrapeNext_output by blast
    have "Scraper_loop jobs cancelled (nwScraper s) = Scraper_loop jobs cancelled ?sc"
      using False by (subst Scraper_loop.simps) simp
    moreover have "orderly s' p" if "orderly s p" for p
      using that by (rule orderly_mono) (use open1 in auto)
    ultimately show ?thesis using assms(1) s' Nil open1 new by (simp add: network_ok_def returned_def)
  qed
qed

lemma transferorMove_bounds:
  assumes "transferorMove perform cancelled dn p (q1, closed, q2) = Some (p', q1', closed', q2')"
  shows "length q1' \<le> length q1" "length q2 \<le> capacity \<Longrightarrow> length q2' \<le> capacity" "prStart p' = prStart p"
    "prPhase p = Returned \<Longrightarrow> prOutbox p = [] \<Longrightarrow> False"
    "q1 = [] \<Longrightarrow> q1' = []"
proof -
  have "length q1' \<le> length q1 \<and> (length q2 \<le> capacity \<longrightarrow> length q2' \<le> capacity) \<and> prStart p' = prStart p \<and>
    (prPhase p = Returned \<longrightarrow> prOutbox p \<noteq> [])"
    using assms
  proof (cases rule: transferorMove_cases)
    case (Receive f)
    with receiveFile_sel[OF Receive(4)] show ?thesis by simp
  next
    case (Retry aborted f fs)
    with retryFile_sel[OF Retry(3)] show ?thesis by simp
  qed simp_all
  then show "length q1' \<le> length q1" "length q2 \<le> capacity \<Longrightarrow> length q2' \<le> capacity" "prStart p' = prStart p"
    "prPhase p = Returned \<Longrightarrow> prOutbox p = [] \<Longrightarrow> False" "q1 = [] \<Longrightarrow> q1' = []" by auto
qed

lemma network_ok_transferor:
  assumes "network_ok jobs perform cancelled w ws s" "transferorsMove perform cancelled i dn s = Some s'"
  shows "network_ok jobs perform cancelled w ws s'"
proof -
  let ?p = "nwTransferors s ! i"
  note ok = network_okD[OF assms(1)]
  from assms(2) obtain p q1 closed q2 where i: "i < length (nwTransferors s)"
    and m: "transferorMove perform cancelled dn ?p (nwQueue1 s, nwClosed1 s, nwQueue2 s) = Some (p, q1, closed, q2)"
    and s': "s' = s\<lparr>nwTransferors := (nwTransferors s)[i := p], nwQueue1 := q1, nwQueue2 := q2\<rparr>"
    by (auto simp: transferorsMove_def split: if_splits option.splits)
  note bounds = transferorMove_bounds[OF m]
  have p: "follows perform cancelled ?p" "orderly s ?p"
    using ok(6,7) i by simp_all
  then have late: "prPhase ?p = Draining \<Longrightarrow> nwQueue1 s \<noteq> [] \<Longrightarrow> Cancelled \<in> set (prEvents ?p)"
    by (auto simp: orderly_def)
  have "orderly s' p'" if "orderly s p'" for p'
    using that by (rule orderly_mono) (simp_all add: s' bounds(5))
  moreover have "orderly s' p"
    by (rule orderly_move[OF m p(2)]) (simp_all add: s' ok(2))
  ultimately have procs: "follows perform cancelled p' \<and> orderly s' p'" if "p' \<in> set ((nwTransferors s)[i := p])" for p'
    using follows_move[OF m p(1) late] ok(6,7) set_update_subset_insert[THEN subsetD, OF that] by blast
  have running: "\<not> returned s"
    using bounds(4) p(2) i by (auto simp: returned_def list_all_length orderly_def)
  have "mset q1 + mset (concat (map taken ((nwTransferors s)[i := p]))) =
      mset (nwQueue1 s) + mset (concat (map taken (nwTransferors s)))"
    by (rule conserved[OF mset_concat_update[OF i] move_takes[OF m p(1) late]])
  moreover have "mset (nwCollected s) + mset q2 + mset (concat (map prOutbox ((nwTransferors s)[i := p]))) =
      mset (concat (map (trOutput \<circ> prState) ((nwTransferors s)[i := p])))"
    by (rule emitted[OF mset_concat_update[OF i] mset_concat_update[OF i]])
      (use move_emits[OF m] ok(5) in \<open>simp_all only: o_apply\<close>)
  moreover have "map prStart ((nwTransferors s)[i := p]) = map prStart (nwTransferors s)"
    using bounds(3) i by (simp add: map_update list_update_same_conv)
  ultimately show ?thesis
    unfolding network_ok_def using procs running ok(1-4,8-13) bounds(1,2) order_trans[OF bounds(1)]
    by (intro conjI ballI impI) (simp_all add: s' add.assoc)
qed

lemma network_ok_move:
  assumes "network_ok jobs perform cancelled w ws s" "netMove jobs perform cancelled m s = Some s'"
  shows "network_ok jobs perform cancelled w ws s'"
proof (cases m)
  case ScraperMoves
  with assms network_ok_scraper show ?thesis by simp
next
  case (TransferorMoves i dn)
  with assms(2) show ?thesis by (intro network_ok_transferor[OF assms(1)]) simp
next
  case MainMoves
  with assms(2) have s': "s' = s\<lparr>nwClosed2 := True\<rparr>" "returned s" by (auto simp: mainMove_def split: if_splits)
  have "orderly s' p = orderly s p" for p by (simp add: orderly_def s'(1))
  with assms(1) s' show ?thesis by (simp add: network_ok_def returned_def)
next
  case CleanerMoves
  have o: "orderly s' p = orderly s p" if "nwQueue1 s' = nwQueue1 s" "nwPending s' = nwPending s" "nwClosed1 s' = nwClosed1 s" for p
    using that by (simp add: orderly_def)
  show ?thesis
  proof (cases "nwQueue2 s")
    case Nil
    with CleanerMoves assms(2) have "s' = s\<lparr>nwCleaning := True\<rparr>" "nwClosed2 s"
      by (auto simp: cleanerMove_def split: if_splits)
    with assms(1) Nil o show ?thesis by (simp add: network_ok_def returned_def)
  next
    case (Cons info infos)
    with CleanerMoves assms(2) have "s' = s\<lparr>nwQueue2 := infos, nwCollected := nwCollected s @ [info]\<rparr>"
      by (simp add: cleanerMove_def)
    with assms(1) Cons o show ?thesis by (simp add: network_ok_def returned_def)
  qed
qed

lemma network_ok_scheduled: "scheduled jobs perform cancelled w ws s \<Longrightarrow> network_ok jobs perform cancelled w ws s"
  by (induction rule: scheduled.induct) (auto intro: network_ok_start network_ok_move)

end
