(* ===== verification/NetworkClaims.thy ===== *)
theory NetworkClaims
  imports NetworkProps
begin

text \<open>
  The concurrent pipeline implements \<open>pipelineRun\<close>, accounts for every file whether or not it is
  cancelled, never gets stuck, and comes to an end.
\<close>

section \<open>Finished schedules\<close>

definition undisturbed :: "'w network \<Rightarrow> bool" where
  "undisturbed s \<longleftrightarrow> list_all (\<lambda>p. Cancelled \<notin> set (prEvents p)) (nwTransferors s)"

lemma finished_scraper:
  assumes "network_ok jobs perform cancelled w ws s" "finished s"
  shows "Scraper_Run jobs cancelled w = Some (nwScraper s)"
proof -
  note ok = network_okD[OF assms(1)]
  from assms(2) ok(3) have "Scraper_loop jobs cancelled (nwScraper s) = Some (nwScraper s)"
    by (subst Scraper_loop.simps) (simp add: finished_def)
  with ok(1) show ?thesis by simp
qed

lemma finished_process:
  assumes "network_ok jobs perform cancelled w ws s" "finished s" "p \<in> set (nwTransferors s)"
  shows "Transferor_Run perform cancelled (prEvents p) (prStart p) = Ret (prState p)" "prOutbox p = []"
    "nwQueue1 s = []" "Cancelled \<notin> set (prEvents p) \<Longrightarrow> trDiscarded (prState p) = []"
proof -
  note ok = network_okD[OF assms(1)]
  have r: "prPhase p = Returned" using assms(2,3) by (simp add: finished_def returned_def list_all_iff)
  with ok(6)[OF assms(3)] show "Transferor_Run perform cancelled (prEvents p) (prStart p) = Ret (prState p)"
    by (simp add: follows_def)
  from r ok(7)[OF assms(3)] show "prOutbox p = []" "nwQueue1 s = []" "Cancelled \<notin> set (prEvents p) \<Longrightarrow> trDiscarded (prState p) = []"
    by (auto simp: orderly_def)
qed

definition discarded :: "'w network \<Rightarrow> tfile list" where
  "discarded s = concat (map (trDiscarded \<circ> prState) (nwTransferors s))"

lemma finished_files:
  assumes "network_ok jobs perform cancelled w ws s" "finished s" "ws \<noteq> []"
  shows "mset (concat (map (received \<circ> prEvents) (nwTransferors s))) + mset (discarded s) = mset (scOutput (nwScraper s))"
    "mset (nwCollected s) = mset (concat (map (trOutput \<circ> prState) (nwTransferors s)))"
proof -
  note ok = network_okD[OF assms(1)]
  have ps: "nwTransferors s \<noteq> []" using ok(13) assms(3) by auto
  have out: "concat (map prOutbox (nwTransferors s)) = []"
    using finished_process(2)[OF assms(1,2)] by simp
  have "nwQueue1 s = []" using finished_process(3)[OF assms(1,2)] ps by (cases "nwTransferors s") auto
  moreover have "mset (concat (map taken ps)) =
      mset (concat (map (received \<circ> prEvents) ps)) + mset (concat (map (trDiscarded \<circ> prState) ps))" for ps :: "'a process list"
    by (induction ps) (simp_all add: taken_def)
  ultimately show "mset (concat (map (received \<circ> prEvents) (nwTransferors s))) + mset (discarded s) =
      mset (scOutput (nwScraper s))"
    using ok(4) assms(2) by (simp add: finished_def discarded_def)
  show "mset (nwCollected s) = mset (concat (map (trOutput \<circ> prState) (nwTransferors s)))"
    using ok(5,10) assms(2) out by (simp add: finished_def)
qed

lemma finished_pipelineRun:
  assumes "scheduled jobs perform cancelled w ws s" "finished s" "undisturbed s" "ws \<noteq> []"
  shows "pipelineRun jobs perform cancelled w (nwScraper s) (map (\<lambda>p. (prEvents p, prStart p)) (nwTransferors s))
      (map prState (nwTransferors s)) (nwCollected s)"
proof -
  note ok = network_ok_scheduled[OF assms(1)]
  note fin = finished_process[OF ok assms(2)]
  have "discarded s = []" using fin(4) assms(3) by (simp add: discarded_def undisturbed_def list_all_iff)
  with finished_files[OF ok assms(2,4)] have
    "mset (concat (map (received \<circ> fst) (map (\<lambda>p. (prEvents p, prStart p)) (nwTransferors s)))) = mset (scOutput (nwScraper s))"
    "mset (nwCollected s) = mset (concat (map trOutput (map prState (nwTransferors s))))"
    by (simp_all add: o_def)
  moreover have "list_all2 (\<lambda>(evs, w') tr. Transferor_Run perform cancelled evs w' = Ret tr)
      (map (\<lambda>p. (prEvents p, prStart p)) (nwTransferors s)) (map prState (nwTransferors s))"
    using fin(1) by (simp add: list_all2_conv_all_nth)
  ultimately show ?thesis
    using finished_scraper[OF ok assms(2)] unfolding pipelineRun_def by blast
qed

text \<open>C6: the concurrent pipeline refines the run of its actors one after the other. When all actors have
  returned and no transferor was cancelled in its main loop, then what they have done, under whatever
  schedule and with however many transferors, is a run in the sense of \<open>pipelineRun\<close>: the scraper has done
  \<open>Scraper_Run\<close>, each transferor has done \<open>Transferor_Run\<close> on what it received, and the cleaner has
  received exactly the infos of all transferors.\<close>

theorem network_refines_pipelineRun:
  assumes "scheduled jobs perform cancelled w ws s" "finished s" "undisturbed s" "ws \<noteq> []"
  shows "pipelineRun jobs perform cancelled w (nwScraper s) (map (\<lambda>p. (prEvents p, prStart p)) (nwTransferors s))
      (map prState (nwTransferors s)) (nwCollected s) \<and>
    map prStart (nwTransferors s) = ws \<and> nwQueue1 s = [] \<and> nwQueue2 s = []"
proof -
  note ok = network_ok_scheduled[OF assms(1)]
  from network_okD(13)[OF ok] assms(4) obtain p where "p \<in> set (nwTransferors s)" by (cases "nwTransferors s") auto
  from finished_process(3)[OF ok assms(2) this] have "nwQueue1 s = []" .
  with finished_pipelineRun[OF assms] network_okD(10,13)[OF ok] assms(2) show ?thesis
    unfolding finished_def by blast
qed

text \<open>C25: no file is lost between the actors, however the run is scheduled or cancelled. When all actors have
  returned, each file that the scraper sent has either come to the cleaner in exactly one info, or was
  discarded by a transferor, and files are discarded only after a cancellation. At all times the
  channels hold at most ten elements.\<close>

theorem network_accounts:
  assumes "scheduled jobs perform cancelled w ws s" "ws \<noteq> []"
  shows "length (nwQueue1 s) \<le> 10 \<and> length (nwQueue2 s) \<le> 10 \<and>
    (finished s \<longrightarrow> mset (map fiFile (nwCollected s)) + mset (discarded s) = mset (scOutput (nwScraper s)) \<and>
      (undisturbed s \<longrightarrow> discarded s = []))"
proof (intro conjI impI)
  note ok = network_ok_scheduled[OF assms(1)]
  show "length (nwQueue1 s) \<le> 10" "length (nwQueue2 s) \<le> 10"
    using network_okD(11,12)[OF ok] by (simp_all add: capacity_def)
  assume fin: "finished s"
  have "image_mset fiFile (mset (concat (map (trOutput \<circ> prState) ps))) = mset (concat (map (received \<circ> prEvents) ps))"
    if "set ps \<subseteq> set (nwTransferors s)" for ps
    using that
  proof (induction ps)
    case (Cons p ps)
    then have "Transferor_Run perform cancelled (prEvents p) (prStart p) = Ret (prState p)"
      by (intro finished_process(1)[OF ok fin]) simp
    from Transferor_Run_files(1)[OF this] Cons show ?case by simp
  qed simp
  from this[of "nwTransferors s"]
  have "mset (map fiFile (nwCollected s)) = mset (concat (map (received \<circ> prEvents) (nwTransferors s)))"
    unfolding mset_map finished_files(2)[OF ok fin assms(2)] by simp
  with finished_files(1)[OF ok fin assms(2)]
  show "mset (map fiFile (nwCollected s)) + mset (discarded s) = mset (scOutput (nwScraper s))" by simp
  assume "undisturbed s"
  with finished_process(4)[OF ok fin] show "discarded s = []"
    by (simp add: discarded_def undisturbed_def list_all_iff)
qed

section \<open>No deadlock\<close>

lemma transferor_enabled:
  assumes "\<And>f w m. snd (perform f w) \<noteq> Panic m" "length q2 < capacity" "q1 \<noteq> [] \<or> closed"
    and "prPhase p \<noteq> Returned \<or> prOutbox p \<noteq> []"
  shows "\<exists>r. transferorMove perform cancelled False p (q1, closed, q2) = Some r"
proof -
  have perf: "\<exists>w' result sz. perform f w = (w', Ret (result, sz))" for f w
    using assms(1)[of f w] by (cases "perform f w"; cases "snd (perform f w)") auto
  have "\<exists>p'. receiveFile perform f p = Some p'" for f
    using perf[of f "trWorld (prState p)"] by (auto simp: receiveFile_def Let_def)
  moreover have "\<exists>p'. retryFile perform cancelled a f fs p = Some p'" for a f fs
    using perf[of f "trWorld (prState p)"] by (auto simp: retryFile_def Let_def)
  ultimately show ?thesis
    using assms(2-4) by (cases "prPhase p") (auto split: list.splits)
qed

text \<open>C7: the pipeline never gets stuck. If transfers do not panic and there is at least one transferor, then in
  each state that a schedule reaches, also after cancellations, either all actors have returned or some
  actor can move without waiting for another cancellation.\<close>

theorem network_progress:
  assumes "scheduled jobs perform cancelled w ws s" "ws \<noteq> []" "\<And>f w m. snd (perform f w) \<noteq> Panic m"
  shows "finished s \<or> (\<exists>m s'. (\<forall>i. m \<noteq> TransferorMoves i True) \<and> netMove jobs perform cancelled m s = Some s')"
proof (rule ccontr)
  assume stuck: "\<not> ?thesis"
  then have none: "netMove jobs perform cancelled m s = None" if "\<forall>i. m \<noteq> TransferorMoves i True" for m
    using that by (cases "netMove jobs perform cancelled m s") auto
  note ok = network_okD[OF network_ok_scheduled[OF assms(1)]]
  have scraper: "scraperMove jobs cancelled s = None" and cleaner: "cleanerMove s = None" and main: "mainMove s = None"
    using none[of ScraperMoves] none[of CleanerMoves] none[of MainMoves] by simp_all
  have q2: "nwQueue2 s = []" "nwClosed2 s \<Longrightarrow> nwCleaning s"
    using cleaner by (auto simp: cleanerMove_def split: list.splits if_splits)
  have q1: "nwQueue1 s \<noteq> [] \<or> nwClosed1 s"
    using scraper by (auto simp: scraperMove_def Let_def capacity_def split: list.splits if_splits)
  have "prPhase p = Returned" if p: "p \<in> set (nwTransferors s)" for p
  proof (rule ccontr)
    assume "prPhase p \<noteq> Returned"
    then have "\<exists>r. transferorMove perform cancelled False p (nwQueue1 s, nwClosed1 s, nwQueue2 s) = Some r"
      by (intro transferor_enabled[OF assms(3)]) (use q1 q2(1) in \<open>simp_all add: capacity_def\<close>)
    then obtain r where "transferorMove perform cancelled False p (nwQueue1 s, nwClosed1 s, nwQueue2 s) = Some r"
      by blast
    moreover obtain i where "i < length (nwTransferors s)" "p = nwTransferors s ! i" using p by (metis in_set_conv_nth)
    ultimately have "netMove jobs perform cancelled (TransferorMoves i False) s \<noteq> None"
      by (cases r) (simp add: transferorsMove_def)
    with none[of "TransferorMoves i False"] show False by simp
  qed
  then have ret: "returned s" by (simp add: returned_def list_all_iff)
  with main have "nwClosed2 s" by (simp add: mainMove_def split: if_splits)
  moreover obtain p where "p \<in> set (nwTransferors s)" using ok(13) assms(2) by (cases "nwTransferors s") auto
  with ret ok(7) have "nwClosed1 s \<and> nwPending s = []" by (fastforce simp: orderly_def returned_def list_all_iff)
  ultimately have "finished s" using ret q2(2) by (simp add: finished_def)
  with stuck show False by simp
qed


section \<open>No schedule goes on for ever\<close>

text \<open>The passes that the loop of the scraper still makes.\<close>

fun scrapesLeft :: "('w, 'r) Job list \<Rightarrow> ('w \<Rightarrow> bool) \<Rightarrow> nat \<Rightarrow> 'w scraper \<Rightarrow> bool" where
  "scrapesLeft jobs cancelled 0 st = (stack_IsEmpty (scStack st) \<or> cancelled (scWorld st))"
| "scrapesLeft jobs cancelled (Suc n) st =
     (\<not> (stack_IsEmpty (scStack st) \<or> cancelled (scWorld st)) \<and> scrapesLeft jobs cancelled n (scrapeNext jobs st))"

lemma scrapesLeft_exists: "Scraper_loop jobs cancelled st = Some st' \<Longrightarrow> \<exists>n. scrapesLeft jobs cancelled n st"
proof (rule Scraper_loop.raw_induct[of "\<lambda>jobs cancelled st st'. \<exists>n. scrapesLeft jobs cancelled n st"])
  fix loop :: "('a, 'b) Job list \<Rightarrow> ('a \<Rightarrow> bool) \<Rightarrow> 'a scraper \<Rightarrow> 'a scraper option" and jobs cancelled st st'
  assume IH: "\<And>jobs cancelled st st'. loop jobs cancelled st = Some st' \<Longrightarrow> \<exists>n. scrapesLeft jobs cancelled n st"
    and ret: "(if stack_IsEmpty (scStack st) \<or> cancelled (scWorld st) then Some st
      else loop jobs cancelled (scrapeNext jobs st)) = Some st'"
  show "\<exists>n. scrapesLeft jobs cancelled n st"
  proof (cases "stack_IsEmpty (scStack st) \<or> cancelled (scWorld st)")
    case True
    then show ?thesis by (intro exI[of _ 0]) simp
  next
    case False
    with ret have "loop jobs cancelled (scrapeNext jobs st) = Some st'" by simp
    from IH[OF this] obtain n where "scrapesLeft jobs cancelled n (scrapeNext jobs st)" ..
    with False show ?thesis by (intro exI[of _ "Suc n"]) simp
  qed
qed

lemma scrapesLeft_unique: "scrapesLeft jobs cancelled n st \<Longrightarrow> scrapesLeft jobs cancelled m st \<Longrightarrow> n = m"
proof (induction n arbitrary: m st)
  case 0
  then show ?case by (cases m) simp_all
next
  case (Suc n)
  then show ?case by (cases m) auto
qed

text \<open>The work that is left: each thing in the network is worth the moves that it can still cause.\<close>

fun phaseWork :: "'w transferor \<Rightarrow> phase \<Rightarrow> nat" where
  "phaseWork st Looping = 4 * length (trRetry st) + 3"
| "phaseWork st (Retrying aborted fs) = 4 * length fs + 2"
| "phaseWork st Draining = 1"
| "phaseWork st Returned = 0"

definition processWork :: "'w process \<Rightarrow> nat" where
  "processWork p = phaseWork (prState p) (prPhase p) + 2 * length (prOutbox p)"

definition work :: "'w network \<Rightarrow> nat" where
  "work s = 6 * length (nwPending s) + 5 * length (nwQueue1 s) + sum_list (map processWork (nwTransferors s)) +
     length (nwQueue2 s) + of_bool (\<not> nwClosed1 s) + of_bool (\<not> nwClosed2 s) + of_bool (\<not> nwCleaning s)"

lemma transferorMove_work:
  assumes "transferorMove perform cancelled dn p (q1, closed, q2) = Some (p', q1', closed', q2')"
  shows "5 * length q1' + processWork p' + length q2' < 5 * length q1 + processWork p + length q2"
  using assms
proof (cases rule: transferorMove_cases)
  case (Receive f)
  from Receive(4) Receive(1-3,6) show ?thesis by (cases rule: receiveFile_cases) (simp_all add: processWork_def)
next
  case (Retry aborted f fs)
  from Retry(3) Retry(1,2,4,6) show ?thesis by (cases rule: retryFile_cases) (simp_all add: processWork_def)
qed (simp_all add: processWork_def)

lemma netMove_work:
  assumes "netMove jobs perform cancelled m s = Some s'"
  shows "nwScraper s' = nwScraper s \<and> work s' < work s \<or>
    nwScraper s' = scrapeNext jobs (nwScraper s) \<and>
      \<not> (stack_IsEmpty (scStack (nwScraper s)) \<or> cancelled (scWorld (nwScraper s)))"
proof (cases m)
  case ScraperMoves
  with assms have m: "scraperMove jobs cancelled s = Some s'" by simp
  show ?thesis
  proof (cases "nwPending s")
    case Nil
    with m have c: "\<not> nwClosed1 s" by (cases "nwClosed1 s") (simp_all add: scraperMove_def)
    show ?thesis
    proof (cases "stack_IsEmpty (scStack (nwScraper s)) \<or> cancelled (scWorld (nwScraper s))")
      case True
      with m Nil c have "s' = s\<lparr>nwClosed1 := True\<rparr>" by (simp add: scraperMove_def)
      with c show ?thesis by (simp add: work_def)
    next
      case False
      then have "scraperMove jobs cancelled s = Some (s\<lparr>nwScraper := scrapeNext jobs (nwScraper s),
          nwPending := drop (length (scOutput (nwScraper s))) (scOutput (scrapeNext jobs (nwScraper s)))\<rparr>)"
        using Nil c by (simp only: scraperMove_def list.case if_False Let_def)
      with m have "nwScraper s' = scrapeNext jobs (nwScraper s)" by auto
      with False show ?thesis by blast
    qed
  next
    case (Cons f fs)
    with m have "s' = s\<lparr>nwPending := fs, nwQueue1 := nwQueue1 s @ [f]\<rparr>"
      by (cases "length (nwQueue1 s) < capacity") (simp_all add: scraperMove_def)
    with Cons show ?thesis by (simp add: work_def)
  qed
next
  case (TransferorMoves i dn)
  with assms obtain p q1 closed q2 where i: "i < length (nwTransferors s)"
    and t: "transferorMove perform cancelled dn (nwTransferors s ! i) (nwQueue1 s, nwClosed1 s, nwQueue2 s) =
      Some (p, q1, closed, q2)"
    and s': "s' = s\<lparr>nwTransferors := (nwTransferors s)[i := p], nwQueue1 := q1, nwQueue2 := q2\<rparr>"
    by (auto simp: transferorsMove_def split: if_splits option.splits)
  have "sum_list (map processWork ((nwTransferors s)[i := p])) + processWork (nwTransferors s ! i) =
      sum_list (map processWork (nwTransferors s)) + processWork p"
    using i elem_le_sum_list[of i "map processWork (nwTransferors s)"] by (simp add: map_update sum_list_update)
  with transferorMove_work[OF t] show ?thesis by (simp add: s' work_def)
next
  case MainMoves
  with assms have "s' = s\<lparr>nwClosed2 := True\<rparr> \<and> \<not> nwClosed2 s" by (simp add: mainMove_def split: if_splits)
  then show ?thesis by (simp add: work_def)
next
  case CleanerMoves
  with assms have m: "cleanerMove s = Some s'" by simp
  show ?thesis
  proof (cases "nwQueue2 s")
    case Nil
    with m have "s' = s\<lparr>nwCleaning := True\<rparr> \<and> \<not> nwCleaning s" by (simp add: cleanerMove_def split: if_splits)
    then show ?thesis by (simp add: work_def)
  next
    case (Cons info infos)
    with m have "s' = s\<lparr>nwQueue2 := infos, nwCollected := nwCollected s @ [info]\<rparr>" by (simp add: cleanerMove_def)
    with Cons show ?thesis by (simp add: work_def)
  qed
qed

text \<open>C24: no schedule of the pipeline goes on for ever. If the scraper returns (see \<open>scraper_terminates\<close>), then
  whatever the scheduler does, how many transfers fail and when the run is cancelled, the actors make
  finitely many moves; with \<open>network_progress\<close>, all of them return.\<close>

theorem network_terminates:
  assumes "Scraper_Run jobs cancelled w = Some sc"
  shows "\<not> (\<exists>run. run 0 = runPipeline jobs w ws \<and>
    (\<forall>k. \<exists>m. netMove jobs perform cancelled m (run k) = Some (run (Suc k))))"
proof (intro notI, elim exE conjE)
  fix run assume start: "run 0 = runPipeline jobs w ws"
    and moves: "\<forall>k. \<exists>m. netMove jobs perform cancelled m (run k) = Some (run (Suc k))"
  let ?left = "\<lambda>k. SOME n. scrapesLeft jobs cancelled n (nwScraper (run k))"
  have "scheduled jobs perform cancelled w ws (run k)" for k
    using moves by (induction k) (auto simp: start intro: scheduled.intros)
  then have "Scraper_loop jobs cancelled (nwScraper (run k)) = Some sc" for k
    using network_okD(1)[OF network_ok_scheduled] assms by metis
  from scrapesLeft_exists[OF this] have left: "scrapesLeft jobs cancelled (?left k) (nwScraper (run k))" for k
    by (rule someI_ex)
  have "((?left (Suc k), work (run (Suc k))), (?left k, work (run k))) \<in> less_than <*lex*> less_than" for k
  proof -
    obtain m where "netMove jobs perform cancelled m (run k) = Some (run (Suc k))" using moves by blast
    from netMove_work[OF this] show ?thesis
    proof (elim disjE conjE)
      assume "nwScraper (run (Suc k)) = nwScraper (run k)" "work (run (Suc k)) < work (run k)"
      then show ?thesis by simp
    next
      assume next_pass: "nwScraper (run (Suc k)) = scrapeNext jobs (nwScraper (run k))"
        "\<not> (stack_IsEmpty (scStack (nwScraper (run k))) \<or> cancelled (scWorld (nwScraper (run k))))"
      obtain n where n: "?left k = Suc n" using left[of k] next_pass(2) by (cases "?left k") simp_all
      with left[of k] next_pass have "scrapesLeft jobs cancelled n (nwScraper (run (Suc k)))" by simp
      with left have "?left (Suc k) = n" by (rule scrapesLeft_unique)
      with n show ?thesis by simp
    qed
  qed
  moreover have "wf (less_than <*lex*> less_than)" by (rule wf_lex_prod) simp_all
  then obtain k where "((?left (Suc k), work (run (Suc k))), (?left k, work (run k))) \<notin> less_than <*lex*> less_than"
    by (rule wf_no_infinite_down_chainE[where f = "\<lambda>k. (?left k, work (run k))"])
  ultimately show False by (rule notE[rotated])
qed


section \<open>A schedule\<close>

text \<open>The job of \<open>Pipeline\<close> with the file a, one transferor, and one schedule of the network.\<close>

fun runMoves ::
  "('w, 'r) Job list \<Rightarrow> 'w perform \<Rightarrow> ('w \<Rightarrow> bool) \<Rightarrow> move list \<Rightarrow> 'w network \<Rightarrow> 'w network option" where
  "runMoves jobs perform cancelled [] s = Some s"
| "runMoves jobs perform cancelled (m # ms) s =
     (case netMove jobs perform cancelled m s of
        None \<Rightarrow> None
      | Some s' \<Rightarrow> runMoves jobs perform cancelled ms s')"

lemma runMoves_scheduled:
  "runMoves jobs perform cancelled ms s = Some s' \<Longrightarrow> scheduled jobs perform cancelled w ws s \<Longrightarrow>
   scheduled jobs perform cancelled w ws s'"
  by (induction ms arbitrary: s) (auto split: option.splits intro: scheduled.move)

definition demo_moves :: "move list" where
  "demo_moves = [ScraperMoves, ScraperMoves, TransferorMoves 0 False, ScraperMoves, TransferorMoves 0 False,
     TransferorMoves 0 False, CleanerMoves, TransferorMoves 0 False, TransferorMoves 0 False, MainMoves, CleanerMoves]"

text \<open>Its last state, when the scraper started in w and the transfer led from v to v'.\<close>

definition one_network :: "'w \<Rightarrow> 'w \<Rightarrow> 'w \<Rightarrow> u64 \<Rightarrow> 'w network" where
  "one_network w v v' sz =
     \<lparr>nwScraper = one_scraped w, nwPending = [], nwQueue1 = [], nwClosed1 = True,
      nwTransferors = [\<lparr>prPhase = Returned,
        prState = \<lparr>trWorld = v', trRetry = [], trOutput = clean_infos, trReport = [fileEvent TransferSuccess sz],
          trDiscarded = []\<rparr>,
        prOutbox = [], prStart = v, prEvents = [Receive (0, fileSpec ''a'')]\<rparr>],
      nwQueue2 = [], nwClosed2 = True, nwCollected = clean_infos, nwCleaning = True\<rparr>"

lemma one_scrape:
  assumes "lists_one job"
  shows "scraperMove [job] (\<lambda>w. False) (runPipeline [job] w [v]) =
     Some ((runPipeline [job] w [v])\<lparr>nwScraper := one_scraped w, nwPending := [(0, fileSpec ''a'')]\<rparr>)"
  by (simp add: scraperMove_def runPipeline_def Let_def one_scrapeNext[OF assms])
    (simp add: one_start one_scraped_def stack_IsEmpty_def)

lemma one_schedule:
  assumes "lists_one job" "perform (0, fileSpec ''a'') v = (v', Ret (TransferSuccess, sz))"
  shows "scheduled [job] perform (\<lambda>w. False) w [v] (one_network w v v' sz)"
proof -
  have "runMoves [job] perform (\<lambda>w. False) demo_moves (runPipeline [job] w [v]) = Some (one_network w v v' sz)"
    unfolding demo_moves_def
    by (simp add: one_scrape[OF assms(1)])
      (simp add: runPipeline_def scraperMove_def transferorsMove_def mainMove_def cleanerMove_def capacity_def
        Transferor_start_def receiveFile_def assms(2) emitInfo_def emit_def returned_def one_scraped_def
        stack_IsEmpty_def one_network_def clean_infos_def)
  from runMoves_scheduled[OF this scheduled.start] show ?thesis .
qed

lemma one_finished: "finished (one_network w v v' sz)" "undisturbed (one_network w v v' sz)"
  by (simp_all add: finished_def returned_def undisturbed_def one_network_def)

definition demo_network :: "store network" where
  "demo_network = one_network empty_store empty_store empty_store 1"

lemma demo_scheduled:
  "scheduled [clean_job] clean_perform (\<lambda>w. False) empty_store [empty_store] demo_network"
  unfolding demo_network_def by (rule one_schedule[OF clean_lists_one]) (simp add: clean_perform_def)

lemma demo_finished: "finished demo_network" "undisturbed demo_network"
  unfolding demo_network_def by (rule one_finished)+

theorem network_refines_pipelineRun_witness:
  "pipelineRun [clean_job] clean_perform (\<lambda>w. False) empty_store clean_scraped
     [([Receive (0, fileSpec ''a'')], empty_store)] [clean_transferor] clean_infos"
  using network_refines_pipelineRun[OF demo_scheduled demo_finished] by (simp add: demo_network_def one_network_def clean_scraped_def clean_transferor_def)

text \<open>A schedule in which the only transferor is cancelled before it receives the file.\<close>

definition abort_moves :: "move list" where
  "abort_moves = [ScraperMoves, TransferorMoves 0 True, ScraperMoves, TransferorMoves 0 False, TransferorMoves 0 False,
     ScraperMoves, TransferorMoves 0 False, MainMoves, CleanerMoves]"

definition aborted_network :: "store network" where
  "aborted_network =
     \<lparr>nwScraper = clean_scraped, nwPending = [], nwQueue1 = [], nwClosed1 = True,
      nwTransferors = [\<lparr>prPhase = Returned,
        prState = \<lparr>trWorld = empty_store, trRetry = [], trOutput = [], trReport = [],
          trDiscarded = [(0, fileSpec ''a'')]\<rparr>, prOutbox = [],
        prStart = empty_store, prEvents = [Cancelled, Receive (0, fileSpec ''a'')]\<rparr>],
      nwQueue2 = [], nwClosed2 = True, nwCollected = [], nwCleaning = True\<rparr>"

lemma abort_run:
  "runMoves [clean_job] clean_perform (\<lambda>w. False) abort_moves (runPipeline [clean_job] empty_store [empty_store]) =
     Some aborted_network"
  unfolding abort_moves_def
  by (simp add: one_scrape[OF clean_lists_one] del: clean_job_sel)
    (simp add: runPipeline_def scraperMove_def transferorsMove_def mainMove_def cleanerMove_def capacity_def
      Transferor_start_def returned_def clean_scraped_def one_scraped_def stack_IsEmpty_def aborted_network_def del: clean_job_sel)

theorem network_accounts_witness:
  "finished aborted_network \<and> nwCollected aborted_network = [] \<and> discarded aborted_network = [(0, fileSpec ''a'')] \<and>
   mset (map fiFile (nwCollected aborted_network)) + mset (discarded aborted_network) =
     mset (scOutput (nwScraper aborted_network))"
proof -
  have fin: "finished aborted_network" by (simp add: finished_def returned_def aborted_network_def)
  have "mset (map fiFile (nwCollected aborted_network)) + mset (discarded aborted_network) =
      mset (scOutput (nwScraper aborted_network))"
    using network_accounts[OF runMoves_scheduled[OF abort_run scheduled.start]] fin by simp
  with fin show ?thesis by (simp add: aborted_network_def discarded_def)
qed

theorem network_progress_witness:
  "\<exists>m s'. netMove [clean_job] clean_perform (\<lambda>w. False) m (runPipeline [clean_job] empty_store [empty_store]) = Some s'"
proof -
  have "\<not> finished (runPipeline [clean_job] empty_store [empty_store])" by (simp add: finished_def runPipeline_def)
  moreover have "finished (runPipeline [clean_job] empty_store [empty_store]) \<or>
    (\<exists>m s'. (\<forall>i. m \<noteq> TransferorMoves i True) \<and>
      netMove [clean_job] clean_perform (\<lambda>w. False) m (runPipeline [clean_job] empty_store [empty_store]) = Some s')"
    by (rule network_progress[OF scheduled.start]) (simp_all add: clean_perform_def)
  ultimately show ?thesis by blast
qed

theorem network_terminates_witness:
  "\<not> (\<exists>run. run 0 = runPipeline [clean_job] empty_store [empty_store, empty_store] \<and>
    (\<forall>k. \<exists>m. netMove [clean_job] clean_perform (\<lambda>w. False) m (run k) = Some (run (Suc k))))"
  by (rule network_terminates[OF clean_scrape])

end
