(* ===== verification/UrlSource.thy ===== *)
theory UrlSource
  imports Downloader Objects
begin

text \<open>
  \<^verbatim>\<open>URLSource\<close> in \<^verbatim>\<open>pkg/objects/source.go\<close>: a file tree behind a web server, whose directories are
  listed by the links of their HTML pages. The record \<open>web\<close> has what the code takes from
  libraries: \<^verbatim>\<open>net/url\<close> (parsing, resolving a reference, printing), the HTTP clients, \<^verbatim>\<open>io.ReadAll\<close> of a
  response body, the HTML tokenizer (all tokens up to the first error token, whatever caused that)
  and \<^verbatim>\<open>bininfo.VersionOr\<close>.
\<close>

section \<open>The libraries\<close>

record url =
  uScheme :: string
  uHost :: string
  uPath :: string
  uRawPath :: string
  uRawQuery :: string
  uFragment :: string

definition path_url :: "string \<Rightarrow> url" where
  "path_url p = \<lparr>uScheme = [], uHost = [], uPath = p, uRawPath = [], uRawQuery = [], uFragment = []\<rparr>"

text \<open>An \<^verbatim>\<open>http.Client\<close> is the default client or has its own certificates: key pair and server CA.\<close>

datatype httpClient = DefaultClient | TLSClient "(string \<times> string) option" "bytes option"

datatype html_token = StartTag string "(string \<times> string) list" | OtherToken

record ('w, 'b) web =
  wbParse :: "string \<Rightarrow> goerror + url"
  wbResolve :: "url \<Rightarrow> url \<Rightarrow> url"
  wbString :: "url \<Rightarrow> string"
  wbClient :: "httpClient \<Rightarrow> ('w, 'b) client"
  wbReadAll :: "'b \<Rightarrow> bytes \<times> goerror option"
  wbTokens :: "'b \<Rightarrow> html_token list"
  wbVersion :: string

section \<open>Validate\<close>

text \<open>
  The pointers \<^verbatim>\<open>URL\<close> and \<^verbatim>\<open>HTTPClient\<close> are nil until \<^verbatim>\<open>Validate\<close> and \<^verbatim>\<open>Connect\<close> set them; the other
  operations are called after these.
\<close>

record URLSource =
  usURLString :: string
  usURL :: "url option"
  usClientCertificatePath :: string
  usClientCertificateKeyPath :: string
  usServerCAPath :: string
  usHTTPClient :: "httpClient option"
  usSegmentingIn :: "bool option"
  usSegmenting :: bool
  usSegmentSize :: u64

text \<open>The URL gets a trailing slash.\<close>

definition addSlash :: "url \<Rightarrow> url" where
  "addSlash u =
     (if hasSuffix (uPath u) ''/'' then u
      else u\<lparr>uPath := uPath u @ ''/'', uRawPath := (if uRawPath u \<noteq> [] then uRawPath u @ ''/'' else [])\<rparr>)"

definition directoryURL :: "url \<Rightarrow> url" where
  "directoryURL u = addSlash (if uPath u = [] then u\<lparr>uPath := ''/'', uRawPath := []\<rparr> else u)"

text \<open>
  When the URL cannot be parsed, \<^verbatim>\<open>url.Parse\<close> returns a nil pointer, which the code goes on to
  dereference.
\<close>

definition validateURL ::
  "('w, 'b) web \<Rightarrow> URLSource \<Rightarrow> string \<Rightarrow> (URLSource \<times> goerror list) outcome" where
  "validateURL web u name =
     (if usURLString u = [] then Ret (u, [Err (''missing value for '' @ name @ ''.url'')])
      else
        (case wbParse web (usURLString u) of
           Inl err \<Rightarrow> Panic ''nil dereference of u.URL''
         | Inr parsed \<Rightarrow> Ret (u\<lparr>usURL := Some (directoryURL parsed)\<rparr>, [])))"

definition validateCertificate :: "URLSource \<Rightarrow> string \<Rightarrow> goerror list" where
  "validateCertificate u name =
     (if usClientCertificatePath u \<noteq> [] \<or> usClientCertificateKeyPath u \<noteq> [] then
        (if usClientCertificatePath u = [] then [Err (''missing value for '' @ name @ ''.cert'')] else []) @
        (if usClientCertificateKeyPath u = [] then [Err (''missing value for '' @ name @ ''.key'')] else [])
      else [])"

definition URLSource_Validate ::
  "('w, 'b) web \<Rightarrow> URLSource \<Rightarrow> string \<Rightarrow> (URLSource \<times> goerror list) outcome" where
  "URLSource_Validate web u name =
     (case validateURL web u name of
        Panic m \<Rightarrow> Panic m
      | Ret (u1, result) \<Rightarrow>
          Ret (u1\<lparr>usSegmenting := (case usSegmentingIn u1 of None \<Rightarrow> True | Some b \<Rightarrow> b),
                  usSegmentSize := (if usSegmentSize u1 = 0 then push_bit 20 512 else usSegmentSize u1)\<rparr>,
               result @ validateCertificate u1 name))"

section \<open>Connect\<close>

text \<open>
  The files of the disk: \<open>loadKeyPair\<close> is \<^verbatim>\<open>tls.LoadX509KeyPair\<close>, of which only the error matters,
  \<open>readFile\<close> is \<^verbatim>\<open>os.ReadFile\<close>.
\<close>

definition URLSource_Connect ::
  "(string \<Rightarrow> string \<Rightarrow> goerror option) \<Rightarrow> (string \<Rightarrow> goerror + bytes) \<Rightarrow> URLSource \<Rightarrow>
    URLSource \<times> goerror option" where
  "URLSource_Connect loadKeyPair readFile u =
     (let cert = usClientCertificatePath u; key = usClientCertificateKeyPath u; ca = usServerCAPath u
      in case (if cert \<noteq> [] then
                 (case loadKeyPair cert key of
                    Some err \<Rightarrow> Inl (Wrap (''cannot load client certificate from '' @ cert @ '': '') err)
                  | None \<Rightarrow> Inr (Some (cert, key)))
               else Inr None) of
           Inl err \<Rightarrow> (u, Some err)
         | Inr pair \<Rightarrow>
             (case (if ca \<noteq> [] then
                      (case readFile ca of
                         Inl err \<Rightarrow> Inl (Wrap (''cannot load CA certificate from '' @ ca @ '': '') err)
                       | Inr pem \<Rightarrow> Inr (Some pem))
                    else Inr None) of
                Inl err \<Rightarrow> (u, Some err)
              | Inr pool \<Rightarrow>
                  (u\<lparr>usHTTPClient := Some (if cert \<noteq> [] \<or> ca \<noteq> [] then TLSClient pair pool else DefaultClient)\<rparr>,
                   None)))"

section \<open>Listing a directory\<close>

text \<open>\<^verbatim>\<open>(?:^|/)\.\.(?:$|/)\<close>\<close>

definition dotdotRx :: rx where
  "dotdotRx = seqs [Alt Bol (Lit ''/''), Lit ''..'', Alt Eol (Lit ''/'')]"

definition getURLForPath :: "('w, 'b) web \<Rightarrow> URLSource \<Rightarrow> string \<Rightarrow> url" where
  "getURLForPath web u filePath = wbResolve web (the (usURL u)) (path_url (trimPrefix filePath ''/''))"

definition fileURI :: "('w, 'b) web \<Rightarrow> URLSource \<Rightarrow> string \<Rightarrow> string" where
  "fileURI web u path = wbString web (getURLForPath web u path)"

definition hrefOf :: "html_token \<Rightarrow> string" where
  "hrefOf t =
     (case t of
        StartTag tag attrs \<Rightarrow>
          if tag = ''a'' then (case map_of attrs ''href'' of None \<Rightarrow> [] | Some v \<Rightarrow> v) else []
      | OtherToken \<Rightarrow> [])"

text \<open>What the body of the loop appends for a link.\<close>

definition linkEntry :: "('w, 'b) web \<Rightarrow> string \<Rightarrow> string \<Rightarrow> FileSpec list" where
  "linkEntry web directoryPath href =
     (if href = [] then []
      else
        (case wbParse web href of
           Inl err \<Rightarrow> []
         | Inr hrefURL \<Rightarrow>
             if uScheme hrefURL \<noteq> [] \<or> uHost hrefURL \<noteq> [] then []
             else if uRawQuery hrefURL \<noteq> [] \<or> uFragment hrefURL \<noteq> [] then []
             else if hasPrefix (uPath hrefURL) ''/'' then []
             else
               let linkPath = clean (uPath hrefURL) @ (if hasSuffix (uPath hrefURL) ''/'' then ''/'' else [])
               in if match_string dotdotRx (uPath hrefURL) then []
                  else [(fileSpec (path_join [directoryPath, linkPath]))
                          \<lparr>IsDirectory := hasSuffix linkPath ''/''\<rparr>]))"

fun collectLinks :: "('w, 'b) web \<Rightarrow> string \<Rightarrow> html_token list \<Rightarrow> FileSpec list" where
  "collectLinks web directoryPath [] = []"
| "collectLinks web directoryPath (t # ts) =
     linkEntry web directoryPath (hrefOf t) @ collectLinks web directoryPath ts"

definition leGetFailed :: "string \<Rightarrow> goerror \<Rightarrow> ListEntriesError" where
  "leGetFailed uri err = \<lparr>leLocation = uri, leMessage = ''GET failed'', leInner = Some err\<rparr>"

text \<open>The client is \<^verbatim>\<open>http.DefaultClient\<close>, not the one that \<^verbatim>\<open>Connect\<close> prepared.\<close>

definition URLSource_ListEntries ::
  "('w, 'b) web \<Rightarrow> URLSource \<Rightarrow> string \<Rightarrow> 'w \<Rightarrow> 'w \<times> (ListEntriesError + FileSpec list)" where
  "URLSource_ListEntries web u directoryPath w =
     (let cl = wbClient web DefaultClient;
          uri = wbString web (addSlash (getURLForPath web u directoryPath))
      in case cl_newRequest cl uri of
           Some err \<Rightarrow> (w, Inl (leGetFailed uri err))
         | None \<Rightarrow>
             (case cl_do cl w \<lparr>req_uri = uri, req_header = header_set no_header ''Accept'' ''text/html''\<rparr> of
                (w', Inl err) \<Rightarrow> (w', Inl (leGetFailed uri err))
              | (w', Inr resp) \<Rightarrow>
                  let contentType = header_get (resp_header resp) ''Content-Type''
                  in (w',
                      if \<not> hasPrefix (resp_status resp) ''2'' then
                        Inl \<lparr>leLocation = uri, leMessage = ''GET returned status '' @ resp_status resp, leInner = None\<rparr>
                      else if \<not> hasPrefix contentType ''text/html'' then
                        Inl \<lparr>leLocation = uri, leMessage = ''GET returned unexpected Content-Type: '' @ contentType,
                             leInner = None\<rparr>
                      else Inr (collectLinks web directoryPath (wbTokens web (resp_body resp))))))"

definition URLSource_ListAllFiles :: "ListEntriesError" where
  "URLSource_ListAllFiles = ErrListAllFilesNotSupported"

section \<open>Getting a file\<close>

definition plainGet ::
  "('w, 'b) client \<Rightarrow> 'w \<Rightarrow> string \<Rightarrow> header \<Rightarrow> 'w \<times> ('b getBody response option \<times> goerror option) outcome" where
  "plainGet cl w uri requestHeader =
     (case cl_newRequest cl uri of
        Some err \<Rightarrow> (w, Ret (None, Some err))
      | None \<Rightarrow>
          (case cl_do cl w \<lparr>req_uri = uri, req_header = requestHeader\<rparr> of
             (w', Inl err) \<Rightarrow> (w', Ret (None, Some err))
           | (w', Inr resp) \<Rightarrow> (w', Ret (Some (with_body Plain resp), None))))"

definition sizeOf :: "'b response \<Rightarrow> u64 option" where
  "sizeOf resp = (if sint (resp_length resp) < 0 then None else Some (AtLeastZero (resp_length resp)))"

definition stateOf :: "'b response \<Rightarrow> FileState" where
  "stateOf resp =
     \<lparr>fsEtag = header_get (resp_header resp) ''Etag'',
      fsLastModified = header_get (resp_header resp) ''Last-Modified'',
      fsSizeBytes = sizeOf resp, fsExpiryTime = None,
      fsSkipTransfer = (resp_code resp = StatusNotModified),
      fsContentType = header_get (resp_header resp) ''Content-Type''\<rparr>"

text \<open>The part of \<^verbatim>\<open>GetFile\<close> after the request, in \<^verbatim>\<open>source.go\<close> and \<^verbatim>\<open>github.go\<close>.\<close>

definition fileOf ::
  "string \<Rightarrow> 'b getBody response option \<times> goerror option \<Rightarrow> (goerror + 'b getBody \<times> FileState) outcome" where
  "fileOf uri r =
     (case r of
        (resp, Some err) \<Rightarrow> Ret (Inl (Wrap (''skipping '' @ uri @ '': GET failed: '') err))
      | (None, None) \<Rightarrow> Panic ''nil dereference of resp''
      | (Some resp, None) \<Rightarrow>
          Ret (if resp_code resp \<noteq> StatusOK \<and> resp_code resp \<noteq> StatusNotModified then
                 Inl (Err (''skipping '' @ uri @ '': GET returned unexpected status code: expected 200 or 304, but got '' @
                   decimal (resp_code resp)))
               else Inr (resp_body resp, stateOf resp)))"

definition URLSource_GetFile ::
  "('w, 'b) web \<Rightarrow> URLSource \<Rightarrow> string \<Rightarrow> headers \<Rightarrow> 'w \<Rightarrow>
    'w \<times> (goerror + 'b getBody \<times> FileState) outcome" where
  "URLSource_GetFile web u filePath requestHeaders w =
     (let uri = wbString web (getURLForPath web u filePath);
          hdr = to_http (headers_set requestHeaders ''User-Agent'' (''swift-http-import/'' @ wbVersion web));
          cl = wbClient web (the (usHTTPClient u))
      in case (if usSegmenting u then EnhancedGet cl w uri hdr (usSegmentSize u) else plainGet cl w uri hdr) of
           (w', Panic m) \<Rightarrow> (w', Panic m)
         | (w', Ret r) \<Rightarrow> (w', fileOf uri r))"

section \<open>Files that are read while listing\<close>

type_synonym fileCache = "string \<rightharpoonup> FileSpec"

definition cacheEntry :: "string \<Rightarrow> bytes \<Rightarrow> header \<Rightarrow> FileSpec" where
  "cacheEntry filePath contents hdr = (fileSpec filePath)\<lparr>Contents := Some contents, Headers := hdr\<rparr>"

definition getFileContents ::
  "('w, 'b) web \<Rightarrow> URLSource \<Rightarrow> string \<Rightarrow> fileCache \<Rightarrow> 'w \<Rightarrow>
    'w \<times> fileCache \<times> string \<times> (ListEntriesError + bytes)" where
  "getFileContents web u filePath cache w =
     (let uri = wbString web (getURLForPath web u filePath); cl = wbClient web (the (usHTTPClient u))
      in case cl_newRequest cl uri of
           Some err \<Rightarrow> (w, cache, uri, Inl (leGetFailed uri err))
         | None \<Rightarrow>
             (case cl_do cl w \<lparr>req_uri = uri, req_header = no_header\<rparr> of
                (w', Inl err) \<Rightarrow> (w', cache, uri, Inl (leGetFailed uri err))
              | (w', Inr resp) \<Rightarrow>
                  (case wbReadAll web (resp_body resp) of
                     (result, Some err) \<Rightarrow> (w', cache, uri, Inl (leGetFailed uri err))
                   | (result, None) \<Rightarrow>
                       if StatusBadRequest \<le> resp_code resp then
                         (w', cache, uri,
                          Inl \<lparr>leLocation = uri, leMessage = ''GET returned status '' @ decimal (resp_code resp),
                               leInner = None\<rparr>)
                       else
                         (w', cache(filePath \<mapsto> cacheEntry filePath result (resp_header resp)), uri, Inr result))))"

end
