(* ===== verification/Gpg.thy ===== *)
theory Gpg
  imports UrlSource Swift
begin

text \<open>
  \<^verbatim>\<open>pkg/util/gpg.go\<close>: the key ring that verifies the signatures of repositories, with its cache in
  a Swift container and the servers that public keys are retrieved from. The formats and the
  cryptography are code of a library: the record \<open>pgp\<close>, where \<open>'e\<close> is a key entity and \<open>'r\<close> a reader.
  Log lines and the lock are left out.
\<close>

section \<open>The library\<close>

text \<open>
  An armored block is its type with what reading its body gives; packets come until an error, which is
  \<^verbatim>\<open>io.EOF\<close> at the end. The issuer of a signature is a pointer that can be nil.
\<close>

record armorBlock =
  abType :: string
  abBody :: "bytes \<times> goerror option"

datatype packet = SignaturePacket "u64 option" | OtherPacket string

record ('w, 'r, 'e) pgp =
  pgArmorDecode :: "bytes \<Rightarrow> goerror + armorBlock"
  pgClearsignDecode :: "bytes \<Rightarrow> (bytes \<times> armorBlock) option"
  pgPackets :: "bytes \<Rightarrow> packet list \<times> goerror"
  pgReadArmoredKeyRing :: "'r \<Rightarrow> 'w \<Rightarrow> 'w \<times> (goerror + 'e list)"
  pgKeysById :: "'e list \<Rightarrow> u64 \<Rightarrow> 'e list"
  pgCheckDetachedSignature :: "'e list \<Rightarrow> bytes \<Rightarrow> bytes \<Rightarrow> goerror option"
  pgSha256Hex :: "bytes \<Rightarrow> string"

definition SignatureType :: string where "SignatureType = ''PGP SIGNATURE''"

section \<open>The key ring\<close>

record 'e keyring =
  krEntityList :: "'e list"
  krKeyserverURLPatterns :: "string list"
  krSwiftContainer :: "container option"

definition defaultKeyservers :: "string list" where
  "defaultKeyservers =
     [''https://keyserver.ubuntu.com/pks/lookup?search=0x{keyid}&options=mr&op=get'',
      ''https://pgp.mit.edu/pks/lookup?search=0x{keyid}&options=mr&op=get'']"

text \<open>The callback of \<^verbatim>\<open>Foreach\<close> ends the iteration with its first error, which is only logged.\<close>

fun restoreKeys ::
  "('w, 'r, 'lo) swift \<Rightarrow> ('w, 'r, 'e) pgp \<Rightarrow> object list \<Rightarrow> 'e list \<Rightarrow> 'w \<Rightarrow> 'w \<times> 'e list" where
  "restoreKeys sw pg [] entityList w = (w, entityList)"
| "restoreKeys sw pg (obj # objs) entityList w =
     (case swDownload sw obj Map.empty w of
        (w1, Inl err) \<Rightarrow> (w1, entityList)
      | (w1, Inr r) \<Rightarrow>
          (case pgReadArmoredKeyRing pg r w1 of
             (w2, Inl err) \<Rightarrow> (w2, entityList)
           | (w2, Inr el) \<Rightarrow> restoreKeys sw pg objs (entityList @ el) w2))"

definition NewGPGKeyRing ::
  "('w, 'r, 'lo) swift \<Rightarrow> ('w, 'r, 'e) pgp \<Rightarrow> container option \<Rightarrow> string list \<Rightarrow> 'w \<Rightarrow> 'w \<times> 'e keyring" where
  "NewGPGKeyRing sw pg cntr keyserverURLPatterns w =
     (let patterns = (if keyserverURLPatterns = [] then defaultKeyservers else keyserverURLPatterns);
          ring = (\<lambda>el. \<lparr>krEntityList = el, krKeyserverURLPatterns = patterns, krSwiftContainer = cntr\<rparr>)
      in case cntr of
           None \<Rightarrow> (w, ring [])
         | Some c \<Rightarrow>
             (case swObjects sw c [] w of
                (w1, infos, err) \<Rightarrow>
                  (case restoreKeys sw pg (map oiObject infos) [] w1 of (w2, el) \<Rightarrow> (w2, ring el))))"

section \<open>Retrieving public keys\<close>

text \<open>\<^verbatim>\<open>not?\b.*found\<close>\<close>

definition noPublicKeyFoundRx :: rx where
  "noPublicKeyFoundRx =
     seqs [Lit ''no'', Optional (Lit ''t''), WordB, Many (\<lambda>c. c \<noteq> CHR 0x0A), Lit ''found'']"

definition errNoSuchPublicKey :: goerror where
  "errNoSuchPublicKey = Err ''no such public key''"

text \<open>\<^verbatim>\<open>strings.ToLower\<close> leaves bytes beyond ASCII alone here; none of their lower case forms is in the expression.\<close>

definition getPublicKeyFromServer :: "('w, 'b) web \<Rightarrow> string \<Rightarrow> 'w \<Rightarrow> 'w \<times> (goerror + bytes)" where
  "getPublicKeyFromServer web uri w =
     (let cl = wbClient web DefaultClient
      in case cl_newRequest cl uri of
           Some err \<Rightarrow> (w, Inl err)
         | None \<Rightarrow>
             (case cl_do cl w \<lparr>req_uri = uri, req_header = no_header\<rparr> of
                (w', Inl err) \<Rightarrow> (w', Inl err)
              | (w', Inr resp) \<Rightarrow>
                  (case wbReadAll web (resp_body resp) of
                     (b, Some err) \<Rightarrow> (w', Inl err)
                   | (b, None) \<Rightarrow>
                       (w', if match_string noPublicKeyFoundRx (map lower (string_of_bytes b))
                            then Inl errNoSuchPublicKey else Inr b))))"

definition uploadPublicKey ::
  "('w, 'r, 'lo) swift \<Rightarrow> ('w, 'r, 'e) pgp \<Rightarrow> container option \<Rightarrow> bytes \<Rightarrow> 'w \<Rightarrow> 'w \<times> (goerror + bytes)" where
  "uploadPublicKey sw pg cntr b w =
     (case cntr of
        None \<Rightarrow> (w, Inr b)
      | Some c \<Rightarrow>
          (case swBytesReader sw b w of
             (w1, r) \<Rightarrow>
               (case swUpload sw \<lparr>obContainer = c, obName = pgSha256Hex pg b @ ''.asc''\<rparr> (Some r) False Map.empty w1 of
                  (w2, Some err) \<Rightarrow> (w2, Inl err)
                | (w2, None) \<Rightarrow> (w2, Inr b))))"

fun getPublicKey ::
  "('w, 'b) web \<Rightarrow> ('w, 'r, 'lo) swift \<Rightarrow> ('w, 'r, 'e) pgp \<Rightarrow> container option \<Rightarrow> string list \<Rightarrow> string \<Rightarrow> 'w \<Rightarrow>
    'w \<times> (goerror + bytes)" where
  "getPublicKey web sw pg cntr [] keyid w = (w, Inl errNoSuchPublicKey)"
| "getPublicKey web sw pg cntr (v # vs) keyid w =
     (case getPublicKeyFromServer web (replaceAll v ''{keyid}'' keyid) w of
        (w', Inr buf) \<Rightarrow> uploadPublicKey sw pg cntr buf w'
      | (w', Inl err) \<Rightarrow> getPublicKey web sw pg cntr vs keyid w')"

text \<open>\<^verbatim>\<open>fmt.Sprintf("%016X", id)\<close>\<close>

definition hexUpper :: "nat \<Rightarrow> char" where
  "hexUpper d = ''0123456789ABCDEF'' ! d"

definition hex16 :: "u64 \<Rightarrow> string" where
  "hex16 n = map (\<lambda>i. hexUpper (unat n div 16 ^ (15 - i) mod 16)) [0..<16]"

section \<open>Verification\<close>

text \<open>The loop over the packets of a signature gives the public keys that were downloaded.\<close>

fun collectKeys ::
  "('w, 'b) web \<Rightarrow> ('w, 'r, 'lo) swift \<Rightarrow> ('w, 'r, 'e) pgp \<Rightarrow> 'e keyring \<Rightarrow> packet list \<Rightarrow> goerror \<Rightarrow> bytes \<Rightarrow> 'w \<Rightarrow>
    'w \<times> (goerror + bytes) outcome" where
  "collectKeys web sw pg k [] err publicKeyBytes w =
     (w, Ret (if is_eof err then Inr publicKeyBytes else Inl err))"
| "collectKeys web sw pg k (p # ps) err publicKeyBytes w =
     (case p of
        OtherPacket t \<Rightarrow>
          (w, Ret (Inl (Err (''invalid OpenPGP packet type: expected '' @ quote ''*packet.Signature'' @ '', got '' @ t))))
      | SignaturePacket None \<Rightarrow> (w, Panic ''nil dereference of IssuerKeyId'')
      | SignaturePacket (Some issuerKeyID) \<Rightarrow>
          if pgKeysById pg (krEntityList k) issuerKeyID = [] then
            (case getPublicKey web sw pg (krSwiftContainer k) (krKeyserverURLPatterns k) (hex16 issuerKeyID) w of
               (w', Inl e) \<Rightarrow> (w', Ret (Inl e))
             | (w', Inr b) \<Rightarrow> collectKeys web sw pg k ps err (publicKeyBytes @ b) w')
          else collectKeys web sw pg k ps err publicKeyBytes w)"

text \<open>Downloaded keys are added to the key ring.\<close>

definition addKeys ::
  "('w, 'r, 'lo) swift \<Rightarrow> ('w, 'r, 'e) pgp \<Rightarrow> bytes \<Rightarrow> 'e keyring \<Rightarrow> 'w \<Rightarrow> 'w \<times> (goerror + 'e keyring)" where
  "addKeys sw pg publicKeyBytes k w =
     (if publicKeyBytes \<noteq> [] then
        (case swBytesReader sw publicKeyBytes w of
           (w1, r) \<Rightarrow>
             (case pgReadArmoredKeyRing pg r w1 of
                (w2, Inl err) \<Rightarrow> (w2, Inl err)
              | (w2, Inr el) \<Rightarrow> (w2, Inr (k\<lparr>krEntityList := krEntityList k @ el\<rparr>))))
      else (w, Inr k))"

definition verifyGPGSignature ::
  "('w, 'b) web \<Rightarrow> ('w, 'r, 'lo) swift \<Rightarrow> ('w, 'r, 'e) pgp \<Rightarrow> bytes \<Rightarrow> armorBlock \<Rightarrow> 'w \<times> 'e keyring \<Rightarrow>
    ('w \<times> 'e keyring) \<times> goerror option outcome" where
  "verifyGPGSignature web sw pg message signature wk =
     (let w = fst wk; k = snd wk
      in if abType signature \<noteq> SignatureType then
           ((w, k), Ret (Some (Err (''invalid OpenPGP armored structure: expected '' @ quote SignatureType @
              '', got '' @ quote (abType signature)))))
         else
           (case abBody signature of
              (signatureBytes, Some err) \<Rightarrow> ((w, k), Ret (Some err))
            | (signatureBytes, None) \<Rightarrow>
                (case collectKeys web sw pg k (fst (pgPackets pg signatureBytes)) (snd (pgPackets pg signatureBytes)) [] w of
                   (w1, Panic m) \<Rightarrow> ((w1, k), Panic m)
                 | (w1, Ret (Inl err)) \<Rightarrow> ((w1, k), Ret (Some err))
                 | (w1, Ret (Inr publicKeyBytes)) \<Rightarrow>
                     (case addKeys sw pg publicKeyBytes k w1 of
                        (w2, Inl err) \<Rightarrow> ((w2, k), Ret (Some err))
                      | (w2, Inr k') \<Rightarrow>
                          ((w2, k'), Ret (pgCheckDetachedSignature pg (krEntityList k') message signatureBytes))))))"

definition VerifyDetachedGPGSignature ::
  "('w, 'b) web \<Rightarrow> ('w, 'r, 'lo) swift \<Rightarrow> ('w, 'r, 'e) pgp \<Rightarrow> bytes \<Rightarrow> bytes \<Rightarrow> 'w \<times> 'e keyring \<Rightarrow>
    ('w \<times> 'e keyring) \<times> goerror option outcome" where
  "VerifyDetachedGPGSignature web sw pg message armoredSignature wk =
     (case pgArmorDecode pg armoredSignature of
        Inl err \<Rightarrow> (wk, Ret (Some err))
      | Inr block \<Rightarrow> verifyGPGSignature web sw pg message block wk)"

text \<open>A message that is not clear signed gives a nil block, which the code dereferences.\<close>

definition VerifyClearSignedGPGSignature ::
  "('w, 'b) web \<Rightarrow> ('w, 'r, 'lo) swift \<Rightarrow> ('w, 'r, 'e) pgp \<Rightarrow> bytes \<Rightarrow> 'w \<times> 'e keyring \<Rightarrow>
    ('w \<times> 'e keyring) \<times> goerror option outcome" where
  "VerifyClearSignedGPGSignature web sw pg messageWithSignature wk =
     (case pgClearsignDecode pg messageWithSignature of
        None \<Rightarrow> (wk, Panic ''nil dereference of block'')
      | Some (plaintext, armoredSignature) \<Rightarrow> verifyGPGSignature web sw pg plaintext armoredSignature wk)"

end
