(* ===== verification/Datatypes.thy ===== *)
theory Datatypes
  imports GoRegexp
begin

text \<open>
  \<^verbatim>\<open>pkg/objects/datatypes.go\<close>: the age specifications of the configuration (\<^verbatim>\<open>"4 days"\<close>) and
  the decompression of repository metadata. Compressed formats are code of libraries: a
  \<open>decompressor\<close> is their \<^verbatim>\<open>NewReader\<close> and what \<^verbatim>\<open>io.ReadAll\<close> then gives.
\<close>

section \<open>AgeSpec\<close>

definition ageSpecRx :: rx where
  "ageSpecRx =
     seqs [Bol, Many rx_space, Grp 1 (Some_of is_digit), Many rx_space, Grp 2 (Some_of is_word),
           Many rx_space, Eol]"

definition Second :: duration where "Second = 1000000000"
definition Minute :: duration where "Minute = 60 * Second"
definition Hour :: duration where "Hour = 60 * Minute"

definition ageSpecUnits :: "(string \<times> duration) list" where
  "ageSpecUnits =
     [(''seconds'', Second), (''second'', Second), (''s'', Second),
      (''minutes'', Minute), (''minute'', Minute), (''m'', Minute),
      (''hours'', Hour), (''hour'', Hour), (''h'', Hour),
      (''days'', 24 * Hour), (''day'', 24 * Hour), (''d'', 24 * Hour),
      (''weeks'', 24 * 7 * Hour), (''week'', 24 * 7 * Hour), (''w'', 24 * 7 * Hour)]"

text \<open>
  \<^verbatim>\<open>time.Duration\<close> is an \<^verbatim>\<open>int64\<close>, whose product wraps around. The string is what the YAML
  decoder gave.
\<close>

definition duration_mult :: "duration \<Rightarrow> nat \<Rightarrow> duration" where
  "duration_mult unit count = sint (word_of_int (unit * int count) :: 64 word)"

definition AgeSpec_UnmarshalYAML :: "string \<Rightarrow> goerror + duration" where
  "AgeSpec_UnmarshalYAML input =
     (case find_submatch ageSpecRx input of
        None \<Rightarrow> Inl (Err (''expected age specification in the format '' @
          ''<value> <unit>, e.g. 2h or 4 days, got '' @ quote input @ '' instead''))
      | Some match \<Rightarrow>
          (case parseUint 16 (group match 1) of
             Inl err \<Rightarrow> Inl err
           | Inr count \<Rightarrow>
               (case map_of ageSpecUnits (group match 2) of
                  None \<Rightarrow> Inl (Err (''unknown unit '' @ quote (group match 2)))
                | Some unit \<Rightarrow> Inr (duration_mult unit count))))"

section \<open>Magic numbers and decompression\<close>

definition gzipMagicNumber :: bytes where "gzipMagicNumber = [0x1f, 0x8b, 0x08]"
definition xzMagicNumber :: bytes where "xzMagicNumber = [0xfd, 0x37, 0x7a, 0x58, 0x5a, 0x00]"
definition zstdMagicNumber :: bytes where "zstdMagicNumber = [0x28, 0xb5, 0x2f, 0xfd]"

type_synonym decompressor = "bytes \<Rightarrow> goerror + (bytes \<times> goerror option)"

definition decompressWith :: "string \<Rightarrow> decompressor \<Rightarrow> bytes \<Rightarrow> goerror + bytes" where
  "decompressWith doing newReader buf =
     (case newReader buf of
        Inl err \<Rightarrow> Inl (Wrap doing err)
      | Inr (decompBuf, None) \<Rightarrow> Inr decompBuf
      | Inr (decompBuf, Some err) \<Rightarrow> Inl (Wrap doing err))"

definition decompressGZipArchive :: "decompressor \<Rightarrow> bytes \<Rightarrow> goerror + bytes" where
  "decompressGZipArchive = decompressWith ''while decompressing GZip archive: ''"

definition decompressXZArchive :: "decompressor \<Rightarrow> bytes \<Rightarrow> goerror + bytes" where
  "decompressXZArchive = decompressWith ''while decompressing XZ archive: ''"

definition decompressZSTDArchive :: "decompressor \<Rightarrow> bytes \<Rightarrow> goerror + bytes" where
  "decompressZSTDArchive = decompressWith ''while decompressing zstd archive: ''"

section \<open>Which age specifications are accepted\<close>

lemma digit_is_word: "is_digit c \<Longrightarrow> is_word c"
  by (simp add: is_word_def)

lemma digit_not_space: "is_digit c \<Longrightarrow> \<not> rx_space c"
  by (auto simp: is_digit_def rx_space_def)

lemma word_not_space: "is_word c \<Longrightarrow> \<not> rx_space c"
  by (auto simp: is_word_def is_digit_def rx_space_def)

text \<open>
  \<open>first_match r q m\<close>: \<open>m\<close> is the match of \<open>r\<close> at \<open>q\<close> that the search finds first. Greedy choices
  that lead to a match are the first ones.
\<close>

definition first_match :: "rx \<Rightarrow> pos \<Rightarrow> pos \<times> groups \<Rightarrow> bool" where
  "first_match r q m \<longleftrightarrow> (\<exists>ms. matches r q = m # ms)"

lemma first_match_Seq:
  "first_match a q (q', g) \<Longrightarrow> first_match b q' (q'', g') \<Longrightarrow> first_match (Seq a b) q (q'', g @ g')"
  by (auto simp: first_match_def)

lemma many_first: "\<exists>ms. many P p s = (advance p (takeWhile P s), dropWhile P s) # ms"
proof (induction s arbitrary: p)
  case Nil
  then show ?case by (simp add: advance_def)
next
  case (Cons c s)
  then obtain ms where "many P (Some c) s = (advance (Some c) (takeWhile P s), dropWhile P s) # ms" by blast
  then show ?case by (auto simp: advance_def)
qed

lemma first_match_Many:
  "list_all P a \<Longrightarrow> b = [] \<or> \<not> P (hd b) \<Longrightarrow> first_match (Many P) (p, a @ b) ((advance p a, b), [])"
  using many_first[of P p "a @ b"] takeWhile_split[of a P b]
  by (auto simp: first_match_def list_all_iff)

lemma first_match_Grp_Some_of:
  assumes "list_all P a" "a \<noteq> []" "b = [] \<or> \<not> P (hd b)"
  shows "first_match (Grp i (Some_of P)) (p, a @ b) ((advance p a, b), [(i, a)])"
proof -
  obtain c a' where a: "a = c # a'" using assms(2) by (cases a) auto
  have "first_match (Many P) (Some c, a' @ b) ((advance (Some c) a', b), [])"
    using assms(1,3) a by (intro first_match_Many) auto
  then obtain ms where "many P (Some c) (a' @ b) = (advance (Some c) a', b) # ms"
    by (auto simp: first_match_def)
  then show ?thesis using assms(1) by (auto simp: first_match_def Some_of_def a advance_def)
qed

lemma first_match_Eol: "first_match Eol (p, []) ((p, []), [])"
  by (simp add: first_match_def)

lemma find_ageSpec:
  assumes "list_all rx_space a" "list_all is_digit n" "n \<noteq> []" "list_all rx_space b"
    and "list_all is_word u" "u \<noteq> []" "\<not> is_digit (hd u)" "list_all rx_space c"
  shows "find_submatch ageSpecRx (a @ n @ b @ u @ c) = Some [(1, n), (2, u)]"
proof -
  have hds: "\<not> rx_space (hd (n @ b @ u @ c))" "\<not> rx_space (hd (u @ c))"
    using assms(2,3,5,6) by (cases n; cases u; auto dest: digit_not_space word_not_space)+
  have hb: "\<not> is_digit (hd (b @ u @ c))"
    using assms(4,6,7) by (cases b) (auto dest: digit_not_space)
  have hc: "c = [] \<or> \<not> is_word (hd c)" using assms(8) by (cases c) (auto dest: word_not_space)
  have sp: "first_match (Many rx_space) (p, c) ((advance p c, []), [])" for p
    using first_match_Many[OF assms(8), of "[]"] by simp
  note 6 = first_match_Seq[OF sp first_match_Eol]
  note 5 = first_match_Seq[OF first_match_Grp_Some_of[OF assms(5,6) hc, of 2] 6]
  note 4 = first_match_Seq[OF first_match_Many[OF assms(4) disjI2, OF hds(2)] 5]
  note 3 = first_match_Seq[OF first_match_Grp_Some_of[OF assms(2,3) disjI2, OF hb, of 1] 4]
  note 2 = first_match_Seq[OF first_match_Many[OF assms(1) disjI2, OF hds(1)] 3]
  have "\<exists>q. first_match (seqs [Many rx_space, Grp 1 (Some_of is_digit), Many rx_space, Grp 2 (Some_of is_word),
           Many rx_space, Eol]) (None, a @ n @ b @ u @ c) (q, [(1, n), (2, u)])"
    unfolding seqs.simps using 2 by (intro exI) simp
  then show ?thesis by (auto simp: ageSpecRx_def find_submatch_anchored first_match_def simp del: matches.simps)
qed

lemma ageSpecUnits_words:
  "map_of ageSpecUnits u = Some d \<Longrightarrow> list_all is_word u \<and> u \<noteq> [] \<and> \<not> is_digit (hd u)"
proof -
  assume "map_of ageSpecUnits u = Some d"
  then have "(u, d) \<in> set ageSpecUnits" by (rule map_of_SomeD)
  moreover have "\<forall>(u, d) \<in> set ageSpecUnits. list_all is_word u \<and> u \<noteq> [] \<and> \<not> is_digit (hd u)"
    by (simp add: ageSpecUnits_def is_word_def is_digit_def)
  ultimately show ?thesis by blast
qed

lemma ageSpecUnits_range:
  "map_of ageSpecUnits u = Some d \<Longrightarrow> 0 < d \<and> d \<le> 604800000000000"
proof -
  assume "map_of ageSpecUnits u = Some d"
  then have "(u, d) \<in> set ageSpecUnits" by (rule map_of_SomeD)
  moreover have "\<forall>(u, d) \<in> set ageSpecUnits. 0 < d \<and> d \<le> 604800000000000"
    by (simp add: ageSpecUnits_def Second_def Minute_def Hour_def)
  ultimately show ?thesis by blast
qed

lemma duration_mult_fits:
  assumes "0 < unit" "unit * int count < 2 ^ 63"
  shows "duration_mult unit count = unit * int count"
proof -
  have "0 \<le> unit * int count" using assms(1) by simp
  with assms(2) show ?thesis
    unfolding duration_mult_def sint_sbintrunc' by (intro signed_take_bit_int_eq_self) simp_all
qed

text \<open>Reading an age. A decimal number and a known unit, with any white space before, between and
  after them, are accepted when the number fits 16 bits, and give the number of units; up to 15250
  the duration is exact for every unit (above, weeks overflow an int64). Larger numbers are a range
  error.\<close>

theorem ageSpec_accepts:
  assumes "list_all rx_space a" "list_all rx_space b" "list_all rx_space c"
    and "map_of ageSpecUnits u = Some unit"
  shows "AgeSpec_UnmarshalYAML (a @ decimal n @ b @ u @ c) =
     (if n < 2 ^ 16 then Inr (duration_mult unit n)
      else Inl (Err (''strconv.ParseUint: parsing '' @ decimal n @ '': value out of range''))) \<and>
    (n \<le> 15250 \<longrightarrow> duration_mult unit n = unit * int n)"
proof -
  have "find_submatch ageSpecRx (a @ decimal n @ b @ u @ c) = Some [(1, decimal n), (2, u)]"
    using assms ageSpecUnits_words[OF assms(4)] by (intro find_ageSpec) auto
  then have 1: "AgeSpec_UnmarshalYAML (a @ decimal n @ b @ u @ c) =
     (if n < 2 ^ 16 then Inr (duration_mult unit n)
      else Inl (Err (''strconv.ParseUint: parsing '' @ decimal n @ '': value out of range'')))"
    using assms(4) by (simp add: AgeSpec_UnmarshalYAML_def parseUint_def del: One_nat_def)
  have "duration_mult unit n = unit * int n" if "n \<le> 15250"
  proof (rule duration_mult_fits)
    have "unit * int n \<le> 604800000000000 * 15250"
      using ageSpecUnits_range[OF assms(4)] that by (intro mult_mono) auto
    then show "unit * int n < 2 ^ 63" by simp
  qed (use ageSpecUnits_range[OF assms(4)] in simp)
  with 1 show ?thesis by blast
qed

theorem ageSpec_accepts_witness:
  "AgeSpec_UnmarshalYAML ('' '' @ decimal 4 @ '' '' @ ''days'' @ []) = Inr 345600000000000"
  using ageSpec_accepts[of "'' ''" "'' ''" "[]" "''days''" "24 * Hour" 4]
  by (simp add: rx_space_def ageSpecUnits_def Second_def Minute_def Hour_def)

text \<open>The largest accepted ages are not exact: 20000 weeks are a negative duration.\<close>

lemma ageSpec_overflow: "duration_mult (24 * 7 * Hour) 20000 < 0"
  by (simp add: duration_mult_def Hour_def Minute_def Second_def)

end
