(* ===== verification/Lister.thy ===== *)
theory Lister
  imports Gpg Datatypes
begin

text \<open>
  What the Yum and the Debian source share. Their \<^verbatim>\<open>ListAllFiles\<close> is a sequence of steps each of which
  can send files, fail or panic; a step is a function of the state \<open>lister\<close> (the outside world, the
  key ring of the program, the cache of downloaded files and the files sent so far), and \<open>and_then\<close>
  puts steps in sequence. The parsers of the metadata formats are code of libraries, in \<open>repoLib\<close>.
\<close>

section \<open>Steps\<close>

record ('w, 'e) lister =
  lsWorld :: 'w
  lsKeys :: "'e keyring"
  lsCache :: fileCache
  lsOut :: "FileSpec list"

type_synonym ('s, 'a) step = "'s \<Rightarrow> 's \<times> (ListEntriesError + 'a) outcome"

definition give :: "'a \<Rightarrow> ('s, 'a) step" where
  "give x s = (s, Ret (Inr x))"

definition fail_with :: "ListEntriesError \<Rightarrow> ('s, 'a) step" where
  "fail_with e s = (s, Ret (Inl e))"

definition and_then :: "('s, 'a) step \<Rightarrow> ('a \<Rightarrow> ('s, 'b) step) \<Rightarrow> ('s, 'b) step" where
  "and_then m f s =
     (case m s of
        (s', Panic p) \<Rightarrow> (s', Panic p)
      | (s', Ret (Inl e)) \<Rightarrow> (s', Ret (Inl e))
      | (s', Ret (Inr x)) \<Rightarrow> f x s')"

text \<open>\<open>or_else m h\<close> goes on with \<open>h\<close> after an error of \<open>m\<close>.\<close>

definition or_else :: "('s, 'a) step \<Rightarrow> (ListEntriesError \<Rightarrow> ('s, 'a) step) \<Rightarrow> ('s, 'a) step" where
  "or_else m h s =
     (case m s of
        (s', Panic p) \<Rightarrow> (s', Panic p)
      | (s', Ret (Inl e)) \<Rightarrow> h e s'
      | (s', Ret (Inr x)) \<Rightarrow> (s', Ret (Inr x)))"

fun for_each :: "('a \<Rightarrow> ('s, unit) step) \<Rightarrow> 'a list \<Rightarrow> ('s, unit) step" where
  "for_each f [] = give ()"
| "for_each f (x # xs) = and_then (f x) (\<lambda>u. for_each f xs)"

text \<open>All results of a loop, in order.\<close>

fun gather :: "('a \<Rightarrow> ('s, 'b list) step) \<Rightarrow> 'a list \<Rightarrow> ('s, 'b list) step" where
  "gather f [] = give []"
| "gather f (x # xs) = and_then (f x) (\<lambda>ys. and_then (gather f xs) (\<lambda>zs. give (ys @ zs)))"

text \<open>Successful runs of a sequence, step by step.\<close>

named_theorems returns \<open>when a step returns a value\<close>

lemma give_returns [returns]: "give x s = (s', Ret (Inr y)) \<longleftrightarrow> s' = s \<and> y = x"
  by (auto simp: give_def)

lemma fail_with_returns [returns]: "fail_with e s = (s', Ret (Inr y)) \<longleftrightarrow> False"
  by (simp add: fail_with_def)

lemma and_then_returns [returns]:
  "and_then m f s = (s', Ret (Inr y)) \<longleftrightarrow>
     (\<exists>s1 x. m s = (s1, Ret (Inr x)) \<and> f x s1 = (s', Ret (Inr y)))"
  by (auto simp: and_then_def split: prod.splits outcome.splits sum.splits)

lemma or_else_returns [returns]:
  "or_else m h s = (s', Ret (Inr y)) \<longleftrightarrow>
     m s = (s', Ret (Inr y)) \<or> (\<exists>s1 e. m s = (s1, Ret (Inl e)) \<and> h e s1 = (s', Ret (Inr y)))"
  by (auto simp: or_else_def split: prod.splits outcome.splits sum.splits)

text \<open>A property of states that every step keeps, however it ends.\<close>

definition step_keeps :: "('s \<Rightarrow> 's \<Rightarrow> bool) \<Rightarrow> ('s, 'a) step \<Rightarrow> bool" where
  "step_keeps R m \<longleftrightarrow> (\<forall>s. R s (fst (m s)))"

lemma step_keeps_ret: "step_keeps R m \<Longrightarrow> m s = (s', r) \<Longrightarrow> R s s'"
  unfolding step_keeps_def by (metis fst_conv)

text \<open>
  The interface between sequences of steps and what is proved of them: a relation that each step keeps
  is kept by the whole sequence if it is a preorder.
\<close>

locale kept_relation =
  fixes R :: "'s \<Rightarrow> 's \<Rightarrow> bool"
  assumes kept_refl: "R s s"
    and kept_trans: "R a b \<Longrightarrow> R b c \<Longrightarrow> R a c"
begin

lemma kept_give: "step_keeps R (give x)"
  by (simp add: step_keeps_def give_def kept_refl)

lemma kept_fail_with: "step_keeps R (fail_with e)"
  by (simp add: step_keeps_def fail_with_def kept_refl)

lemma kept_and_then:
  assumes "step_keeps R m" "\<And>x. step_keeps R (f x)"
  shows "step_keeps R (and_then m f)"
  unfolding step_keeps_def
proof
  fix s
  obtain s1 r where m: "m s = (s1, r)" by fastforce
  note 1 = step_keeps_ret[OF assms(1) m]
  show "R s (fst (and_then m f s))"
  proof (cases "\<exists>x. r = Ret (Inr x)")
    case True
    then obtain x where r: "r = Ret (Inr x)" by blast
    have "R s1 (fst (f x s1))" using assms(2) by (simp add: step_keeps_def)
    with 1 kept_trans m r show ?thesis by (auto simp: and_then_def)
  next
    case False
    with 1 m show ?thesis by (auto simp: and_then_def split: outcome.splits sum.splits)
  qed
qed

lemma kept_or_else:
  assumes "step_keeps R m" "\<And>e. step_keeps R (h e)"
  shows "step_keeps R (or_else m h)"
  unfolding step_keeps_def
proof
  fix s
  obtain s1 r where m: "m s = (s1, r)" by fastforce
  note 1 = step_keeps_ret[OF assms(1) m]
  show "R s (fst (or_else m h s))"
  proof (cases "\<exists>e. r = Ret (Inl e)")
    case True
    then obtain e where r: "r = Ret (Inl e)" by blast
    have "R s1 (fst (h e s1))" using assms(2) by (simp add: step_keeps_def)
    with 1 kept_trans m r show ?thesis by (auto simp: or_else_def)
  next
    case False
    with 1 m show ?thesis by (auto simp: or_else_def split: outcome.splits sum.splits)
  qed
qed

lemma kept_gather: "(\<And>x. step_keeps R (f x)) \<Longrightarrow> step_keeps R (gather f xs)"
  by (induction xs) (auto intro!: kept_give kept_and_then)

lemma kept_for_each: "(\<And>x. step_keeps R (f x)) \<Longrightarrow> step_keeps R (for_each f xs)"
  by (induction xs) (auto intro!: kept_give kept_and_then)

end

section \<open>Steps of the sources\<close>

definition getFileSpec_cached :: "string \<Rightarrow> fileCache \<Rightarrow> FileSpec" where
  "getFileSpec_cached path cache = (case cache path of None \<Rightarrow> fileSpec path | Some f \<Rightarrow> f)"

definition send :: "string \<Rightarrow> (('w, 'e) lister, unit) step" where
  "send path s = (s\<lparr>lsOut := lsOut s @ [getFileSpec_cached path (lsCache s)]\<rparr>, Ret (Inr ()))"

definition fetch :: "('w, 'b) web \<Rightarrow> URLSource \<Rightarrow> string \<Rightarrow> (('w, 'e) lister, bytes) step" where
  "fetch web u path s =
     (case getFileContents web u path (lsCache s) (lsWorld s) of
        (w', cache', uri, result) \<Rightarrow> (s\<lparr>lsWorld := w', lsCache := cache'\<rparr>, Ret result))"

text \<open>A listing starts with the world and the key ring of the program, and with nothing else.\<close>

definition lister_start :: "'w \<times> 'e keyring \<Rightarrow> ('w, 'e) lister" where
  "lister_start wk = \<lparr>lsWorld = fst wk, lsKeys = snd wk, lsCache = Map.empty, lsOut = []\<rparr>"

lemma lister_start_sel [simp]:
  "lsWorld (lister_start wk) = fst wk" "lsKeys (lister_start wk) = snd wk" "lsCache (lister_start wk) = Map.empty"
  "lsOut (lister_start wk) = []"
  by (simp_all add: lister_start_def)

text \<open>A verification of a signature, with its error as a listing error.\<close>

definition signature_error :: "('w, 'b) web \<Rightarrow> URLSource \<Rightarrow> goerror \<Rightarrow> ListEntriesError" where
  "signature_error web u err =
     \<lparr>leLocation = fileURI web u ''/'', leMessage = ErrMessageGPGVerificationFailed, leInner = Some err\<rparr>"

definition verified ::
  "('w, 'b) web \<Rightarrow> URLSource \<Rightarrow> ('w \<times> 'e keyring \<Rightarrow> ('w \<times> 'e keyring) \<times> goerror option outcome) \<Rightarrow>
    (('w, 'e) lister, unit) step" where
  "verified web u verify s =
     (case verify (lsWorld s, lsKeys s) of
        ((w', k'), r) \<Rightarrow>
          (s\<lparr>lsWorld := w', lsKeys := k'\<rparr>,
           (case r of
              Panic m \<Rightarrow> Panic m
            | Ret None \<Rightarrow> Ret (Inr ())
            | Ret (Some err) \<Rightarrow> Ret (Inl (signature_error web u err)))))"

section \<open>Metadata\<close>

record releaseFile =
  rlArchitectures :: "string list"
  rlEntries :: "string list"

text \<open>
  The XML documents give (type, href), (architecture, href) and (architecture, file names); the control
  files are decoded into a variable that may hold values already.
\<close>

record repoLib =
  rpGzip :: decompressor
  rpXz :: decompressor
  rpZstd :: decompressor
  rpRepomd :: "bytes \<Rightarrow> goerror + (string \<times> string) list"
  rpPrimary :: "bytes \<Rightarrow> goerror + (string \<times> string) list"
  rpPrestodelta :: "bytes \<Rightarrow> goerror + (string \<times> string list) list"
  rpRelease :: "releaseFile \<Rightarrow> bytes \<Rightarrow> releaseFile \<times> goerror option"
  rpPackages :: "string list \<Rightarrow> bytes \<Rightarrow> string list \<times> goerror option"
  rpSources :: "(string \<times> string list) list \<Rightarrow> bytes \<Rightarrow> (string \<times> string list) list \<times> goerror option"

text \<open>Decompression by the magic number of a format.\<close>

definition unpack ::
  "bytes \<Rightarrow> (bytes \<Rightarrow> goerror + bytes) \<Rightarrow> string \<Rightarrow> string \<Rightarrow> bytes \<Rightarrow> ('s, bytes) step" where
  "unpack magic decompress failure uri buf =
     (if hasPrefix buf magic then
        (case decompress buf of
           Inl err \<Rightarrow> fail_with \<lparr>leLocation = uri, leMessage = failure, leInner = Some err\<rparr>
         | Inr buf' \<Rightarrow> give buf')
      else give buf)"

definition unpackGzip :: "repoLib \<Rightarrow> string \<Rightarrow> bytes \<Rightarrow> ('s, bytes) step" where
  "unpackGzip lib = unpack gzipMagicNumber (decompressGZipArchive (rpGzip lib)) ''cannot decompress gzip stream''"

definition unpackXz :: "repoLib \<Rightarrow> string \<Rightarrow> bytes \<Rightarrow> ('s, bytes) step" where
  "unpackXz lib = unpack xzMagicNumber (decompressXZArchive (rpXz lib)) ''cannot decompress xz stream''"

definition unpackZstd :: "repoLib \<Rightarrow> string \<Rightarrow> bytes \<Rightarrow> ('s, bytes) step" where
  "unpackZstd lib = unpack zstdMagicNumber (decompressZSTDArchive (rpZstd lib)) ''cannot decompress zstd stream''"

definition parseWith ::
  "string \<Rightarrow> string \<Rightarrow> (bytes \<Rightarrow> goerror + 'a) \<Rightarrow> bytes \<Rightarrow> ('s, bytes \<times> 'a) step" where
  "parseWith failure uri unmarshal buf =
     (case unmarshal buf of
        Inl err \<Rightarrow> fail_with \<lparr>leLocation = uri, leMessage = failure, leInner = Some err\<rparr>
      | Inr data \<Rightarrow> give (buf, data))"

lemma parseWith_returns [returns]:
  "parseWith failure uri unmarshal buf s = (s', Ret (Inr y)) \<longleftrightarrow>
     s' = s \<and> fst y = buf \<and> unmarshal buf = Inr (snd y)"
  by (cases y) (auto simp: parseWith_def give_def fail_with_def split: sum.splits)

section \<open>What the steps do to the state\<close>

text \<open>
  \<open>stage P paths s s'\<close>: from \<open>s\<close> to \<open>s'\<close> the files with these paths were sent, in this order, and the
  cache changed only at \<open>P\<close>. Cached files have the path they are cached under.
\<close>

definition cache_ok :: "fileCache \<Rightarrow> bool" where
  "cache_ok c \<longleftrightarrow> (\<forall>p f. c p = Some f \<longrightarrow> Path f = p)"

definition stage :: "string set \<Rightarrow> string list \<Rightarrow> ('w, 'e) lister \<Rightarrow> ('w, 'e) lister \<Rightarrow> bool" where
  "stage P paths s s' \<longleftrightarrow>
     (cache_ok (lsCache s) \<longrightarrow>
        cache_ok (lsCache s') \<and> (\<exists>fs. lsOut s' = lsOut s @ fs \<and> map Path fs = paths) \<and>
        (\<forall>p. p \<notin> P \<longrightarrow> lsCache s' p = lsCache s p))"

lemma stage_refl [simp]: "stage P [] s s"
  by (simp add: stage_def)

lemma stage_trans [trans]:
  assumes "stage P a s s1" "stage Q b s1 s2"
  shows "stage (P \<union> Q) (a @ b) s s2"
  unfolding stage_def
proof
  assume c: "cache_ok (lsCache s)"
  from assms(1) c obtain fs where 1: "cache_ok (lsCache s1)" "lsOut s1 = lsOut s @ fs" "map Path fs = a"
    "\<forall>p. p \<notin> P \<longrightarrow> lsCache s1 p = lsCache s p" by (auto simp: stage_def)
  from assms(2) 1(1) obtain gs where 2: "cache_ok (lsCache s2)" "lsOut s2 = lsOut s1 @ gs" "map Path gs = b"
    "\<forall>p. p \<notin> Q \<longrightarrow> lsCache s2 p = lsCache s1 p" by (auto simp: stage_def)
  from 1 2 show "cache_ok (lsCache s2) \<and> (\<exists>fs. lsOut s2 = lsOut s @ fs \<and> map Path fs = a @ b) \<and>
      (\<forall>p. p \<notin> P \<union> Q \<longrightarrow> lsCache s2 p = lsCache s p)" by auto
qed

interpretation quiet: kept_relation "stage UNIV []"
proof unfold_locales
  fix a b c :: "('w, 'e) lister"
  show "stage UNIV [] a b \<Longrightarrow> stage UNIV [] b c \<Longrightarrow> stage UNIV [] a c"
    using stage_trans[of UNIV "[]" a b UNIV "[]" c] by simp
qed simp

text \<open>Only verifications touch the key ring.\<close>

interpretation same_keys: kept_relation "\<lambda>s s'. lsKeys s' = lsKeys s"
  by unfold_locales auto

lemma send_same_keys: "step_keeps (\<lambda>s s'. lsKeys s' = lsKeys s) (send p)"
  by (simp add: step_keeps_def send_def)

lemma fetch_same_keys: "step_keeps (\<lambda>s s'. lsKeys s' = lsKeys s) (fetch web u p)"
  by (simp add: step_keeps_def fetch_def split: prod.split)

lemma parseWith_same_keys: "step_keeps (\<lambda>s s'. lsKeys s' = lsKeys s) (parseWith failure uri unmarshal buf)"
  by (simp add: parseWith_def same_keys.kept_fail_with same_keys.kept_give split: sum.split)

lemma unpack_same_keys: "step_keeps (\<lambda>s s'. lsKeys s' = lsKeys s) (unpack magic dec failure uri buf)"
  by (simp add: unpack_def same_keys.kept_fail_with same_keys.kept_give split: sum.split)

lemmas same_keys_intros = same_keys.kept_give same_keys.kept_fail_with same_keys.kept_and_then same_keys.kept_or_else
  same_keys.kept_gather same_keys.kept_for_each send_same_keys fetch_same_keys parseWith_same_keys unpack_same_keys

lemma Path_cached: "cache_ok c \<Longrightarrow> Path (getFileSpec_cached p c) = p"
  by (auto simp: getFileSpec_cached_def cache_ok_def split: option.splits)

lemma send_returns [returns]:
  "send p s = (s', Ret (Inr u)) \<longleftrightarrow> s' = s\<lparr>lsOut := lsOut s @ [getFileSpec_cached p (lsCache s)]\<rparr>"
  by (auto simp: send_def)

lemma send_stage: "send p s = (s', r) \<Longrightarrow> stage {} [p] s s'"
  by (auto simp: send_def stage_def Path_cached)

lemma fetch_stage:
  assumes "fetch web u p s = (s', Ret (Inr b))"
  shows "stage {p} [] s s'" "\<exists>hdr. lsCache s' p = Some (cacheEntry p b hdr)" "lsOut s' = lsOut s"
    "lsKeys s' = lsKeys s"
proof -
  from assms obtain hdr where "lsCache s' = (lsCache s)(p \<mapsto> cacheEntry p b hdr)" "lsOut s' = lsOut s"
    "lsKeys s' = lsKeys s"
    by (auto simp: fetch_def getFileContents_def Let_def split: option.splits prod.splits sum.splits if_splits)
  then show "stage {p} [] s s'" "\<exists>hdr. lsCache s' p = Some (cacheEntry p b hdr)" "lsOut s' = lsOut s"
    "lsKeys s' = lsKeys s"
    by (auto simp: stage_def cache_ok_def cacheEntry_def)
qed

lemma fetch_failed:
  assumes "fetch web u p s = (s', Ret (Inl e))"
  shows "lsCache s' = lsCache s" "lsOut s' = lsOut s" "lsKeys s' = lsKeys s"
  using assms
  by (auto simp: fetch_def getFileContents_def Let_def split: option.splits prod.splits sum.splits if_splits)

lemma fetch_no_panic: "fetch web u p s \<noteq> (s', Panic m)"
  by (auto simp: fetch_def split: prod.splits)

lemma verified_returns:
  "verified web u v s = (s', Ret (Inr x)) \<longleftrightarrow>
     (\<exists>w k. v (lsWorld s, lsKeys s) = ((w, k), Ret None) \<and> s' = s\<lparr>lsWorld := w, lsKeys := k\<rparr>)"
  by (auto simp: verified_def split: prod.splits outcome.splits option.splits)

lemma verified_stage: "verified web u v s = (s', r) \<Longrightarrow> stage {} [] s s'"
  by (auto simp: verified_def stage_def split: prod.splits)

lemma unpack_returns:
  "unpack magic dec msg uri buf s = (s', Ret (Inr b)) \<longleftrightarrow>
     s' = s \<and> (if hasPrefix buf magic then dec buf = Inr b else b = buf)"
  by (auto simp: unpack_def give_def fail_with_def split: sum.splits)

lemma for_each_stage:
  assumes "for_each f xs s = (s', Ret (Inr u))"
    and "\<And>x s s' u. f x s = (s', Ret (Inr u)) \<Longrightarrow> stage P (g x) s s'"
  shows "stage P (concat (map g xs)) s s'"
  using assms(1)
proof (induction xs arbitrary: s)
  case (Cons x xs)
  then obtain s1 v where "f x s = (s1, Ret (Inr v))" "for_each f xs s1 = (s', Ret (Inr u))"
    by (auto simp: returns)
  with stage_trans[OF assms(2)[of x s s1 v] Cons.IH] show ?case by simp
qed (simp add: returns)

section \<open>Which steps can fail with a bad signature\<close>

text \<open>The scraper treats the error of a bad signature in a special way; most steps never fail with it.\<close>

definition never_gpg :: "('s, 'a) step \<Rightarrow> bool" where
  "never_gpg m \<longleftrightarrow> (\<forall>s s' e. m s = (s', Ret (Inl e)) \<longrightarrow> leMessage e \<noteq> ErrMessageGPGVerificationFailed)"

lemma give_never_gpg [simp]: "never_gpg (give x)"
  by (simp add: never_gpg_def give_def)

lemma fail_with_never_gpg [simp]:
  "never_gpg (fail_with e) \<longleftrightarrow> leMessage e \<noteq> ErrMessageGPGVerificationFailed"
  by (simp add: never_gpg_def fail_with_def)

lemma and_then_fails:
  "and_then m f s = (s', Ret (Inl e)) \<longleftrightarrow>
     m s = (s', Ret (Inl e)) \<or> (\<exists>s1 x. m s = (s1, Ret (Inr x)) \<and> f x s1 = (s', Ret (Inl e)))"
  by (auto simp: and_then_def split: prod.splits outcome.splits sum.splits)

lemma and_then_never_gpg: "never_gpg m \<Longrightarrow> (\<And>x. never_gpg (f x)) \<Longrightarrow> never_gpg (and_then m f)"
  by (fastforce simp: never_gpg_def and_then_fails)

lemma for_each_never_gpg: "(\<And>x. never_gpg (f x)) \<Longrightarrow> never_gpg (for_each f xs)"
  by (induction xs) (auto intro: and_then_never_gpg)

lemma send_never_gpg [simp]: "never_gpg (send p)"
  by (simp add: never_gpg_def send_def)

lemma fetch_never_gpg [simp]: "never_gpg (fetch web u p)"
  by (auto simp: never_gpg_def fetch_def getFileContents_def Let_def leGetFailed_def
      ErrMessageGPGVerificationFailed_def split: option.splits prod.splits sum.splits if_splits)

lemma unpack_never_gpg [simp]:
  "never_gpg (unpackGzip lib uri buf)" "never_gpg (unpackXz lib uri buf)" "never_gpg (unpackZstd lib uri buf)"
  by (auto simp: unpackGzip_def unpackXz_def unpackZstd_def unpack_def ErrMessageGPGVerificationFailed_def
      split: sum.splits)

lemma parseWith_never_gpg:
  "failure \<noteq> ErrMessageGPGVerificationFailed \<Longrightarrow> never_gpg (parseWith failure uri unmarshal buf)"
  by (auto simp: parseWith_def split: sum.splits)

end
