(* ===== verification/Yum.thy ===== *)
theory Yum
  imports Lister
begin

text \<open>
  \<^verbatim>\<open>pkg/objects/yum.go\<close>: a Yum repository, whose files are found through its metadata
  instead of directory listings.
\<close>

section \<open>The source\<close>

text \<open>\<open>urlSource\<close> is nil until \<^verbatim>\<open>Validate\<close>.\<close>

record YumSource =
  ysURLString :: string
  ysClientCertificatePath :: string
  ysClientCertificateKeyPath :: string
  ysServerCAPath :: string
  ysArchitectures :: "string list"
  ysVerifySignature :: "bool option"
  ysUrlSource :: "URLSource option"
  ysGpgVerification :: bool

text \<open>The URL source that Yum and Debian sources make: segmenting options cannot be given.\<close>

definition repoURLSource :: "string \<Rightarrow> string \<Rightarrow> string \<Rightarrow> string \<Rightarrow> URLSource" where
  "repoURLSource urlString cert key ca =
     \<lparr>usURLString = urlString, usURL = None, usClientCertificatePath = cert, usClientCertificateKeyPath = key,
      usServerCAPath = ca, usHTTPClient = None, usSegmentingIn = None, usSegmenting = False, usSegmentSize = 0\<rparr>"

definition YumSource_Validate ::
  "('w, 'b) web \<Rightarrow> YumSource \<Rightarrow> string \<Rightarrow> (YumSource \<times> goerror list) outcome" where
  "YumSource_Validate web s name =
     (case URLSource_Validate web
        (repoURLSource (ysURLString s) (ysClientCertificatePath s) (ysClientCertificateKeyPath s) (ysServerCAPath s)) name of
        Panic m \<Rightarrow> Panic m
      | Ret (u, errs) \<Rightarrow>
          Ret (s\<lparr>ysUrlSource := Some u,
                 ysGpgVerification := (case ysVerifySignature s of None \<Rightarrow> True | Some b \<Rightarrow> b)\<rparr>, errs))"

definition YumSource_Connect ::
  "(string \<Rightarrow> string \<Rightarrow> goerror option) \<Rightarrow> (string \<Rightarrow> goerror + bytes) \<Rightarrow> YumSource \<Rightarrow> YumSource \<times> goerror option" where
  "YumSource_Connect loadKeyPair readFile s =
     (case URLSource_Connect loadKeyPair readFile (the (ysUrlSource s)) of
        (u, err) \<Rightarrow> (s\<lparr>ysUrlSource := Some u\<rparr>, err))"

definition YumSource_ListEntries :: "YumSource \<Rightarrow> string \<Rightarrow> ListEntriesError + FileSpec list" where
  "YumSource_ListEntries s directoryPath = Inl ErrListEntriesNotSupported"

definition YumSource_GetFile ::
  "('w, 'b) web \<Rightarrow> YumSource \<Rightarrow> string \<Rightarrow> headers \<Rightarrow> 'w \<Rightarrow>
    'w \<times> (goerror + 'b getBody \<times> FileState) outcome" where
  "YumSource_GetFile web s = URLSource_GetFile web (the (ysUrlSource s))"

section \<open>Listing\<close>

definition handlesArchitecture :: "YumSource \<Rightarrow> string \<Rightarrow> bool" where
  "handlesArchitecture s arch \<longleftrightarrow> ysArchitectures s = [] \<or> arch = [] \<or> arch \<in> set (ysArchitectures s)"

definition decompressXML :: "repoLib \<Rightarrow> string \<Rightarrow> bytes \<Rightarrow> ('s, bytes) step" where
  "decompressXML lib uri buf =
     and_then (unpackGzip lib uri buf) (\<lambda>buf.
     and_then (unpackXz lib uri buf) (unpackZstd lib uri))"

definition downloadAndParseXML ::
  "('w, 'b) web \<Rightarrow> repoLib \<Rightarrow> URLSource \<Rightarrow> string \<Rightarrow> (bytes \<Rightarrow> goerror + 'a) \<Rightarrow>
    (('w, 'e) lister, bytes \<times> 'a) step" where
  "downloadAndParseXML web lib u path unmarshal =
     (let uri = fileURI web u path in
      and_then (fetch web u path) (\<lambda>buf.
      and_then (decompressXML lib uri buf)
        (parseWith ''error while parsing XML'' uri unmarshal)))"

definition repomdPath :: string where "repomdPath = ''repodata/repomd.xml''"
definition signaturePath :: string where "signaturePath = repomdPath @ ''.asc''"
definition repomdKeyPath :: string where "repomdKeyPath = repomdPath @ ''.key''"

definition is_404 :: "ListEntriesError \<Rightarrow> bool" where
  "is_404 e = contains (leMessage e) ''GET returned status 404''"

text \<open>Repositories without a signature are accepted, even when signatures shall be verified.\<close>

definition unless_404 :: "ListEntriesError \<Rightarrow> ('s, unit) step" where
  "unless_404 e = (if is_404 e then give () else fail_with e)"

definition handleSignature ::
  "('w, 'b) web \<Rightarrow> ('w, 'r, 'lo) swift \<Rightarrow> ('w, 'r, 'e) pgp \<Rightarrow> YumSource \<Rightarrow> bytes \<Rightarrow> (('w, 'e) lister, unit) step" where
  "handleSignature web sw pg s repomdBytes state =
     (case fetch web (the (ysUrlSource s)) signaturePath state of
        (s1, Panic m) \<Rightarrow> (s1, Panic m)
      | (s1, Ret (Inl lerr)) \<Rightarrow> unless_404 lerr s1
      | (s1, Ret (Inr signatureBytes)) \<Rightarrow>
          and_then (send signaturePath) (\<lambda>u.
            if ysGpgVerification s
            then verified web (the (ysUrlSource s)) (VerifyDetachedGPGSignature web sw pg repomdBytes signatureBytes)
            else give ()) s1)"

text \<open>The last entry of a type wins.\<close>

definition hrefsByType :: "(string \<times> string) list \<Rightarrow> string \<rightharpoonup> string" where
  "hrefsByType entries = foldl (\<lambda>m e. m(fst e \<mapsto> snd e)) Map.empty entries"

definition listPackages :: "('w, 'b) web \<Rightarrow> repoLib \<Rightarrow> YumSource \<Rightarrow> string \<Rightarrow> (('w, 'e) lister, unit) step" where
  "listPackages web lib s href =
     and_then (downloadAndParseXML web lib (the (ysUrlSource s)) href (rpPrimary lib)) (\<lambda>p.
       for_each (\<lambda>pkg. if handlesArchitecture s (fst pkg) then send (snd pkg) else give ()) (snd p))"

definition listDeltas :: "('w, 'b) web \<Rightarrow> repoLib \<Rightarrow> YumSource \<Rightarrow> string option \<Rightarrow> (('w, 'e) lister, unit) step" where
  "listDeltas web lib s href =
     (case href of
        None \<Rightarrow> give ()
      | Some href \<Rightarrow>
          and_then (downloadAndParseXML web lib (the (ysUrlSource s)) href (rpPrestodelta lib)) (\<lambda>p.
            for_each (\<lambda>pkg. if handlesArchitecture s (fst pkg) then for_each send (snd pkg) else give ()) (snd p)))"

definition handleKey :: "('w, 'b) web \<Rightarrow> YumSource \<Rightarrow> (('w, 'e) lister, unit) step" where
  "handleKey web s state =
     (case fetch web (the (ysUrlSource s)) repomdKeyPath state of
        (s1, Panic m) \<Rightarrow> (s1, Panic m)
      | (s1, Ret (Inl lerr)) \<Rightarrow> unless_404 lerr s1
      | (s1, Ret (Inr key)) \<Rightarrow> send repomdKeyPath s1)"

definition primaryHref ::
  "('w, 'b) web \<Rightarrow> URLSource \<Rightarrow> (string \<rightharpoonup> string) \<Rightarrow> (('w, 'e) lister, string) step" where
  "primaryHref web u hrefs =
     (case hrefs ''primary'' of
        None \<Rightarrow>
          fail_with \<lparr>leLocation = fileURI web u repomdPath,
                     leMessage = ''cannot find link to primary.xml.gz in repomd.xml'', leInner = None\<rparr>
      | Some href \<Rightarrow> give href)"

definition deltaHref :: "(string \<rightharpoonup> string) \<Rightarrow> string option" where
  "deltaHref hrefs = (case hrefs ''prestodelta'' of None \<Rightarrow> hrefs ''deltainfo'' | Some h \<Rightarrow> Some h)"

definition YumSource_listing ::
  "('w, 'b) web \<Rightarrow> ('w, 'r, 'lo) swift \<Rightarrow> ('w, 'r, 'e) pgp \<Rightarrow> repoLib \<Rightarrow> YumSource \<Rightarrow> (('w, 'e) lister, unit) step" where
  "YumSource_listing web sw pg lib s =
     and_then (downloadAndParseXML web lib (the (ysUrlSource s)) repomdPath (rpRepomd lib)) (\<lambda>repomd.
     and_then (handleSignature web sw pg s (fst repomd)) (\<lambda>u.
     and_then (for_each (\<lambda>entry. send (snd entry)) (snd repomd)) (\<lambda>u.
     and_then (primaryHref web (the (ysUrlSource s)) (hrefsByType (snd repomd))) (\<lambda>href.
     and_then (listPackages web lib s href) (\<lambda>u.
     and_then (listDeltas web lib s (deltaHref (hrefsByType (snd repomd)))) (\<lambda>u.
     and_then (handleKey web s) (\<lambda>u.
       send repomdPath)))))))"

text \<open>The outcome has the files that were sent, whether or not there is an error.\<close>

definition YumSource_ListAllFiles ::
  "('w, 'b) web \<Rightarrow> ('w, 'r, 'lo) swift \<Rightarrow> ('w, 'r, 'e) pgp \<Rightarrow> repoLib \<Rightarrow> YumSource \<Rightarrow> 'w \<times> 'e keyring \<Rightarrow>
    ('w \<times> 'e keyring) \<times> (FileSpec list \<times> ListEntriesError option) outcome" where
  "YumSource_ListAllFiles web sw pg lib s wk =
     (case YumSource_listing web sw pg lib s
         (lister_start wk) of
        (st, r) \<Rightarrow>
          ((lsWorld st, lsKeys st),
           (case r of
              Panic m \<Rightarrow> Panic m
            | Ret (Inl e) \<Rightarrow> Ret (lsOut st, Some e)
            | Ret (Inr u) \<Rightarrow> Ret (lsOut st, None))))"

end
