(* ===== verification/Debian.thy ===== *)
theory Debian
  imports Yum
begin

text \<open>
  \<^verbatim>\<open>pkg/objects/debian.go\<close>: a Debian repository, whose files are found through its metadata. Go
  iterates over a map in any order: \<open>pkgOrder\<close> and \<open>srcOrder\<close> give the order in which the indices of a
  distribution are visited. The recursion over directory listings need not end, so that listing is an
  option, where \<open>None\<close> is a listing that never ends.
\<close>

section \<open>The source\<close>

record DebianSource =
  dsURLString :: string
  dsClientCertificatePath :: string
  dsClientCertificateKeyPath :: string
  dsServerCAPath :: string
  dsDistributions :: "string list"
  dsArchitectures :: "string list"
  dsVerifySignature :: "bool option"
  dsUrlSource :: "URLSource option"
  dsGpgVerification :: bool

definition DebianSource_Validate ::
  "('w, 'b) web \<Rightarrow> DebianSource \<Rightarrow> string \<Rightarrow> (DebianSource \<times> goerror list) outcome" where
  "DebianSource_Validate web s name =
     (case URLSource_Validate web
        (repoURLSource (dsURLString s) (dsClientCertificatePath s) (dsClientCertificateKeyPath s) (dsServerCAPath s)) name of
        Panic m \<Rightarrow> Panic m
      | Ret (u, errs) \<Rightarrow>
          Ret (s\<lparr>dsUrlSource := Some u,
                 dsGpgVerification := (case dsVerifySignature s of None \<Rightarrow> True | Some b \<Rightarrow> b)\<rparr>, errs))"

definition DebianSource_Connect ::
  "(string \<Rightarrow> string \<Rightarrow> goerror option) \<Rightarrow> (string \<Rightarrow> goerror + bytes) \<Rightarrow> DebianSource \<Rightarrow>
    DebianSource \<times> goerror option" where
  "DebianSource_Connect loadKeyPair readFile s =
     (case URLSource_Connect loadKeyPair readFile (the (dsUrlSource s)) of
        (u, err) \<Rightarrow> (s\<lparr>dsUrlSource := Some u\<rparr>, err))"

definition DebianSource_ListEntries :: "DebianSource \<Rightarrow> string \<Rightarrow> ListEntriesError + FileSpec list" where
  "DebianSource_ListEntries s directoryPath = Inl ErrListEntriesNotSupported"

definition DebianSource_GetFile ::
  "('w, 'b) web \<Rightarrow> DebianSource \<Rightarrow> string \<Rightarrow> headers \<Rightarrow> 'w \<Rightarrow>
    'w \<times> (goerror + 'b getBody \<times> FileState) outcome" where
  "DebianSource_GetFile web s = URLSource_GetFile web (the (dsUrlSource s))"

section \<open>Control files\<close>

text \<open>
  The variable that a control file is decoded into keeps what a failed decoding has left in it, so the
  result is its new value with the error or the decompressed bytes.
\<close>

definition parseDCF ::
  "string \<Rightarrow> ('a \<Rightarrow> bytes \<Rightarrow> 'a \<times> goerror option) \<Rightarrow> 'a \<Rightarrow> bytes \<Rightarrow> ('s, 'a \<times> (ListEntriesError + bytes)) step" where
  "parseDCF uri unmarshal data buf =
     (case unmarshal data buf of
        (data', None) \<Rightarrow> give (data', Inr buf)
      | (data', Some err) \<Rightarrow>
          give (data', Inl \<lparr>leLocation = uri, leMessage = ''error while parsing Debian Control File'', leInner = Some err\<rparr>))"

definition downloadAndParseDCF ::
  "('w, 'b) web \<Rightarrow> repoLib \<Rightarrow> URLSource \<Rightarrow> string \<Rightarrow> ('a \<Rightarrow> bytes \<Rightarrow> 'a \<times> goerror option) \<Rightarrow> 'a \<Rightarrow>
    (('w, 'e) lister, 'a \<times> (ListEntriesError + bytes)) step" where
  "downloadAndParseDCF web lib u path unmarshal data =
     (let uri = fileURI web u path in
      or_else
        (and_then (fetch web u path) (\<lambda>buf.
         and_then (unpackXz lib uri buf) (\<lambda>buf.
         and_then (unpackGzip lib uri buf) (\<lambda>buf.
           parseDCF uri unmarshal data buf))))
        (\<lambda>lerr. give (data, Inl lerr)))"

text \<open>A control file, or another one if that fails; the result has the path that was read.\<close>

definition withFallback ::
  "('w, 'b) web \<Rightarrow> repoLib \<Rightarrow> URLSource \<Rightarrow> string \<Rightarrow> string \<Rightarrow> ('a \<Rightarrow> bytes \<Rightarrow> 'a \<times> goerror option) \<Rightarrow> 'a \<Rightarrow>
    (('w, 'e) lister, string \<times> 'a \<times> bytes) step" where
  "withFallback web lib u path path2 unmarshal data =
     and_then (downloadAndParseDCF web lib u path unmarshal data) (\<lambda>r.
       (case snd r of
          Inr buf \<Rightarrow> give (path, fst r, buf)
        | Inl lerr \<Rightarrow>
            and_then (downloadAndParseDCF web lib u path2 unmarshal (fst r)) (\<lambda>r2.
              (case snd r2 of
                 Inr buf \<Rightarrow> give (path2, fst r2, buf)
               | Inl lerr2 \<Rightarrow> fail_with lerr2))))"

section \<open>Indices\<close>

definition is_letter :: "char \<Rightarrow> bool" where
  "is_letter c \<longleftrightarrow>
     (65 \<le> (of_char c :: nat) \<and> (of_char c :: nat) \<le> 90) \<or> (97 \<le> (of_char c :: nat) \<and> (of_char c :: nat) \<le> 122)"

text \<open>\<^verbatim>\<open>^([a-zA-Z]+)/(debian-installer/)?binary-(\w+)/Packages(\.gz|\.xz)$\<close>\<close>

definition debReleasePackagesEntryRx :: rx where
  "debReleasePackagesEntryRx =
     seqs [Bol, Grp 1 (Some_of is_letter), Lit ''/'', Optional (Grp 2 (Lit ''debian-installer/'')), Lit ''binary-'',
           Grp 3 (Some_of is_word), Lit ''/Packages'', Grp 4 (Alt (Lit ''.gz'') (Lit ''.xz'')), Eol]"

definition stripFileExtension :: "string \<Rightarrow> string" where
  "stripFileExtension fileName =
     (let ext = path_ext fileName in if ext = [] then fileName else trimSuffix fileName ext)"

definition is_source_index :: "string \<Rightarrow> bool" where
  "is_source_index filename \<longleftrightarrow> hasSuffix filename ''Sources.gz'' \<or> hasSuffix filename ''Sources.xz''"

text \<open>The architecture of a \<^verbatim>\<open>Packages\<close> index.\<close>

definition packageIndexArch :: "string \<Rightarrow> string option" where
  "packageIndexArch filename =
     map_option (\<lambda>matchList. group matchList 3) (find_submatch debReleasePackagesEntryRx filename)"

definition insertNew :: "'a \<Rightarrow> 'a list \<Rightarrow> 'a list" where
  "insertNew x xs = (if x \<in> set xs then xs else xs @ [x])"

definition noteEntry ::
  "string list \<Rightarrow> string \<Rightarrow> string \<Rightarrow> string list \<times> string list \<Rightarrow> string list \<times> string list" where
  "noteEntry architectures distRootPath filename idx =
     (let fileName = stripFileExtension (path_join [distRootPath, filename])
      in if is_source_index filename then (fst idx, insertNew fileName (snd idx))
         else
           (case packageIndexArch filename of
              None \<Rightarrow> idx
            | Some a \<Rightarrow> if a \<in> set architectures then (insertNew fileName (fst idx), snd idx) else idx))"

text \<open>The indices for packages and those for sources.\<close>

definition findIndices :: "string list \<Rightarrow> string \<Rightarrow> string list \<Rightarrow> string list \<times> string list" where
  "findIndices architectures distRootPath entries =
     foldl (\<lambda>idx filename. noteEntry architectures distRootPath filename idx) ([], []) entries"

section \<open>A distribution\<close>

definition emptyRelease :: releaseFile where
  "emptyRelease = \<lparr>rlArchitectures = [], rlEntries = []\<rparr>"

definition readRelease ::
  "('w, 'b) web \<Rightarrow> repoLib \<Rightarrow> DebianSource \<Rightarrow> string \<Rightarrow> (('w, 'e) lister, string \<times> releaseFile \<times> bytes) step" where
  "readRelease web lib s distRootPath =
     withFallback web lib (the (dsUrlSource s)) (path_join [distRootPath, ''InRelease''])
       (path_join [distRootPath, ''Release'']) (rpRelease lib) emptyRelease"

text \<open>\<^verbatim>\<open>InRelease\<close> is signed in-line, \<^verbatim>\<open>Release\<close> has a signature file.\<close>

definition verifyRelease ::
  "('w, 'b) web \<Rightarrow> ('w, 'r, 'lo) swift \<Rightarrow> ('w, 'r, 'e) pgp \<Rightarrow> DebianSource \<Rightarrow> string \<Rightarrow> string \<Rightarrow> bytes \<Rightarrow>
    (('w, 'e) lister, unit) step" where
  "verifyRelease web sw pg s distRootPath releasePath releaseBytes =
     (if \<not> dsGpgVerification s then give ()
      else if path_base releasePath = ''Release'' then
        and_then (fetch web (the (dsUrlSource s)) (path_join [distRootPath, ''Release.gpg''])) (\<lambda>signatureBytes.
          verified web (the (dsUrlSource s)) (VerifyDetachedGPGSignature web sw pg releaseBytes signatureBytes))
      else verified web (the (dsUrlSource s)) (VerifyClearSignedGPGSignature web sw pg releaseBytes))"

definition architecturesOf :: "DebianSource \<Rightarrow> releaseFile \<Rightarrow> string list" where
  "architecturesOf s release = (if dsArchitectures s \<noteq> [] then dsArchitectures s else rlArchitectures release)"

definition packageFiles ::
  "('w, 'b) web \<Rightarrow> repoLib \<Rightarrow> DebianSource \<Rightarrow> string \<Rightarrow> (('w, 'e) lister, string list) step" where
  "packageFiles web lib s pkgIndexPath =
     and_then (withFallback web lib (the (dsUrlSource s)) (pkgIndexPath @ ''.xz'') (pkgIndexPath @ ''.gz'')
         (rpPackages lib) []) (\<lambda>r. give (fst (snd r)))"

definition sourceFiles ::
  "('w, 'b) web \<Rightarrow> repoLib \<Rightarrow> DebianSource \<Rightarrow> string \<Rightarrow> (('w, 'e) lister, string list) step" where
  "sourceFiles web lib s srcIndexPath =
     and_then (withFallback web lib (the (dsUrlSource s)) (srcIndexPath @ ''.xz'') (srcIndexPath @ ''.gz'')
         (rpSources lib) []) (\<lambda>r.
       give (concat (map (\<lambda>src. map (\<lambda>file. path_join [fst src, file]) (snd src)) (fst (snd r)))))"

text \<open>The part of \<^verbatim>\<open>listDistFiles\<close> before the directory of the distribution is listed.\<close>

definition indexedFiles ::
  "('w, 'b) web \<Rightarrow> ('w, 'r, 'lo) swift \<Rightarrow> ('w, 'r, 'e) pgp \<Rightarrow> repoLib \<Rightarrow> (string list \<Rightarrow> string list) \<Rightarrow>
    (string list \<Rightarrow> string list) \<Rightarrow> DebianSource \<Rightarrow> string \<Rightarrow> (('w, 'e) lister, string list) step" where
  "indexedFiles web sw pg lib pkgOrder srcOrder s distRootPath =
     and_then (readRelease web lib s distRootPath) (\<lambda>r.
     and_then (verifyRelease web sw pg s distRootPath (fst r) (snd (snd r))) (\<lambda>u.
       (let release = fst (snd r);
            idx = findIndices (architecturesOf s release) distRootPath (rlEntries release)
        in and_then (gather (packageFiles web lib s) (pkgOrder (fst idx))) (\<lambda>pkgs.
           and_then (gather (sourceFiles web lib s) (srcOrder (snd idx))) (\<lambda>srcs.
             give (pkgs @ srcs))))))"

section \<open>The directory of a distribution\<close>

text \<open>
  \<open>listFrom path entries files\<close> is the loop over the entries of the directory \<open>path\<close>; an entry with
  the name of the directory itself is skipped.
\<close>

partial_function (option) listFrom ::
  "('w, 'b) web \<Rightarrow> URLSource \<Rightarrow> string \<Rightarrow> FileSpec list \<Rightarrow> string list \<Rightarrow> 'w \<Rightarrow>
    ('w \<times> (ListEntriesError + string list)) option" where
  "listFrom web u path entries files w =
     (case entries of
        [] \<Rightarrow> Some (w, Inr files)
      | entry # rest \<Rightarrow>
          if IsDirectory entry then
            if path_base path = path_base (Path entry) then listFrom web u path rest files w
            else
              (case URLSource_ListEntries web u (Path entry) w of
                 (w1, Inl lerr) \<Rightarrow> Some (w1, Inl lerr)
               | (w1, Inr sub) \<Rightarrow>
                   Option.bind (listFrom web u (Path entry) sub [] w1) (\<lambda>r.
                     (case r of
                        (w2, Inl lerr) \<Rightarrow> Some (w2, Inl lerr)
                      | (w2, Inr tmpFiles) \<Rightarrow> listFrom web u path rest (files @ tmpFiles) w2)))
          else listFrom web u path rest (files @ [Path entry]) w)"

definition recursivelyListEntries ::
  "('w, 'b) web \<Rightarrow> URLSource \<Rightarrow> string \<Rightarrow> 'w \<Rightarrow> ('w \<times> (ListEntriesError + string list)) option" where
  "recursivelyListEntries web u path w =
     (case URLSource_ListEntries web u path w of
        (w1, Inl lerr) \<Rightarrow> Some (w1, Inl lerr)
      | (w1, Inr entries) \<Rightarrow> listFrom web u path entries [] w1)"

text \<open>A missing directory is not an error; then (and if any directory below is missing) it has no files.\<close>

definition listDistFiles ::
  "('w, 'b) web \<Rightarrow> ('w, 'r, 'lo) swift \<Rightarrow> ('w, 'r, 'e) pgp \<Rightarrow> repoLib \<Rightarrow> (string list \<Rightarrow> string list) \<Rightarrow>
    (string list \<Rightarrow> string list) \<Rightarrow> DebianSource \<Rightarrow> string \<Rightarrow> ('w, 'e) lister \<Rightarrow>
    (('w, 'e) lister \<times> (ListEntriesError + string list) outcome) option" where
  "listDistFiles web sw pg lib pkgOrder srcOrder s distRootPath st =
     (case indexedFiles web sw pg lib pkgOrder srcOrder s distRootPath st of
        (st1, Panic m) \<Rightarrow> Some (st1, Panic m)
      | (st1, Ret (Inl lerr)) \<Rightarrow> Some (st1, Ret (Inl lerr))
      | (st1, Ret (Inr distFiles)) \<Rightarrow>
          map_option (\<lambda>(w, r).
             (st1\<lparr>lsWorld := w\<rparr>,
              Ret (case r of
                     Inr entries \<Rightarrow> Inr (distFiles @ entries)
                   | Inl lerr \<Rightarrow> if is_404 lerr then Inr distFiles else Inl lerr)))
            (recursivelyListEntries web (the (dsUrlSource s)) distRootPath (lsWorld st1)))"

section \<open>ListAllFiles\<close>

fun sendNew :: "string list \<Rightarrow> string set \<Rightarrow> ('w, 'e) lister \<Rightarrow> ('w, 'e) lister \<times> string set" where
  "sendNew [] transferred st = (st, transferred)"
| "sendNew (file # files) transferred st =
     (if file \<in> transferred then sendNew files transferred st
      else sendNew files (insert file transferred) (fst (send file st)))"

fun listDistributions ::
  "('w, 'b) web \<Rightarrow> ('w, 'r, 'lo) swift \<Rightarrow> ('w, 'r, 'e) pgp \<Rightarrow> repoLib \<Rightarrow> (string list \<Rightarrow> string list) \<Rightarrow>
    (string list \<Rightarrow> string list) \<Rightarrow> DebianSource \<Rightarrow> string list \<Rightarrow> string set \<Rightarrow> ('w, 'e) lister \<Rightarrow>
    (('w, 'e) lister \<times> ListEntriesError option outcome) option" where
  "listDistributions web sw pg lib pkgOrder srcOrder s [] transferred st = Some (st, Ret None)"
| "listDistributions web sw pg lib pkgOrder srcOrder s (distName # dists) transferred st =
     (case listDistFiles web sw pg lib pkgOrder srcOrder s (path_join [''dists'', distName]) st of
        None \<Rightarrow> None
      | Some (st1, Panic m) \<Rightarrow> Some (st1, Panic m)
      | Some (st1, Ret (Inl lerr)) \<Rightarrow> Some (st1, Ret (Some lerr))
      | Some (st1, Ret (Inr distFiles)) \<Rightarrow>
          (case sendNew distFiles transferred st1 of
             (st2, transferred') \<Rightarrow> listDistributions web sw pg lib pkgOrder srcOrder s dists transferred' st2))"

definition DebianSource_ListAllFiles ::
  "('w, 'b) web \<Rightarrow> ('w, 'r, 'lo) swift \<Rightarrow> ('w, 'r, 'e) pgp \<Rightarrow> repoLib \<Rightarrow> (string list \<Rightarrow> string list) \<Rightarrow>
    (string list \<Rightarrow> string list) \<Rightarrow> DebianSource \<Rightarrow> 'w \<times> 'e keyring \<Rightarrow>
    (('w \<times> 'e keyring) \<times> (FileSpec list \<times> ListEntriesError option) outcome) option" where
  "DebianSource_ListAllFiles web sw pg lib pkgOrder srcOrder s wk =
     (if dsDistributions s = [] then
        Some (wk, Ret ([], Some \<lparr>leLocation = dsURLString s,
          leMessage = ''no distributions specified in the config file'', leInner = None\<rparr>))
      else
        map_option (\<lambda>(st, r).
           ((lsWorld st, lsKeys st),
            (case r of Panic m \<Rightarrow> Panic m | Ret e \<Rightarrow> Ret (lsOut st, e))))
          (listDistributions web sw pg lib pkgOrder srcOrder s (dsDistributions s) {}
             (lister_start wk)))"

end
