(* ===== verification/Github.thy ===== *)
theory Github
  imports UrlSource Matcher
begin

text \<open>
  \<^verbatim>\<open>pkg/objects/github.go\<close>: the releases of a GitHub repository, listed page by page. What the JSON
  decoder makes of a page is an argument (\<open>dec\<close>); the user information of a URL is not in the model,
  nor is white space of a header beyond ASCII.
\<close>

section \<open>The source\<close>

record GithubReleaseSource =
  ghURLString :: string
  ghToken :: string
  ghTagNamePattern :: PlainRegexp
  ghIncludeDraft :: bool
  ghIncludePrerelease :: bool
  ghRepoURL :: "url option"
  ghReleaseEndpointURL :: "url option"
  ghNotOlderThan :: "gotime option"

record githubAsset =
  gaDownloadURL :: string
  gaName :: string
  gaUpdatedAt :: gotime

record githubRelease =
  grTagName :: string
  grIsDraft :: bool
  grIsPrerelease :: bool
  grPublishedAt :: gotime
  grAssets :: "githubAsset list"

section \<open>Validate\<close>

text \<open>\<^verbatim>\<open>^/([^\s/]+)/([^\s/]+)/?$\<close>\<close>

definition repo_char :: "char \<Rightarrow> bool" where
  "repo_char c \<longleftrightarrow> \<not> rx_space c \<and> c \<noteq> CHR ''/''"

definition githubRepoRx :: rx where
  "githubRepoRx =
     seqs [Bol, Lit ''/'', Grp 1 (Some_of repo_char), Lit ''/'', Grp 2 (Some_of repo_char), Optional (Lit ''/''), Eol]"

text \<open>\<^verbatim>\<open>URL.Hostname\<close>: the host without a port and without the brackets of an IPv6 address.\<close>

definition stripPort :: "string \<Rightarrow> string" where
  "stripPort host =
     (let after = rev (takeWhile (\<lambda>c. c \<noteq> CHR '':'') (rev host))
      in if CHR '':'' \<in> set host \<and> list_all is_digit after then take (length host - length after - 1) host else host)"

definition Hostname :: "url \<Rightarrow> string" where
  "Hostname u =
     (let host = stripPort (uHost u)
      in if hasPrefix host ''['' \<and> hasSuffix host '']'' then take (length host - 2) (drop 1 host) else host)"

definition repoOf :: "string \<Rightarrow> (string \<times> string) option" where
  "repoOf path = map_option (\<lambda>match. (group match 1, group match 2)) (find_submatch githubRepoRx path)"

definition apiBaseURL :: "('w, 'b) web \<Rightarrow> url \<Rightarrow> goerror + url" where
  "apiBaseURL web repoURL =
     (if Hostname repoURL = ''github.com'' then
        (case wbParse web ''https://api.github.com/'' of
           Inl err \<Rightarrow> Inl (Wrap ''could not build apiBaseURL: '' err)
         | Inr u \<Rightarrow> Inr u)
      else Inr (repoURL\<lparr>uPath := ''/api/v3/'', uRawPath := ''/api/v3/''\<rparr>))"

definition endpointPath :: "string \<Rightarrow> string \<Rightarrow> string" where
  "endpointPath ownerName repoName =
     ''repos/'' @ ownerName @ ''/'' @ repoName @ ''/releases?per_page='' @ decimal 50"

definition errInvalidURL :: "string \<Rightarrow> string \<Rightarrow> goerror" where
  "errInvalidURL name urlString =
     Err (''invalid value for '' @ name @ ''.url: expected a url in the format '' @
       quote ''http(s)://<hostname>/<owner>/<repo>'' @ '', got: '' @ quote urlString)"

definition GithubReleaseSource_Validate ::
  "('w, 'b) web \<Rightarrow> GithubReleaseSource \<Rightarrow> string \<Rightarrow> GithubReleaseSource \<times> goerror list" where
  "GithubReleaseSource_Validate web s name =
     (case wbParse web (ghURLString s) of
        Inl err \<Rightarrow> (s\<lparr>ghRepoURL := None\<rparr>, [Wrap (''could not parse '' @ name @ ''.url: '') err])
      | Inr repoURL \<Rightarrow>
          let s1 = s\<lparr>ghRepoURL := Some repoURL\<rparr>; invalid = (s1, [errInvalidURL name (ghURLString s)])
          in if uScheme repoURL \<noteq> ''http'' \<and> uScheme repoURL \<noteq> ''https'' then invalid
             else if uRawQuery repoURL \<noteq> [] \<or> uFragment repoURL \<noteq> [] then invalid
             else
               (case repoOf (uPath repoURL) of
                  None \<Rightarrow> invalid
                | Some (ownerName, repoName) \<Rightarrow>
                    (case apiBaseURL web repoURL of
                       Inl err \<Rightarrow> (s1, [err])
                     | Inr base \<Rightarrow>
                         (case wbParse web (endpointPath ownerName repoName) of
                            Inl err \<Rightarrow>
                              (s1\<lparr>ghReleaseEndpointURL := None\<rparr>,
                               [Wrap (''could not build URL for releases of '' @ wbString web repoURL @ '': '') err])
                          | Inr ref \<Rightarrow>
                              (s1\<lparr>ghReleaseEndpointURL := Some (wbResolve web base ref)\<rparr>,
                               if Hostname repoURL \<noteq> ''github.com'' \<and> ghToken s = [] then
                                 [Err (name @ ''.token is required for repositories hosted on GitHub Enterprise'')]
                               else [])))))"

definition GithubReleaseSource_Connect :: "GithubReleaseSource \<Rightarrow> goerror option" where
  "GithubReleaseSource_Connect s = None"

definition GithubReleaseSource_ListEntries :: "GithubReleaseSource \<Rightarrow> string \<Rightarrow> ListEntriesError + FileSpec list" where
  "GithubReleaseSource_ListEntries s directoryPath = Inl ErrListEntriesNotSupported"

section \<open>Requests\<close>

definition githubRequestHeader :: "('w, 'b) web \<Rightarrow> GithubReleaseSource \<Rightarrow> string \<Rightarrow> header \<Rightarrow> header" where
  "githubRequestHeader web s accept hdr =
     (let h = header_set (header_set (header_set hdr ''X-Github-Api-Version'' ''2022-11-28'')
                ''User-Agent'' (''swift-http-import/'' @ wbVersion web)) ''Accept'' accept
      in if ghToken s \<noteq> [] then header_set h ''Authorization'' (''Bearer '' @ ghToken s) else h)"

text \<open>\<^verbatim>\<open>req.URL.String()\<close>\<close>

definition requestURL :: "('w, 'b) web \<Rightarrow> string \<Rightarrow> string" where
  "requestURL web uri = (case wbParse web uri of Inl err \<Rightarrow> uri | Inr u \<Rightarrow> wbString web u)"

definition GithubReleaseSource_GetFile ::
  "('w, 'b) web \<Rightarrow> GithubReleaseSource \<Rightarrow> string \<Rightarrow> headers \<Rightarrow> 'w \<Rightarrow>
    'w \<times> (goerror + 'b getBody \<times> FileState) outcome" where
  "GithubReleaseSource_GetFile web s path requestHeaders w =
     (let cl = wbClient web DefaultClient;
          hdr = githubRequestHeader web s ''application/octet-stream'' (to_http requestHeaders)
      in case cl_newRequest cl path of
           Some err \<Rightarrow> (w, Ret (Inl (Wrap (''skipping: could not create request for '' @ path @ '': '') err)))
         | None \<Rightarrow>
             (case cl_do cl w \<lparr>req_uri = path, req_header = hdr\<rparr> of
                (w', Inl err) \<Rightarrow> (w', fileOf (requestURL web path) (None, Some err))
              | (w', Inr resp) \<Rightarrow> (w', fileOf (requestURL web path) (Some (with_body Plain resp), None))))"

section \<open>Pages\<close>

definition linkTarget :: "string \<Rightarrow> string option" where
  "linkTarget link =
     (case cut (CHR '';'') (trimSpace link) of
        None \<Rightarrow> None
      | Some (href, metadata) \<Rightarrow>
          if trimSpace metadata \<noteq> ''rel='' @ [CHR 0x22] @ ''next'' @ [CHR 0x22] then None
          else
            (case cutPrefix href ''<'' of
               None \<Rightarrow> None
             | Some h \<Rightarrow> cutSuffix h ''>''))"

fun firstTarget :: "string list \<Rightarrow> string" where
  "firstTarget [] = []"
| "firstTarget (link # links) = (case linkTarget link of Some href \<Rightarrow> href | None \<Rightarrow> firstTarget links)"

definition nextPage :: "string \<Rightarrow> string" where
  "nextPage linkHeader = (if linkHeader = [] then [] else firstTarget (split_on (CHR '','') linkHeader))"

text \<open>One round of the loop: the releases of a page and the URL of the next.\<close>

definition getPage ::
  "('w, 'b) web \<Rightarrow> ('b \<Rightarrow> goerror + githubRelease list) \<Rightarrow> GithubReleaseSource \<Rightarrow> string \<Rightarrow> 'w \<Rightarrow>
    'w \<times> (goerror + githubRelease list \<times> string)" where
  "getPage web dec s uri w =
     (let cl = wbClient web DefaultClient;
          hdr = githubRequestHeader web s ''application/vnd.github.v3+json'' no_header
      in case cl_newRequest cl uri of
           Some err \<Rightarrow> (w, Inl (Wrap (''could not create request for '' @ uri @ '': '') err))
         | None \<Rightarrow>
             (case cl_do cl w \<lparr>req_uri = uri, req_header = hdr\<rparr> of
                (w', Inl err) \<Rightarrow> (w', Inl (Wrap (''could not GET '' @ uri @ '': '') err))
              | (w', Inr resp) \<Rightarrow>
                  (w',
                   if resp_code resp \<noteq> StatusOK then
                     (let respBody = (case wbReadAll web (resp_body resp) of
                                        (buf, None) \<Rightarrow> string_of_bytes buf
                                      | (buf, Some err) \<Rightarrow> ''could not read body: '' @ error_text err)
                      in Inl (Err (''could not GET '' @ uri @ '': expected 200 OK, but got '' @ resp_status resp @
                               '' (response was: '' @ respBody @ '')'')))
                   else
                     (case dec (resp_body resp) of
                        Inl err \<Rightarrow> Inl (Wrap (''could not GET '' @ uri @ '': while parsing JSON response body: '') err)
                      | Inr page \<Rightarrow> Inr (page, nextPage (header_get (resp_header resp) ''Link''))))))"

text \<open>The loop; with no release at all, the look at the last one is out of range.\<close>

partial_function (option) getReleasesFrom ::
  "('w, 'b) web \<Rightarrow> ('b \<Rightarrow> goerror + githubRelease list) \<Rightarrow> GithubReleaseSource \<Rightarrow> string \<Rightarrow> githubRelease list \<Rightarrow> 'w \<Rightarrow>
    ('w \<times> (goerror + githubRelease list) outcome) option" where
  "getReleasesFrom web dec s uri result w =
     (if uri = [] then Some (w, Ret (Inr result))
      else
        (case getPage web dec s uri w of
           (w', Inl err) \<Rightarrow> Some (w', Ret (Inl err))
         | (w', Inr (page, next)) \<Rightarrow>
             (case ghNotOlderThan s of
                None \<Rightarrow> getReleasesFrom web dec s next (result @ page) w'
              | Some t \<Rightarrow>
                  if result @ page = [] then Some (w', Panic ''index out of range'')
                  else if grPublishedAt (last (result @ page)) < t then Some (w', Ret (Inr (result @ page)))
                  else getReleasesFrom web dec s next (result @ page) w')))"

definition getReleases ::
  "('w, 'b) web \<Rightarrow> ('b \<Rightarrow> goerror + githubRelease list) \<Rightarrow> GithubReleaseSource \<Rightarrow> 'w \<Rightarrow>
    ('w \<times> (goerror + githubRelease list) outcome) option" where
  "getReleases web dec s w =
     getReleasesFrom web dec s (wbString web (the (ghReleaseEndpointURL s))) [] w"

section \<open>ListAllFiles\<close>

definition assetSpec :: "githubRelease \<Rightarrow> githubAsset \<Rightarrow> FileSpec" where
  "assetSpec r a =
     (fileSpec (grTagName r @ ''/'' @ gaName a))
       \<lparr>DownloadPath := gaDownloadURL a, LastModified := Some (gaUpdatedAt a)\<rparr>"

fun sendReleases :: "GithubReleaseSource \<Rightarrow> githubRelease list \<Rightarrow> FileSpec list" where
  "sendReleases s [] = []"
| "sendReleases s (r # rs) =
     (if \<not> ghIncludeDraft s \<and> grIsDraft r then sendReleases s rs
      else if \<not> ghIncludePrerelease s \<and> grIsPrerelease r then sendReleases s rs
      else if \<not> rxMatchString (ghTagNamePattern s) (grTagName r) then sendReleases s rs
      else map (assetSpec r) (grAssets r) @ sendReleases s rs)"

definition GithubReleaseSource_ListAllFiles ::
  "('w, 'b) web \<Rightarrow> ('b \<Rightarrow> goerror + githubRelease list) \<Rightarrow> GithubReleaseSource \<Rightarrow> 'w \<Rightarrow>
    ('w \<times> (FileSpec list \<times> ListEntriesError option) outcome) option" where
  "GithubReleaseSource_ListAllFiles web dec s w =
     map_option (\<lambda>(w', r).
       (w',
        (case r of
           Panic m \<Rightarrow> Panic m
         | Ret (Inl err) \<Rightarrow>
             Ret ([], Some \<lparr>leLocation = wbString web (the (ghRepoURL s)), leMessage = ''could not list releases'',
                            leInner = Some err\<rparr>)
         | Ret (Inr releases) \<Rightarrow> Ret (sendReleases s releases, None))))
       (getReleases web dec s w)"

end
