(* ===== verification/Config.thy ===== *)
theory Config
  imports Debian Github File
begin

text \<open>
  \<^verbatim>\<open>pkg/objects/config.go\<close>: reading the configuration file and compiling its jobs. What the YAML
  decoder makes of the file is an argument, and so is all of the outside world, collected in the
  record \<open>services\<close>. The key ring that \<^verbatim>\<open>Compile\<close> hands to Yum and Debian sources is the state that
  their listings take and return, so that no field of the sources holds it.
\<close>

section \<open>Sources of a job\<close>

datatype ConfiguredSource =
    SwiftSource SwiftLocation
  | PlainSource URLSource
  | YumRepository YumSource
  | DebianRepository DebianSource
  | GithubReleases GithubReleaseSource

text \<open>The verb \<^verbatim>\<open>%T\<close>.\<close>

fun typeName :: "ConfiguredSource option \<Rightarrow> string" where
  "typeName None = ''<nil>''"
| "typeName (Some (SwiftSource s)) = ''*objects.SwiftLocation''"
| "typeName (Some (PlainSource s)) = ''*objects.URLSource''"
| "typeName (Some (YumRepository s)) = ''*objects.YumSource''"
| "typeName (Some (DebianRepository s)) = ''*objects.DebianSource''"
| "typeName (Some (GithubReleases s)) = ''*objects.GithubReleaseSource''"

text \<open>The decoder of a YAML node \<open>'y\<close> into the probe (url, type) and into each type of source.\<close>

record 'y yaml =
  ymProbe :: "'y \<Rightarrow> goerror + string \<times> string"
  ymSwift :: "'y \<Rightarrow> goerror + SwiftLocation"
  ymPlain :: "'y \<Rightarrow> goerror + URLSource"
  ymYum :: "'y \<Rightarrow> goerror + YumSource"
  ymDebian :: "'y \<Rightarrow> goerror + DebianSource"
  ymGithub :: "'y \<Rightarrow> goerror + GithubReleaseSource"

definition SourceUnmarshaler_UnmarshalYAML :: "'y yaml \<Rightarrow> 'y \<Rightarrow> goerror + ConfiguredSource" where
  "SourceUnmarshaler_UnmarshalYAML ym y =
     (case ymProbe ym y of
        Inl err \<Rightarrow> Inl err
      | Inr (url, type) \<Rightarrow>
          if url = [] then map_sum id SwiftSource (ymSwift ym y)
          else if type = [] then map_sum id PlainSource (ymPlain ym y)
          else if type = ''yum'' then map_sum id YumRepository (ymYum ym y)
          else if type = ''debian'' then map_sum id DebianRepository (ymDebian ym y)
          else if type = ''github-releases'' then map_sum id GithubReleases (ymGithub ym y)
          else Inl (Err (''unexpected value: type = '' @ quote type)))"

section \<open>The outside world\<close>

record ('w, 'r, 'lo, 'p, 'c, 'b) services =
  svWeb :: "('w, 'b) web"
  svSwift :: "('w, 'r, 'lo) swift"
  svOpenstack :: "('w, 'p, 'c) openstack"
  svLoadKeyPair :: "string \<Rightarrow> string \<Rightarrow> goerror option"
  svReadFile :: "string \<Rightarrow> goerror + bytes"
  svShowDebug :: bool
  svNow :: "'w \<Rightarrow> gotime"

text \<open>The state is the world and the cache of Swift accounts.\<close>

type_synonym 'w connections = "'w \<times> accountCache"

fun Source_Validate ::
  "('w, 'b) web \<Rightarrow> ConfiguredSource \<Rightarrow> string \<Rightarrow> (ConfiguredSource \<times> goerror list) outcome" where
  "Source_Validate web (SwiftSource s) name =
     (case SwiftLocation_Validate s name of (s', errs) \<Rightarrow> Ret (SwiftSource s', errs))"
| "Source_Validate web (PlainSource s) name =
     (case URLSource_Validate web s name of Panic m \<Rightarrow> Panic m | Ret (s', errs) \<Rightarrow> Ret (PlainSource s', errs))"
| "Source_Validate web (YumRepository s) name =
     (case YumSource_Validate web s name of Panic m \<Rightarrow> Panic m | Ret (s', errs) \<Rightarrow> Ret (YumRepository s', errs))"
| "Source_Validate web (DebianRepository s) name =
     (case DebianSource_Validate web s name of Panic m \<Rightarrow> Panic m | Ret (s', errs) \<Rightarrow> Ret (DebianRepository s', errs))"
| "Source_Validate web (GithubReleases s) name =
     (case GithubReleaseSource_Validate web s name of (s', errs) \<Rightarrow> Ret (GithubReleases s', errs))"

definition connectLocation ::
  "('w, 'r, 'lo, 'p, 'c, 'b) services \<Rightarrow> SwiftLocation \<Rightarrow> string \<Rightarrow> 'w connections \<Rightarrow>
    'w connections \<times> SwiftLocation \<times> goerror option" where
  "connectLocation sv s name st =
     (case SwiftLocation_Connect (svOpenstack sv) (svSwift sv) (svShowDebug sv) (snd st) s name (fst st) of
        (w', cache', s', err) \<Rightarrow> ((w', cache'), s', err))"

fun Source_Connect ::
  "('w, 'r, 'lo, 'p, 'c, 'b) services \<Rightarrow> ConfiguredSource \<Rightarrow> string \<Rightarrow> 'w connections \<Rightarrow>
    'w connections \<times> ConfiguredSource \<times> goerror option" where
  "Source_Connect sv (SwiftSource s) name st =
     (case connectLocation sv s name st of (st', s', err) \<Rightarrow> (st', SwiftSource s', err))"
| "Source_Connect sv (PlainSource s) name st =
     (case URLSource_Connect (svLoadKeyPair sv) (svReadFile sv) s of (s', err) \<Rightarrow> (st, PlainSource s', err))"
| "Source_Connect sv (YumRepository s) name st =
     (case YumSource_Connect (svLoadKeyPair sv) (svReadFile sv) s of (s', err) \<Rightarrow> (st, YumRepository s', err))"
| "Source_Connect sv (DebianRepository s) name st =
     (case DebianSource_Connect (svLoadKeyPair sv) (svReadFile sv) s of (s', err) \<Rightarrow> (st, DebianRepository s', err))"
| "Source_Connect sv (GithubReleases s) name st = (st, GithubReleases s, GithubReleaseSource_Connect s)"

section \<open>Jobs\<close>

record JobConfiguration =
  jcSource :: "ConfiguredSource option"
  jcTarget :: "SwiftLocation option"
  jcExcludePattern :: "PlainRegexp option"
  jcIncludePattern :: "PlainRegexp option"
  jcImmutableFilePattern :: "PlainRegexp option"
  jcNotOlderThan :: "duration option"
  jcSimplisticComparison :: "bool option"
  jcSegmenting :: "SegmentingConfiguration option"
  jcExpiration :: ExpirationConfiguration
  jcCleanup :: CleanupStrategy

text \<open>A compiled job; source and target can be nil as long as there are errors.\<close>

record CompiledJob =
  cjSource :: "ConfiguredSource option"
  cjTarget :: "SwiftLocation option"
  cjMatcher :: Matcher
  cjSegmenting :: "SegmentingConfiguration option"
  cjExpiration :: ExpirationConfiguration
  cjCleanup :: CleanupStrategy

definition missingValue :: "string \<Rightarrow> string \<Rightarrow> goerror" where
  "missingValue name opt = Err (''missing value for '' @ name @ opt)"

definition validateSource ::
  "('w, 'b) web \<Rightarrow> ConfiguredSource option \<Rightarrow> string \<Rightarrow> (ConfiguredSource option \<times> goerror list) outcome" where
  "validateSource web jobSrc name =
     (case jobSrc of
        None \<Rightarrow> Ret (None, [missingValue name ''.from''])
      | Some src \<Rightarrow>
          (case Source_Validate web src (name @ ''.from'') of
             Panic m \<Rightarrow> Panic m
           | Ret (src', errs) \<Rightarrow> Ret (Some src', errs)))"

text \<open>The target inherits the connection parameters of the global Swift credentials.\<close>

definition inheritCredentials :: "SwiftLocation \<Rightarrow> SwiftLocation \<Rightarrow> SwiftLocation" where
  "inheritCredentials swift target =
     target\<lparr>AuthURL := AuthURL swift, UserName := UserName swift, UserDomainName := UserDomainName swift,
            ProjectName := ProjectName swift, ProjectDomainName := ProjectDomainName swift,
            Password := Password swift, ApplicationCredentialID := ApplicationCredentialID swift,
            ApplicationCredentialName := ApplicationCredentialName swift,
            ApplicationCredentialSecret := ApplicationCredentialSecret swift,
            RegionName := RegionName swift, ServiceType := ServiceType swift\<rparr>"

definition validateTarget ::
  "SwiftLocation option \<Rightarrow> string \<Rightarrow> SwiftLocation \<Rightarrow> SwiftLocation option \<times> goerror list" where
  "validateTarget target name swift =
     (case target of
        None \<Rightarrow> (None, [missingValue name ''.to''])
      | Some t \<Rightarrow>
          (case SwiftLocation_Validate (inheritCredentials swift t) (name @ ''.to'') of
             (t', errs) \<Rightarrow> (Some t', errs)))"

definition unsupported :: "string \<Rightarrow> string \<Rightarrow> ConfiguredSource option \<Rightarrow> goerror" where
  "unsupported name opt jobSrc =
     Err (''invalid value for '' @ name @ ''.match.'' @ opt @
       '': this option is not supported for source type '' @ typeName jobSrc)"

fun isSwiftSource :: "ConfiguredSource option \<Rightarrow> bool" where
  "isSwiftSource (Some (SwiftSource s)) = True"
| "isSwiftSource _ = False"

fun isURLSource :: "ConfiguredSource option \<Rightarrow> bool" where
  "isURLSource (Some (PlainSource s)) = True"
| "isURLSource _ = False"

fun isGithubReleaseSource :: "ConfiguredSource option \<Rightarrow> bool" where
  "isGithubReleaseSource (Some (GithubReleases s)) = True"
| "isGithubReleaseSource _ = False"

definition matchErrors :: "JobConfiguration \<Rightarrow> ConfiguredSource option \<Rightarrow> string \<Rightarrow> goerror list" where
  "matchErrors cfg jobSrc name =
     (if jcNotOlderThan cfg \<noteq> None \<and> \<not> isSwiftSource jobSrc \<and> \<not> isGithubReleaseSource jobSrc
      then [unsupported name ''not_older_than'' jobSrc] else []) @
     (if jcSimplisticComparison cfg \<noteq> None \<and> \<not> isURLSource jobSrc \<and> \<not> isSwiftSource jobSrc
      then [unsupported name ''simplistic_comparison'' jobSrc] else [])"

text \<open>Without a name of its own, the container for segments is named after the target's.\<close>

definition compileSegmenting ::
  "SegmentingConfiguration option \<Rightarrow> SwiftLocation option \<Rightarrow> string \<Rightarrow>
    (SegmentingConfiguration option \<times> goerror list) outcome" where
  "compileSegmenting segmenting target name =
     (case segmenting of
        None \<Rightarrow> Ret (None, [])
      | Some sg \<Rightarrow>
          let errs = (if MinObjectSize sg = 0 then [missingValue name ''.segmenting.min_bytes''] else []) @
                     (if SegmentSize sg = 0 then [missingValue name ''.segmenting.segment_bytes''] else [])
          in if sgContainerName sg \<noteq> [] then Ret (Some sg, errs)
             else
               (case target of
                  None \<Rightarrow> Panic ''nil dereference of cfg.Target''
                | Some t \<Rightarrow> Ret (Some (sg\<lparr>sgContainerName := ContainerName t @ ''_segments''\<rparr>), errs)))"

definition compileExpiration :: "ExpirationConfiguration \<Rightarrow> ExpirationConfiguration" where
  "compileExpiration ex = ex\<lparr>Enabled := (case EnabledIn ex of None \<Rightarrow> True | Some b \<Rightarrow> b)\<rparr>"

definition cleanupErrors :: "CleanupStrategy \<Rightarrow> string \<Rightarrow> goerror list" where
  "cleanupErrors ufs name =
     (if ufs \<noteq> KeepUnknownFiles \<and> ufs \<noteq> DeleteUnknownFiles \<and> ufs \<noteq> ReportUnknownFiles
      then [Err (''invalid value for '' @ name @ ''.cleanup.strategy: '' @ quote ufs)] else [])"

definition compileMatcher :: "JobConfiguration \<Rightarrow> gotime \<Rightarrow> Matcher" where
  "compileMatcher cfg now =
     \<lparr>ExcludeRx = jcExcludePattern cfg, IncludeRx = jcIncludePattern cfg,
      ImmutableFileRx = jcImmutableFilePattern cfg,
      NotOlderThan = map_option (\<lambda>age. now - age) (jcNotOlderThan cfg),
      SimplisticComparison = jcSimplisticComparison cfg\<rparr>"

fun limitReleases :: "gotime option \<Rightarrow> ConfiguredSource option \<Rightarrow> ConfiguredSource option" where
  "limitReleases cutoff (Some (GithubReleases s)) = Some (GithubReleases (s\<lparr>ghNotOlderThan := cutoff\<rparr>))"
| "limitReleases cutoff jobSrc = jobSrc"

text \<open>The first part of \<^verbatim>\<open>Compile\<close>: the job and the errors that are found without connecting anywhere.\<close>

definition compileOffline ::
  "('w, 'b) web \<Rightarrow> gotime \<Rightarrow> JobConfiguration \<Rightarrow> string \<Rightarrow> SwiftLocation \<Rightarrow> (CompiledJob \<times> goerror list) outcome" where
  "compileOffline web now cfg name swift =
     (case validateSource web (jcSource cfg) name of
        Panic m \<Rightarrow> Panic m
      | Ret (jobSrc, srcErrs) \<Rightarrow>
          (case validateTarget (jcTarget cfg) name swift of
             (target, targetErrs) \<Rightarrow>
               (case compileSegmenting (jcSegmenting cfg) target name of
                  Panic m \<Rightarrow> Panic m
                | Ret (segmenting, segErrs) \<Rightarrow>
                    let matcher = compileMatcher cfg now
                    in Ret (\<lparr>cjSource = limitReleases (NotOlderThan matcher) jobSrc, cjTarget = target,
                             cjMatcher = matcher, cjSegmenting = segmenting,
                             cjExpiration = compileExpiration (jcExpiration cfg), cjCleanup = jcCleanup cfg\<rparr>,
                            srcErrs @ targetErrs @ matchErrors cfg jobSrc name @ segErrs @
                              cleanupErrors (jcCleanup cfg) name))))"

text \<open>The second part: connecting, after which there is a source and a target.\<close>

definition errorList :: "goerror option \<Rightarrow> goerror list" where
  "errorList err = (case err of None \<Rightarrow> [] | Some e \<Rightarrow> [e])"

definition ensureSegments ::
  "('w, 'r, 'lo) swift \<Rightarrow> SwiftLocation \<Rightarrow> SegmentingConfiguration option \<Rightarrow> 'w connections \<Rightarrow>
    'w connections \<times> SegmentingConfiguration option \<times> goerror list" where
  "ensureSegments sw target segmenting st =
     (case (Account target, segmenting) of
        (Some a, Some sg) \<Rightarrow>
          let c = \<lparr>cnAccount = a, cnName = sgContainerName sg\<rparr>
          in (case swEnsureExists sw c (fst st) of
                (w', err) \<Rightarrow> ((w', snd st), Some (sg\<lparr>sgContainer := Some c\<rparr>), errorList err))
      | _ \<Rightarrow> (st, segmenting, []))"

definition connectJob ::
  "('w, 'r, 'lo, 'p, 'c, 'b) services \<Rightarrow> CompiledJob \<Rightarrow> string \<Rightarrow> 'w connections \<Rightarrow>
    'w connections \<times> CompiledJob \<times> goerror list" where
  "connectJob sv job name st =
     (case Source_Connect sv (the (cjSource job)) (name @ ''.from'') st of
        (st1, src, err1) \<Rightarrow>
          (case connectLocation sv (the (cjTarget job)) (name @ ''.to'') st1 of
             (st2, target, err2) \<Rightarrow>
               (case ensureSegments (svSwift sv) target (cjSegmenting job) st2 of
                  (st3, segmenting, errs3) \<Rightarrow>
                    (case DiscoverExistingFiles (svSwift sv) target (fst st3) of
                       (w4, target', err4) \<Rightarrow>
                         ((w4, snd st3),
                          job\<lparr>cjSource := Some src, cjTarget := Some target', cjSegmenting := segmenting\<rparr>,
                          errorList err1 @ errorList err2 @ errs3 @ errorList err4)))))"

definition Compile ::
  "('w, 'r, 'lo, 'p, 'c, 'b) services \<Rightarrow> JobConfiguration \<Rightarrow> string \<Rightarrow> SwiftLocation \<Rightarrow> 'w connections \<Rightarrow>
    'w connections \<times> (CompiledJob \<times> goerror list) outcome" where
  "Compile sv cfg name swift st =
     (case compileOffline (svWeb sv) (svNow sv (fst st)) cfg name swift of
        Panic m \<Rightarrow> (st, Panic m)
      | Ret (job, errors) \<Rightarrow>
          if errors \<noteq> [] then (st, Ret (job, errors))
          else (case connectJob sv job name st of (st', job', errs) \<Rightarrow> (st', Ret (job', errs))))"

section \<open>The configuration file\<close>

record Configuration =
  cfSwift :: SwiftLocation
  cfTransferWorkers :: u64
  cfStatsdHostName :: string
  cfStatsdPort :: int
  cfStatsdPrefix :: string
  cfCacheContainerName :: "string option"
  cfKeyserverURLPatterns :: "string list"
  cfJobConfigs :: "JobConfiguration list"
  cfJobs :: "CompiledJob list"

definition setDefaults :: "Configuration \<Rightarrow> Configuration" where
  "setDefaults cfg =
     cfg\<lparr>cfTransferWorkers := (if cfTransferWorkers cfg = 0 then 1 else cfTransferWorkers cfg),
         cfStatsdPort := (if cfStatsdHostName cfg \<noteq> [] \<and> cfStatsdPort cfg = 0 then 8125 else cfStatsdPort cfg),
         cfStatsdPrefix := (if cfStatsdPrefix cfg = [] then ''swift_http_import'' else cfStatsdPrefix cfg)\<rparr>"

text \<open>The container for public keys, in the account of the global credentials.\<close>

definition gpgCacheContainer ::
  "('w, 'r, 'lo, 'p, 'c, 'b) services \<Rightarrow> SwiftLocation \<Rightarrow> string option \<Rightarrow> 'w connections \<Rightarrow>
    'w connections \<times> container option \<times> goerror list" where
  "gpgCacheContainer sv swift cntrName st =
     (case cntrName of
        None \<Rightarrow> (st, None, [])
      | Some n \<Rightarrow>
          if n = [] then (st, None, [])
          else
            (case connectLocation sv (swift\<lparr>ContainerName := n, ObjectNamePrefix := []\<rparr>) n st of
               (st', sl, None) \<Rightarrow> (st', Container sl, [])
             | (st', sl, Some err) \<Rightarrow> (st', None, [err])))"

definition jobName :: "nat \<Rightarrow> string" where
  "jobName idx = ''swift.jobs['' @ decimal idx @ '']''"

fun compileJobs ::
  "('w, 'r, 'lo, 'p, 'c, 'b) services \<Rightarrow> SwiftLocation \<Rightarrow> nat \<Rightarrow> JobConfiguration list \<Rightarrow> 'w connections \<Rightarrow>
    'w connections \<times> (CompiledJob list \<times> goerror list) outcome" where
  "compileJobs sv swift idx [] st = (st, Ret ([], []))"
| "compileJobs sv swift idx (cfg # cfgs) st =
     (case Compile sv cfg (jobName idx) swift st of
        (st1, Panic m) \<Rightarrow> (st1, Panic m)
      | (st1, Ret (job, errs)) \<Rightarrow>
          (case compileJobs sv swift (Suc idx) cfgs st1 of
             (st2, Panic m) \<Rightarrow> (st2, Panic m)
           | (st2, Ret (jobs, errs')) \<Rightarrow> (st2, Ret (job # jobs, errs @ errs'))))"

text \<open>\<open>unmarshal\<close> is \<^verbatim>\<open>yaml.Unmarshal\<close>. Without a configuration there is no key ring either.\<close>

definition ReadConfiguration ::
  "('w, 'r, 'lo, 'p, 'c, 'b) services \<Rightarrow> ('w, 'r, 'e) pgp \<Rightarrow> (bytes \<Rightarrow> goerror + Configuration) \<Rightarrow> string \<Rightarrow>
    'w connections \<Rightarrow> 'w connections \<times> ((Configuration \<times> 'e keyring) option \<times> goerror list) outcome" where
  "ReadConfiguration sv pg unmarshal path st =
     (case svReadFile sv path of
        Inl err \<Rightarrow> (st, Ret (None, [err]))
      | Inr configBytes \<Rightarrow>
          (case unmarshal configBytes of
             Inl err \<Rightarrow> (st, Ret (None, [err]))
           | Inr cfg0 \<Rightarrow>
               let cfg = setDefaults cfg0
               in (case SwiftLocation_Validate ((cfSwift cfg)\<lparr>ValidateIgnoreEmptyContainer := True\<rparr>) ''swift'' of
                     (swift, errors) \<Rightarrow>
                       (case gpgCacheContainer sv swift (cfCacheContainerName cfg) st of
                          (st1, cntr, cntrErrs) \<Rightarrow>
                            (case NewGPGKeyRing (svSwift sv) pg cntr (cfKeyserverURLPatterns cfg) (fst st1) of
                               (w2, gpgKeyRing) \<Rightarrow>
                                 (case compileJobs sv swift 0 (cfJobConfigs cfg) (w2, snd st1) of
                                    (st3, Panic m) \<Rightarrow> (st3, Panic m)
                                  | (st3, Ret (jobs, jobErrs)) \<Rightarrow>
                                      (st3, Ret (Some (cfg\<lparr>cfSwift := swift, cfJobs := cfJobs cfg @ jobs\<rparr>, gpgKeyRing),
                                                 errors @ cntrErrs @ jobErrs))))))))"

end
