(* ===== verification/MainRun.thy ===== *)
theory MainRun
  imports NetworkClaims Config
begin

text \<open>
  \<^verbatim>\<open>main.go\<close>: the command line and the composition of all actors with the report, which receives the
  events of all of them in any order. Signals and the set-up of the HTTP transport are left out.
\<close>

section \<open>Starting\<close>

text \<open>\<open>Inl\<close> is an exit code, \<open>Inr\<close> the configuration that is run.\<close>

definition main_start :: "string list \<Rightarrow> (string \<Rightarrow> 'cfg option \<times> goerror list) \<Rightarrow> nat + 'cfg" where
  "main_start args readConfiguration =
     (if length args \<noteq> 2 then Inl 1
      else if args ! 1 = ''--version'' then Inl 0
      else
        (case readConfiguration (args ! 1) of
           (config, errs) \<Rightarrow> if errs \<noteq> [] then Inl 1 else Inr (the config)))"

section \<open>A whole run\<close>

definition mainRun ::
  "('w, 'r) Job list \<Rightarrow> 'w perform \<Rightarrow> 'v bulkDelete \<Rightarrow> ('w \<Rightarrow> bool) \<Rightarrow> ('v \<Rightarrow> bool) \<Rightarrow> 'w \<Rightarrow> 'w scraper \<Rightarrow>
    'w transferor list \<Rightarrow> FileInfoForCleaner list \<Rightarrow> ReportEvent list \<Rightarrow> nat \<Rightarrow> bool" where
  "mainRun jobs perform bulk cancelled cancelled' w sc trs infos evs exit \<longleftrightarrow>
     (\<exists>inputs order v. pipelineRun jobs perform cancelled w sc inputs trs infos \<and>
        mset evs = mset (scReport sc @ concat (map trReport trs) @
          clReport (Cleaner_Run bulk jobs cancelled' (scIncomplete sc) order infos v)) \<and>
        exit = Report_ExitCode evs)"

lemma run_events:
  assumes "mainRun jobs perform bulk cancelled cancelled' w sc trs infos evs exit"
  shows "set (scReport sc) \<subseteq> set evs" "set (concat (map trReport trs)) \<subseteq> set evs"
proof -
  from assms obtain order v where "mset evs = mset (scReport sc @ concat (map trReport trs) @
      clReport (Cleaner_Run bulk jobs cancelled' (scIncomplete sc) order infos v))"
    unfolding mainRun_def by blast
  then have "set evs = set (scReport sc @ concat (map trReport trs) @
      clReport (Cleaner_Run bulk jobs cancelled' (scIncomplete sc) order infos v))" by (metis set_mset_mset)
  then show "set (scReport sc) \<subseteq> set evs" "set (concat (map trReport trs)) \<subseteq> set evs" by auto
qed

text \<open>The report of a transferor shows the failures among its infos.\<close>

lemma failed_infos_reported:
  assumes "paired infos evs" "i \<in> set infos" "fiFailed i"
  shows "\<exists>e\<in>set evs. failing e"
proof -
  from assms(2) obtain n where n: "n < length infos" "infos ! n = i" by (metis in_set_conv_nth)
  with assms(1,3) have "n < length evs" "\<not> evIsDirectory (evs ! n)" "IsFile (evs ! n)" "FileTransferResult (evs ! n) = TransferFailed"
    by (auto simp: paired_def list_all2_conv_all_nth)
  then show ?thesis by (intro bexI[of _ "evs ! n"]) (auto simp: failing_def)
qed

section \<open>What success means\<close>

text \<open>
  The exit code 0 means that everything was mirrored: if no job was skipped, every file that is listed
  at the source in included directories, and is included itself, has gone through the pipeline, and its
  last transfer did not fail.
\<close>

lemma run_exit_code_zero:
  assumes "mainRun jobs perform bulk cancelled cancelled' w sc trs infos evs 0" "length evs < 2 ^ 64"
    and "JobsSkipped (Report_stats evs) = 0" "\<not> cancelled (scWorld sc)"
    and "j < length jobs" "stable_source (jbSource (jobs ! j)) ents" "listed_file (accepted jobs j) ents fs"
  shows "\<exists>i\<in>set infos. fiFile i = (j, fs) \<and> \<not> fiFailed i"
proof -
  from assms(1) obtain inputs where p: "pipelineRun jobs perform cancelled w sc inputs trs infos" by (auto simp: mainRun_def)
  then have run: "Scraper_Run jobs cancelled w = Some sc"
    and trs: "list_all2 (\<lambda>(evs, w') tr. Transferor_Run perform cancelled evs w' = Ret tr) inputs trs"
    and infos: "mset infos = mset (concat (map trOutput trs))" by (simp_all add: pipelineRun_def)
  have quiet: "\<not> failing e" if "e \<in> set evs" for e
    using assms(1) Report_ExitCode_failing[OF assms(2)] that by (auto simp: mainRun_def split: if_splits)
  have "jobSkippedEvent \<notin> set evs" using JobsSkipped_pos[OF assms(2)] assms(3) by auto
  then have "\<not> trouble e" if "e \<in> set (scReport sc)" for e
    using quiet[of e] run_events(1)[OF assms(1)] that by (auto simp: trouble_def failing_def)
  with Scraper_Run_ok(1)[OF run] have "scIncomplete sc = {}" by (auto simp: scraper_ok_def)
  then have "(j, fs) \<in> set (scOutput sc)" using Scraper_Run_complete[OF run assms(5,6) _ assms(4,7)] by simp
  then have "(j, fs) \<in> set (map fiFile infos)" using pipeline_files[OF p] by (metis set_mset_mset)
  then obtain i where i: "i \<in> set infos" "fiFile i = (j, fs)" by auto
  from infos have "set infos = set (concat (map trOutput trs))" by (metis set_mset_mset)
  with i(1) obtain tr where tr: "tr \<in> set trs" "i \<in> set (trOutput tr)" by auto
  from trs tr(1) obtain es w' where "Transferor_Run perform cancelled es w' = Ret tr"
    by (auto simp: list_all2_conv_all_nth in_set_conv_nth split: prod.splits) (metis surj_pair)
  from failed_infos_reported[OF Transferor_Run_files(2)[OF this] tr(2)] quiet run_events(2)[OF assms(1)] tr(1)
  have "\<not> fiFailed i" by auto
  with i show ?thesis by blast
qed

end
