(* ===== verification/Mirror.thy ===== *)
theory Mirror
  imports FileClaims
begin

text \<open>
  What a transfer does to the contents of the target, by the contracts of the two sides: a store that
  keeps what is uploaded, and a source that delivers its files. A Swift location is such a source, so
  that a Swift container can be mirrored to another one.
\<close>

section \<open>A Swift location as a source\<close>

definition swiftSource :: "('w, 'r, 'lo) swift \<Rightarrow> SwiftLocation \<Rightarrow> ('w, 'r) Source" where
  "swiftSource sw s =
     \<lparr>srcListAllFiles = SwiftLocation_ListAllFiles sw s,
      srcListEntries = (\<lambda>p w. (w, SwiftLocation_ListEntries s p)),
      srcGetFile = SwiftLocation_GetFile sw s\<rparr>"

text \<open>What is read from a body up to its end, which may depend on the reads; nothing from a nil body.\<close>

definition bodyReads :: "('r \<Rightarrow> bytes \<Rightarrow> bool) \<Rightarrow> 'r option \<Rightarrow> bytes \<Rightarrow> bool" where
  "bodyReads body r bs = (case r of None \<Rightarrow> bs = [] | Some q \<Rightarrow> body q bs)"

section \<open>The contracts\<close>

text \<open>
  What Swift promises for contents: \<open>content w obj\<close> are the bytes of an object, \<open>body w r bs\<close>
  says that reading the body \<open>r\<close> to its end can give \<open>bs\<close>, and \<open>segments w lo\<close> those appended so far to the large object \<open>lo\<close>,
  which will be the object \<open>target lo\<close>.
\<close>

locale object_store =
  fixes sw :: "('w, 'r, 'lo) swift"
    and content :: "'w \<Rightarrow> object \<Rightarrow> bytes option"
    and body :: "'w \<Rightarrow> 'r \<Rightarrow> bytes \<Rightarrow> bool"
    and segments :: "'w \<Rightarrow> 'lo \<Rightarrow> bytes"
    and target :: "'lo \<Rightarrow> object"
  assumes support: "content (fst (swSymlinkSupport sw a w)) = content w"
    and head: "content (fst (swSymlinkHeaders sw obj w)) = content w"
    and upload: "swUpload sw obj r del h w = (w', None) \<Longrightarrow>
      \<exists>bs. bodyReads (body w) r bs \<and> content w' obj = Some bs"
    and large: "swAsNewLargeObject sw obj c del w = (w', Inr lo) \<Longrightarrow>
      target lo = obj \<and> segments w' lo = [] \<and> (\<forall>q bs. body w' q bs \<longrightarrow> body w q bs)"
    and append: "swAppend sw lo r sz h w = (w', None) \<Longrightarrow>
      \<exists>bs. bodyReads (body w) r bs \<and> segments w' lo = segments w lo @ bs"
    and manifest: "swWriteManifest sw lo h w = (w', None) \<Longrightarrow> content w' (target lo) = Some (segments w lo)"
    and close: "content (swCloseBody sw q w) = content w"
    and reader: "swBytesReader sw b w = (w', q) \<Longrightarrow> body w' q bs \<Longrightarrow> bs = b"
begin

lemma closeBody_content: "content (closeBody sw r w) = content w"
  by (simp add: closeBody_def close split: option.split)

lemma bodyReads_mono: "\<forall>q bs. body w' q bs \<longrightarrow> body w q bs \<Longrightarrow> bodyReads (body w') r bs \<Longrightarrow> bodyReads (body w) r bs"
  by (auto simp: bodyReads_def split: option.splits)

lemma uploadNormalObject_content:
  assumes "uploadNormalObject sw job spec r hdr large w = (w', True)"
  shows "\<exists>bs. bodyReads (body w) r bs \<and> content w' (TargetObject job spec) = Some bs"
proof -
  from assms have "swUpload sw (TargetObject job spec) r large hdr w = (w', None)"
    by (auto simp: uploadNormalObject_def Let_def split: prod.splits option.splits if_splits)
  then show ?thesis by (rule upload)
qed

lemma uploadLargeObject_content:
  assumes "uploadLargeObject sw job sg spec r hdr old w = (w', True)"
  shows "\<exists>bs. bodyReads (body w) r bs \<and> content w' (TargetObject job spec) = Some bs"
proof -
  from assms have "writeLargeObject sw sg (TargetObject job spec) r hdr old w = (w', None)"
    by (auto simp: uploadLargeObject_def Let_def split: prod.splits option.splits)
  then obtain w1 lo w2 where
    "swAsNewLargeObject sw (TargetObject job spec) (sgContainer sg) old w = (w1, Inr lo)"
    "swAppend sw lo r (SegmentSize sg) (xDeleteAtHeader sw hdr) w1 = (w2, None)"
    "swWriteManifest sw lo hdr w2 = (w', None)"
    by (auto simp: writeLargeObject_def split: prod.splits sum.splits option.splits)
  note steps = this
  from large[OF steps(1)] have l: "target lo = TargetObject job spec" "segments w1 lo = []"
    "\<forall>q bs. body w1 q bs \<longrightarrow> body w q bs" by simp_all
  from append[OF steps(2)] l(2) obtain bs where bs: "bodyReads (body w1) r bs" "segments w2 lo = bs" by auto
  from bodyReads_mono[OF l(3) bs(1)] manifest[OF steps(3)] l(1) bs(2) show ?thesis by auto
qed

lemma uploadFile_content:
  "uploadFile sw job spec r st old w = (w', True) \<Longrightarrow>
     \<exists>bs. bodyReads (body w) r bs \<and> content w' (TargetObject job spec) = Some bs"
  by (auto simp: uploadFile_def intro: uploadNormalObject_content uploadLargeObject_content
      split: option.splits if_splits)

end

text \<open>What a source promises: \<open>files w path\<close> are the bytes of a file, and all that can be read
  to the end of a body that is not skipped.\<close>

locale file_source =
  fixes src :: "('w, 'r) Source"
    and body :: "'w \<Rightarrow> 'r \<Rightarrow> bytes \<Rightarrow> bool"
    and files :: "'w \<Rightarrow> string \<Rightarrow> bytes option"
  assumes get: "srcGetFile src path h w = (w', Inr (r, st)) \<Longrightarrow> \<not> fsSkipTransfer st \<Longrightarrow>
    bodyReads (body w') r bs \<Longrightarrow> files w path = Some bs"

text \<open>The bytes that a file should have at the target.\<close>

definition wanted :: "('w \<Rightarrow> string \<Rightarrow> bytes option) \<Rightarrow> FileSpec \<Rightarrow> 'w \<Rightarrow> bytes option" where
  "wanted files spec w =
     (case Contents spec of
        Some c \<Rightarrow> Some c
      | None \<Rightarrow> files w (if DownloadPath spec \<noteq> [] then DownloadPath spec else Path spec))"

text \<open>A source and a target; asking the target for an object does not change the files of the source.\<close>

locale mirror = object_store sw content body segments target + file_source src body files
  for sw :: "('w, 'r, 'lo) swift" and content body segments target and src :: "('w, 'r) Source" and files +
  assumes support_file: "files (fst (swSymlinkSupport sw a w)) = files w"
    and head_file: "files (fst (swSymlinkHeaders sw obj w)) = files w"
begin

lemma getContents_wanted:
  assumes "getContents sw pt job spec h w = (w', Inr (r, st))" "\<not> fsSkipTransfer st" "jbSource job = src"
    and "bodyReads (body w') r bs"
  shows "wanted files spec w = Some bs"
proof (cases "Contents spec")
  case None
  with assms get show ?thesis by (auto simp: getContents_def wanted_def)
next
  case (Some c)
  with assms(1) obtain b q where "toTransferFormat pt spec c h = Inr (b, st)" "swBytesReader sw b w = (w', q)" "r = Some q"
    by (auto simp: getContents_def split: sum.splits prod.splits)
  moreover from this have "b = c" by (auto simp: toTransferFormat_def Let_def split: if_splits sum.splits)
  ultimately show ?thesis using Some reader[of c w w' q bs] assms(4) by (simp add: wanted_def bodyReads_def)
qed

lemma transferContents_content:
  assumes "transferContents sw pt job spec hdr w = (w', Ret (TransferSuccess, n))" "jbSource job = src"
  shows "content w' (TargetObject job spec) = wanted files spec w"
proof -
  from assms(1) obtain w1 r st where
    g: "getContents sw pt job spec (requestHeadersFor (jbMatcher job) hdr) w = (w1, Inr (r, st))"
    by (auto simp: transferContents_def split: prod.splits sum.splits)
  with assms(1) obtain w2 where s: "\<not> fsSkipTransfer st"
    and u: "uploadFile sw job spec r st (isLargeObject hdr) w1 = (w2, True)" and w': "w' = closeBody sw r w2"
    by (auto simp: transferContents_def split: if_splits prod.splits option.splits)
  from uploadFile_content[OF u] obtain bs where
    bs: "bodyReads (body w1) r bs" "content w2 (TargetObject job spec) = Some bs" by blast
  with getContents_wanted[OF g s assms(2) bs(1)] show ?thesis by (simp add: w' closeBody_content)
qed

lemma PerformTransfer_content:
  assumes "PerformTransfer sw pt job spec w = (w', Ret (TransferSuccess, n))" "jbSource job = src"
    and "SymlinkTargetPath spec = []"
  shows "content w' (TargetObject job spec) = wanted files spec w"
proof -
  have im: "\<not> immutable job spec" using assms(1) by (auto simp: PerformTransfer_def split: if_splits)
  obtain w1 b where sup: "swSymlinkSupport sw (cnAccount (the (Container (jbTarget job)))) w = (w1, b)" by fastforce
  obtain w2 x where hd: "swSymlinkHeaders sw (TargetObject job spec) w1 = (w2, x)" by fastforce
  from assms(1,3) im sup hd obtain hdr where
    "transferContents sw pt job spec hdr w2 = (w', Ret (TransferSuccess, n))"
    by (auto simp: PerformTransfer_def Let_def split: prod.splits sum.splits option.splits if_splits)
  from transferContents_content[OF this assms(2)] have "content w' (TargetObject job spec) = wanted files spec w2" .
  moreover have "files w2 = files w"
    using support_file[of "cnAccount (the (Container (jbTarget job)))" w] head_file[of "TargetObject job spec" w1] sup hd
    by simp
  then have "wanted files spec w2 = wanted files spec w" by (simp only: wanted_def)
  ultimately show ?thesis by simp
qed

end

text \<open>
  A file is only skipped if it is immutable and there, or if the source, asked under the conditions that
  the headers of the target object give, says that there is nothing new.
\<close>

definition headersFound :: "goerror + headers \<times> object option \<Rightarrow> headers \<Rightarrow> bool" where
  "headersFound x hdr \<longleftrightarrow>
     (case x of Inl err \<Rightarrow> schwift_is err StatusNotFound \<and> hdr = Map.empty | Inr y \<Rightarrow> hdr = fst y)"

definition reported_unchanged ::
  "('w, 'r, 'lo) swift \<Rightarrow> (string \<Rightarrow> goerror + gotime) \<Rightarrow> ('w, 'r) Job \<Rightarrow> FileSpec \<Rightarrow> 'w \<Rightarrow> bool" where
  "reported_unchanged sw pt job spec w \<longleftrightarrow>
     (\<exists>w1 x hdr w2 r st.
        swSymlinkHeaders sw (TargetObject job spec)
          (fst (swSymlinkSupport sw (cnAccount (the (Container (jbTarget job)))) w)) = (w1, x) \<and>
        headersFound x hdr \<and>
        getContents sw pt job spec (requestHeadersFor (jbMatcher job) hdr) w1 = (w2, Inr (r, st)) \<and>
        fsSkipTransfer st)"

lemma skipped_transfer_reason:
  assumes "PerformTransfer sw pt job spec w = (w', Ret (TransferSkipped, n))" "SymlinkTargetPath spec = []"
  shows "immutable job spec \<or> reported_unchanged sw pt job spec w"
proof (cases "immutable job spec")
  case False
  obtain w1 y where sup: "swSymlinkSupport sw (cnAccount (the (Container (jbTarget job)))) w = (w1, y)" by fastforce
  obtain w2 x where hd: "swSymlinkHeaders sw (TargetObject job spec) w1 = (w2, x)" by fastforce
  from assms False sup hd have "\<exists>hdr. headersFound x hdr \<and>
      transferContents sw pt job spec hdr w2 = (w', Ret (TransferSkipped, n))"
    by (auto simp: PerformTransfer_def headersFound_def Let_def split: prod.splits sum.splits option.splits if_splits)
  then obtain hdr where hdr: "headersFound x hdr"
    and t: "transferContents sw pt job spec hdr w2 = (w', Ret (TransferSkipped, n))" by blast
  from t obtain v2 r st where
    "getContents sw pt job spec (requestHeadersFor (jbMatcher job) hdr) w2 = (v2, Inr (r, st))" "fsSkipTransfer st"
    by (auto simp: transferContents_def split: prod.splits sum.splits option.splits if_splits)
  with sup hd hdr have "reported_unchanged sw pt job spec w" unfolding reported_unchanged_def by auto
  then show ?thesis ..
qed simp

text \<open>A store from which objects can also be downloaded; each of its locations is a source.\<close>

locale readable_store = object_store +
  assumes download: "swDownload sw obj h w = (w', Inr q) \<Longrightarrow> body w' q bs \<Longrightarrow> content w obj = Some bs"
    and header_body: "body (fst (swHeaders sw obj w)) q bs \<Longrightarrow> body w q bs"

sublocale readable_store \<subseteq> location: mirror sw content body segments target "swiftSource sw s"
  "\<lambda>w path. content w (ObjectAtPath s path)" for s
proof unfold_locales
  fix path h w w' r st bs
  assume "srcGetFile (swiftSource sw s) path h w = (w', Inr (r, st))" "\<not> fsSkipTransfer st"
    and bs: "bodyReads (body w') r bs"
  then obtain w1 q x where d: "swDownload sw (ObjectAtPath s path) h w = (w1, Inr q)" "r = Some q"
    "swHeaders sw (ObjectAtPath s path) w1 = (w', x)"
    by (auto simp: swiftSource_def SwiftLocation_GetFile_def skipState_def split: prod.splits sum.splits if_splits)
  with bs header_body[of "ObjectAtPath s path" w1] have "body w1 q bs" by (auto simp: bodyReads_def)
  with download[OF d(1)] show "content w (ObjectAtPath s path) = Some bs" by simp
qed (simp_all add: support head)

context readable_store
begin

text \<open>The listing entry of an object leads back to the object.\<close>

lemma listed_object_content:
  assumes "jbSource job = swiftSource sw s" "oiSubDirectory info = []" "oiSymlinkTarget info = None"
    and "oiObject info = \<lparr>obContainer = the (Container s), obName = ObjectNamePrefix s @ p\<rparr>" "\<not> hasPrefix p ''/''"
    and "PerformTransfer sw pt job (getFileSpec s info) w = (w', Ret (TransferSuccess, n))"
  shows "content w' (ObjectAtPath (jbTarget job) p) = content w (oiObject info)"
proof -
  have spec: "SymlinkTargetPath (getFileSpec s info) = []" "Contents (getFileSpec s info) = None"
    "DownloadPath (getFileSpec s info) = []" "Path (getFileSpec s info) = p"
    using assms(2-4) by (simp_all add: getFileSpec_def Let_def trimPrefix_def hasPrefix_def)
  moreover have "ObjectAtPath s p = oiObject info"
    using assms(4,5) by (simp add: ObjectAtPath_def objectNameAt_def trimPrefix_def)
  ultimately show ?thesis
    using location.PerformTransfer_content[OF assms(6,1) spec(1)]
    by (simp add: wanted_def TargetObject_def)
qed

end


interpretation mem_store: readable_store mem_swift
  "\<lambda>w obj. map_option stBody (map_of (stObjects w) obj)" "\<lambda>w b bs. bs = b" stPending "\<lambda>lo. lo"
  by unfold_locales
    (auto simp: mem_swift_def store_head_def store_put_def bodyReads_def split: option.splits)

section \<open>Properties\<close>

text \<open>C9: a transfer copies the file. Let the target keep what is uploaded to it and let the source deliver its
  files (the locale \<open>mirror\<close>). Then after each successful transfer of a file that is not a symlink,
  whether its contents come from the source or from the listing and whether it is uploaded as a whole
  or in segments, the target object has exactly the bytes of the file.\<close>

theorem transfer_copies:
  assumes "mirror sw content body segments target (jbSource job) files" "SymlinkTargetPath spec = []"
    and "PerformTransfer sw pt job spec w = (w', Ret (TransferSuccess, n))"
  shows "content w' (TargetObject job spec) = wanted files spec w"
  using mirror.PerformTransfer_content[OF assms(1,3) refl assms(2)] .

text \<open>C36: a Swift container is mirrored to another one. Take a store from which objects can be downloaded, and a job
  whose source is the location s. For an object of the source that is listed, is not a symlink and
  has no slash right after the prefix of the location, a successful transfer of its listing entry
  gives the target object the bytes of the listed object.\<close>

theorem swift_mirror:
  assumes "readable_store sw content body segments target" "jbSource job = swiftSource sw s"
    and "oiSubDirectory info = []" "oiSymlinkTarget info = None"
    and "oiObject info = \<lparr>obContainer = the (Container s), obName = ObjectNamePrefix s @ p\<rparr>" "\<not> hasPrefix p ''/''"
    and "PerformTransfer sw pt job (getFileSpec s info) w = (w', Ret (TransferSuccess, n))"
  shows "content w' (ObjectAtPath (jbTarget job) p) = content w (oiObject info)"
  by (rule readable_store.listed_object_content[OF assms])


text \<open>Why a slash after the prefix is excluded: such an object is read under the name of another one.\<close>

lemma slash_object_misread:
  assumes "oiSubDirectory info = []" "oiObject info = \<lparr>obContainer = c, obName = ObjectNamePrefix s @ ''/'' @ p\<rparr>"
  shows "obName (ObjectAtPath s (Path (getFileSpec s info))) = ObjectNamePrefix s @ p"
  using assms
  by (auto simp: getFileSpec_def ObjectAtPath_def objectNameAt_def trimPrefix_def hasPrefix_def Let_def
      split: option.split)

section \<open>A transfer between two locations\<close>

definition source_location :: SwiftLocation where
  "source_location = demo_location\<lparr>ObjectNamePrefix := ''y/''\<rparr>"

definition mirror_job :: "(store, bytes) Job" where
  "mirror_job = demo_job\<lparr>jbSource := swiftSource mem_swift source_location\<rparr>"

definition source_object :: object where
  "source_object = \<lparr>obContainer = demo_container, obName = ''y/a''\<rparr>"

definition source_info :: objectInfo where
  "source_info = \<lparr>oiSubDirectory = [], oiObject = source_object, oiLastModified = 7, oiSymlinkTarget = None\<rparr>"

definition source_store :: store where
  "source_store = store_put source_object \<lparr>stHeaders = Map.empty, stBody = [1, 2], stLink = None\<rparr> empty_store"

lemma source_spec: "getFileSpec source_location source_info = (fileSpec ''a'')\<lparr>LastModified := Some 7\<rparr>"
  by (simp add: getFileSpec_def source_info_def source_object_def source_location_def trimPrefix_def hasPrefix_def)

lemma mirror_run:
  "\<exists>w' n. PerformTransfer mem_swift pt mirror_job (getFileSpec source_location source_info) source_store =
     (w', Ret (TransferSuccess, n))"
proof -
  let ?spec = "(fileSpec ''a'')\<lparr>LastModified := Some 7\<rparr>"
  have objs: "TargetObject mirror_job ?spec = \<lparr>obContainer = demo_container, obName = ''x/a''\<rparr>"
    "ObjectAtPath source_location ''a'' = source_object"
    by (simp_all add: TargetObject_def ObjectAtPath_def objectNameAt_def mirror_job_def demo_job_def demo_location_def
        source_location_def source_object_def trimPrefix_def hasPrefix_def)
  have get: "srcGetFile (jbSource mirror_job) ''a'' h source_store =
      (source_store, Inr (Some [1, 2], \<lparr>fsEtag = [], fsLastModified = [], fsSizeBytes = Some (sizeBytes_get Map.empty),
        fsExpiryTime = None, fsSkipTransfer = False, fsContentType = []\<rparr>))" for h
    by (simp add: mirror_job_def swiftSource_def SwiftLocation_GetFile_def objs(2) mem_swift_def source_store_def
        store_put_def store_head_def expiresAt_exists_def headers_get_def)
  have none: "store_head \<lparr>obContainer = demo_container, obName = ''x/a''\<rparr> source_store = (source_store, Inl not_found)"
    by (simp add: store_head_def source_store_def store_put_def source_object_def empty_store_def)
  have "\<not> immutable mirror_job ?spec" by (simp add: immutable_def mirror_job_def demo_job_def)
  moreover have "jbSegmenting mirror_job = None" by (simp add: mirror_job_def demo_job_def)
  ultimately show ?thesis
    unfolding source_spec
    by (simp add: PerformTransfer_def objs(1) none not_found_def StatusNotFound_def transferContents_def
        getContents_def get uploadFile_normal uploadNormalObject_def closeBody_def)
qed

theorem transfer_copies_witness:
  "\<exists>w' n. PerformTransfer mem_swift (\<lambda>t. Inr 0) mirror_job (fileSpec ''a'' \<lparr>LastModified := Some 7\<rparr>) source_store =
       (w', Ret (TransferSuccess, n)) \<and>
     map_option stBody (map_of (stObjects w') (TargetObject mirror_job (fileSpec ''a'' \<lparr>LastModified := Some 7\<rparr>))) =
       Some [1, 2]"
proof -
  let ?spec = "(fileSpec ''a'')\<lparr>LastModified := Some 7\<rparr>"
  obtain w' n where t: "PerformTransfer mem_swift (\<lambda>t. Inr 0) mirror_job ?spec source_store = (w', Ret (TransferSuccess, n))"
    using mirror_run[of "\<lambda>t. Inr 0"] unfolding source_spec by (elim exE) (rule that)
  have src: "jbSource mirror_job = swiftSource mem_swift source_location" by (simp add: mirror_job_def)
  have m: "mirror mem_swift (\<lambda>w obj. map_option stBody (map_of (stObjects w) obj)) (\<lambda>w b bs. bs = b) stPending (\<lambda>lo. lo)
      (jbSource mirror_job) (\<lambda>w path. map_option stBody (map_of (stObjects w) (ObjectAtPath source_location path)))"
    unfolding src by (rule mem_store.location.mirror_axioms)
  have "ObjectAtPath source_location ''a'' = source_object"
    by (simp add: ObjectAtPath_def objectNameAt_def demo_location_def source_location_def source_object_def
        trimPrefix_def hasPrefix_def)
  with transfer_copies[OF m _ t] have
    "map_option stBody (map_of (stObjects w') (TargetObject mirror_job ?spec)) = Some [1, 2]"
    by (simp add: wanted_def source_store_def store_put_def)
  with t show ?thesis by (intro exI conjI)
qed

theorem swift_mirror_witness:
  "\<exists>w' n. PerformTransfer mem_swift (\<lambda>t. Inr 0) mirror_job (getFileSpec source_location source_info) source_store =
       (w', Ret (TransferSuccess, n)) \<and>
     map_option stBody (map_of (stObjects w') (ObjectAtPath demo_location ''a'')) = Some [1, 2]"
proof -
  obtain w' n where t: "PerformTransfer mem_swift (\<lambda>t. Inr 0) mirror_job (getFileSpec source_location source_info)
      source_store = (w', Ret (TransferSuccess, n))"
    using mirror_run[of "\<lambda>t. Inr 0"] by (elim exE) (rule that)
  have h: "jbSource mirror_job = swiftSource mem_swift source_location" "jbTarget mirror_job = demo_location"
    "oiSubDirectory source_info = []" "oiSymlinkTarget source_info = None"
    "oiObject source_info = \<lparr>obContainer = the (Container source_location), obName = ObjectNamePrefix source_location @ ''a''\<rparr>"
    "\<not> hasPrefix ''a'' ''/''"
    by (simp_all add: mirror_job_def demo_job_def source_info_def source_object_def source_location_def demo_location_def
        hasPrefix_def)
  have "map_option stBody (map_of (stObjects w') (ObjectAtPath demo_location ''a'')) =
      map_option stBody (map_of (stObjects source_store) (oiObject source_info))"
    using swift_mirror[OF mem_store.readable_store_axioms h(1,3,4,5,6) t] h(2) by simp
  also have "\<dots> = Some [1, 2]" by (simp add: source_info_def source_store_def store_put_def)
  finally show ?thesis using t by (intro exI conjI)
qed

end
