(* ===== verification/UrlClaims.thy ===== *)
theory UrlClaims
  imports UrlSource DownloadClaims
begin

text \<open>
  The properties of \<^verbatim>\<open>URLSource\<close>: which links of a page are listed, when a listing fails, what
  \<^verbatim>\<open>GetFile\<close> returns, and what a validated source looks like.
\<close>

section \<open>The expression for parent references\<close>

definition starts_dotdot :: "string \<Rightarrow> bool" where
  "starts_dotdot s \<longleftrightarrow> takeWhile (\<lambda>c. c \<noteq> CHR ''/'') s = ''..''"

lemma hd_split_on: "hd (split_on c s) = takeWhile (\<lambda>x. x \<noteq> c) s"
  by (induction s) auto

lemma tl_split_on:
  "tl (split_on c (x # xs)) = (if x = c then split_on c xs else tl (split_on c xs))"
  by simp

lemma matches_dotdot:
  "matches (Seq (Lit ''..'') (Alt Eol (Lit ''/''))) (p, s) \<noteq> [] \<longleftrightarrow> starts_dotdot s"
proof (cases s)
  case (Cons a s')
  then show ?thesis
    by (cases s'; cases "tl s'") (auto simp: starts_dotdot_def hasPrefix_def takeWhile_Nil_iff)
qed (simp add: starts_dotdot_def hasPrefix_def)

lemma matches_Seq_empty_iff:
  "matches (Seq a b) q = [] \<longleftrightarrow> (\<forall>(q', g) \<in> set (matches a q). matches b q' = [])"
  by (auto simp: concat_eq_Nil_conv)

lemma matches_dotdotRx:
  "matches dotdotRx (p, s) \<noteq> [] \<longleftrightarrow>
     p = None \<and> starts_dotdot s \<or> (\<exists>t. s = CHR ''/'' # t \<and> starts_dotdot t)"
proof -
  let ?r = "Seq (Lit ''..'') (Alt Eol (Lit ''/''))"
  have "matches dotdotRx (p, s) \<noteq> [] \<longleftrightarrow>
      p = None \<and> matches ?r (p, s) \<noteq> [] \<or> (\<exists>t. s = CHR ''/'' # t \<and> matches ?r (Some (CHR ''/''), t) \<noteq> [])"
    unfolding dotdotRx_def seqs.simps matches_Seq_empty_iff[of "Alt Bol (Lit ''/'')"]
    by (cases s) (auto simp: hasPrefix_def advance_def simp del: matches.simps(4))
  then show ?thesis by (simp only: matches_dotdot)
qed

lemma find_from_dotdot:
  "find_from dotdotRx p s \<noteq> None \<longleftrightarrow>
     (if p = None then ''..'' \<in> set (split_on (CHR ''/'') s)
      else ''..'' \<in> set (tl (split_on (CHR ''/'') s)))"
proof (induction s arbitrary: p)
  case Nil
  have "matches dotdotRx (p, []) = []" using matches_dotdotRx[of p "[]"] by (simp add: starts_dotdot_def)
  then show ?case by simp
next
  case (Cons c s)
  have "find_from dotdotRx p (c # s) \<noteq> None \<longleftrightarrow>
      matches dotdotRx (p, c # s) \<noteq> [] \<or> find_from dotdotRx (Some c) s \<noteq> None"
    by (auto split: list.split)
  moreover have "set (split_on (CHR ''/'') t) =
      insert (takeWhile (\<lambda>x. x \<noteq> CHR ''/'') t) (set (tl (split_on (CHR ''/'') t)))" for t
    by (metis hd_split_on list.collapse list.simps(15) split_on_nonempty)
  ultimately show ?case
    unfolding matches_dotdotRx Cons.IH by (auto simp: starts_dotdot_def hd_split_on simp del: find_from.simps)
qed

lemma dotdot_iff: "match_string dotdotRx p \<longleftrightarrow> ''..'' \<in> set (split_on (CHR ''/'') p)"
  using find_from_dotdot[of None p] by (simp add: match_string_def find_submatch_def)

section \<open>Listed links\<close>

text \<open>The links that a page lists: relative, within the directory, without query and fragment.\<close>

definition listed_link :: "url \<Rightarrow> bool" where
  "listed_link h \<longleftrightarrow>
     uScheme h = [] \<and> uHost h = [] \<and> uRawQuery h = [] \<and> uFragment h = [] \<and>
     \<not> hasPrefix (uPath h) ''/'' \<and> ''..'' \<notin> set (split_on (CHR ''/'') (uPath h))"

lemma hasSuffix_char: "hasSuffix s [c] \<longleftrightarrow> s \<noteq> [] \<and> last s = c"
  by (auto simp: hasSuffix_iff) (metis append_butlast_last_id)

lemma clean_no_trailing_slash:
  assumes "\<not> hasPrefix p ''/''"
  shows "\<not> hasSuffix (clean p) ''/''"
proof -
  have "list_all good_comp (clean_comps p)"
    using clean_comps_clean_list[of p] assms by (simp add: clean_list_def)
  moreover have "\<not> hasSuffix (join ''/'' cs) ''/''" if "list_all good_comp cs" for cs
    using that
  proof (induction "''/''" cs rule: join.induct)
    case (2 x)
    then show ?case by (auto simp: hasSuffix_char good_comp_def) (metis last_in_set)
  next
    case (3 x y ys)
    moreover from 3 have "join ''/'' (y # ys) \<noteq> []" using join_good_empty[of "y # ys"] by simp
    ultimately show ?case by (simp add: hasSuffix_char)
  qed (simp add: hasSuffix_char)
  ultimately show ?thesis using assms by (auto simp: clean_def Let_def hasSuffix_def hasPrefix_def)
qed

definition linkPathOf :: "url \<Rightarrow> string" where
  "linkPathOf h = clean (uPath h) @ (if hasSuffix (uPath h) ''/'' then ''/'' else [])"

definition linkSpec :: "string \<Rightarrow> url \<Rightarrow> FileSpec" where
  "linkSpec directoryPath h =
     (fileSpec (path_join [directoryPath, linkPathOf h]))\<lparr>IsDirectory := hasSuffix (uPath h) ''/''\<rparr>"

lemma hasSuffix_linkPath:
  "\<not> hasPrefix (uPath h) ''/'' \<Longrightarrow> hasSuffix (linkPathOf h) ''/'' = hasSuffix (uPath h) ''/''"
  using clean_no_trailing_slash[of "uPath h"] by (simp add: linkPathOf_def)

lemma linkEntry_eq:
  assumes "wbParse web href = Inr h"
  shows "linkEntry web dir href = (if href \<noteq> [] \<and> listed_link h then [linkSpec dir h] else [])"
proof (cases "listed_link h")
  case True
  then have "\<not> hasPrefix (uPath h) ''/''" by (simp add: listed_link_def)
  with True assms show ?thesis
    by (simp add: linkEntry_def listed_link_def dotdot_iff linkSpec_def Let_def
        hasSuffix_linkPath flip: linkPathOf_def del: path_join.simps)
next
  case False
  with assms show ?thesis by (auto simp: linkEntry_def listed_link_def dotdot_iff)
qed

lemma linkEntry_set:
  "f \<in> set (linkEntry web dir href) \<longleftrightarrow>
     href \<noteq> [] \<and> (\<exists>h. wbParse web href = Inr h \<and> listed_link h \<and> f = linkSpec dir h)"
proof (cases "wbParse web href")
  case (Inr h)
  then show ?thesis by (auto simp: linkEntry_eq)
qed (simp add: linkEntry_def)

lemma set_collectLinks:
  "set (collectLinks web dir ts) =
     {f. \<exists>t\<in>set ts. hrefOf t \<noteq> [] \<and> (\<exists>h. wbParse web (hrefOf t) = Inr h \<and> listed_link h \<and> f = linkSpec dir h)}"
proof (induction ts)
  case (Cons t ts)
  then show ?case by (intro set_eqI) (auto simp: linkEntry_set)
qed simp

lemma linkSpec_below:
  assumes "dir \<noteq> []" "listed_link h"
  shows "clean_comps (Path (linkSpec dir h)) = clean_comps dir @ plain_comps (uPath h)"
    and "clean (Path (linkSpec dir h)) = Path (linkSpec dir h)"
proof -
  from assms(2) have p: "\<not> hasPrefix (uPath h) ''/''" "''..'' \<notin> set (split_on (CHR ''/'') (uPath h))"
    by (simp_all add: listed_link_def)
  note c = plain_comps_clean[OF p(2,1)]
  have "''..'' \<notin> set (split_on (CHR ''/'') (linkPathOf h))"
    using c(2) split_on_append[of "CHR ''/''" "clean (uPath h)" "[]"] by (simp add: linkPathOf_def)
  from path_join_below[OF assms(1) this]
  show "clean_comps (Path (linkSpec dir h)) = clean_comps dir @ plain_comps (uPath h)"
    using c(1) by (simp add: linkSpec_def linkPathOf_def)
  show "clean (Path (linkSpec dir h)) = Path (linkSpec dir h)"
    using assms(1) by (simp add: linkSpec_def clean_idem)
qed

section \<open>A web site\<close>

text \<open>
  A site to try the properties out: a map from URLs to the content type, the bytes and the tokens of
  a document, URLs that are a host with a path, and no clients but the default one.
\<close>

type_synonym document = "bytes \<times> html_token list"
type_synonym site = "string \<rightharpoonup> string \<times> document"

definition site_response :: "nat \<Rightarrow> string \<Rightarrow> document \<Rightarrow> document response" where
  "site_response code contentType doc =
     \<lparr>resp_status = (if code = StatusOK then ''200 OK'' else ''404 Not Found''), resp_code = code,
      resp_header = header_set no_header ''Content-Type'' contentType,
      resp_length = of_nat (length (fst doc)), resp_body = doc\<rparr>"

definition site_client :: "site \<Rightarrow> ('w, document) client" where
  "site_client site =
     \<lparr>cl_newRequest = (\<lambda>uri. None),
      cl_do = (\<lambda>w req. (w, Inr (case site (req_uri req) of
         None \<Rightarrow> site_response 404 ''text/plain'' ([], [])
       | Some (contentType, doc) \<Rightarrow> site_response 200 contentType doc))),
      cl_read = (\<lambda>doc n. (take n (fst doc), if fst doc = [] then Some EOF else None, (drop n (fst doc), snd doc))),
      cl_close = (\<lambda>doc. None)\<rparr>"

definition site_web :: "site \<Rightarrow> ('w, document) web" where
  "site_web site =
     \<lparr>wbParse = (\<lambda>s. Inr (path_url s)),
      wbResolve = (\<lambda>base ref. base\<lparr>uPath := uPath base @ uPath ref\<rparr>),
      wbString = (\<lambda>u. ''http://'' @ uHost u @ uPath u),
      wbClient = (\<lambda>c. site_client site),
      wbReadAll = (\<lambda>doc. (fst doc, None)),
      wbTokens = snd, wbVersion = ''1.0''\<rparr>"

lemma site_web_sel [simp]:
  "wbParse (site_web site) href = Inr (path_url href)" "wbClient (site_web site) c = site_client site"
  "wbResolve (site_web site) base ref = base\<lparr>uPath := uPath base @ uPath ref\<rparr>"
  "wbString (site_web site) u = ''http://'' @ uHost u @ uPath u"
  "wbReadAll (site_web site) doc = (fst doc, None)" "wbTokens (site_web site) doc = snd doc"
  "wbVersion (site_web site) = ''1.0''"
  by (simp_all add: site_web_def)

lemma site_client_sel [simp]:
  "cl_newRequest (site_client site) uri = None"
  "cl_do (site_client site) w req = (w, Inr (case site (req_uri req) of
         None \<Rightarrow> site_response 404 ''text/plain'' ([], [])
       | Some (contentType, doc) \<Rightarrow> site_response 200 contentType doc))"
  by (simp_all add: site_client_def)

definition site_source :: URLSource where
  "site_source =
     \<lparr>usURLString = ''http://h/'', usURL = Some ((path_url ''/'')\<lparr>uHost := ''h''\<rparr>),
      usClientCertificatePath = [], usClientCertificateKeyPath = [], usServerCAPath = [],
      usHTTPClient = Some DefaultClient, usSegmentingIn = Some False, usSegmenting = False,
      usSegmentSize = push_bit 20 512\<rparr>"

definition link :: "string \<Rightarrow> html_token" where
  "link href = StartTag ''a'' [(''href'', href)]"

definition demo_site :: site where
  "demo_site =
     [''http://h/'' \<mapsto> (''text/html'', ([], [link ''../'', link ''sub/'', OtherToken, link ''./a.txt''])),
      ''http://h/a.txt'' \<mapsto> (''text/plain'', ([1, 2, 3], []))]"

section \<open>Properties\<close>

text \<open>C18: listing a directory of a web server. The files and directories that ListEntries returns are
  exactly those of the links of the page which are relative, without a parent reference, query or
  fragment. Whatever the server sends, each of them lies in the directory that was listed (or is that
  directory itself): its cleaned path extends the path of the directory by components none of which is
  a parent reference.\<close>

theorem listing_stays_below:
  assumes "URLSource_ListEntries web u dir w = (w', Inr files)" "dir \<noteq> []"
  shows "(\<exists>req resp. cl_do (wbClient web DefaultClient) w req = (w', Inr resp) \<and>
      req_uri req = wbString web (addSlash (getURLForPath web u dir)) \<and>
      set files = {f. \<exists>t\<in>set (wbTokens web (resp_body resp)). hrefOf t \<noteq> [] \<and>
        (\<exists>h. wbParse web (hrefOf t) = Inr h \<and> listed_link h \<and> f = linkSpec dir h)}) \<and>
    (\<forall>f\<in>set files. clean (Path f) = Path f \<and>
      (\<exists>cs. clean_comps (Path f) = clean_comps dir @ cs \<and> ''..'' \<notin> set cs))"
proof
  from assms(1) obtain req resp where r: "cl_do (wbClient web DefaultClient) w req = (w', Inr resp)"
    "req_uri req = wbString web (addSlash (getURLForPath web u dir))"
    "files = collectLinks web dir (wbTokens web (resp_body resp))"
    by (auto simp: URLSource_ListEntries_def Let_def split: option.splits prod.splits sum.splits if_splits)
  have e: "set files = {f. \<exists>t\<in>set (wbTokens web (resp_body resp)). hrefOf t \<noteq> [] \<and>
        (\<exists>h. wbParse web (hrefOf t) = Inr h \<and> listed_link h \<and> f = linkSpec dir h)}"
    unfolding r(3) set_collectLinks ..
  with r(1,2) show "\<exists>req resp. cl_do (wbClient web DefaultClient) w req = (w', Inr resp) \<and>
      req_uri req = wbString web (addSlash (getURLForPath web u dir)) \<and>
      set files = {f. \<exists>t\<in>set (wbTokens web (resp_body resp)). hrefOf t \<noteq> [] \<and>
        (\<exists>h. wbParse web (hrefOf t) = Inr h \<and> listed_link h \<and> f = linkSpec dir h)}" by blast
  have "''..'' \<notin> set (plain_comps (uPath h))" if "listed_link h" for h
    using that by (simp add: plain_comps_def listed_link_def)
  note good = this
  show "\<forall>f\<in>set files. clean (Path f) = Path f \<and>
      (\<exists>cs. clean_comps (Path f) = clean_comps dir @ cs \<and> ''..'' \<notin> set cs)"
  proof
    fix f assume "f \<in> set files"
    with e obtain h where "listed_link h" "f = linkSpec dir h" by auto
    with linkSpec_below[OF assms(2)] good show "clean (Path f) = Path f \<and>
      (\<exists>cs. clean_comps (Path f) = clean_comps dir @ cs \<and> ''..'' \<notin> set cs)" by metis
  qed
qed

lemma demo_listing:
  "URLSource_ListEntries (site_web demo_site) site_source ''/'' () =
     ((), Inr [(fileSpec ''/sub'')\<lparr>IsDirectory := True\<rparr>, fileSpec ''/a.txt''])"
proof -
  have "linkSpec ''/'' (path_url ''sub/'') = (fileSpec ''/sub'')\<lparr>IsDirectory := True\<rparr>"
    "linkSpec ''/'' (path_url ''./a.txt'') = fileSpec ''/a.txt''"
    by (simp_all add: linkSpec_def linkPathOf_def path_url_def clean_def clean_comps_def clean_step_def
        hasPrefix_def hasSuffix_def fileSpec_def)
  then have "collectLinks (site_web demo_site) ''/'' [link ''../'', link ''sub/'', OtherToken, link ''./a.txt''] =
      [(fileSpec ''/sub'')\<lparr>IsDirectory := True\<rparr>, fileSpec ''/a.txt'']"
    by (simp add: linkEntry_eq hrefOf_def link_def listed_link_def path_url_def hasPrefix_def)
  then show ?thesis
    by (simp add: URLSource_ListEntries_def site_source_def demo_site_def getURLForPath_def
        path_url_def addSlash_def hasPrefix_def hasSuffix_def trimPrefix_def site_response_def status_defs Let_def del: collectLinks.simps)
qed

theorem listing_stays_below_witness:
  "\<exists>files. URLSource_ListEntries (site_web demo_site) site_source ''/'' () = ((), Inr files) \<and>
     map Path files = [''/sub'', ''/a.txt''] \<and> (\<exists>cs. clean_comps ''/sub'' = clean_comps ''/'' @ cs \<and> ''..'' \<notin> set cs)"
  using listing_stays_below[OF demo_listing] by (intro exI[of _ "[(fileSpec ''/sub'')\<lparr>IsDirectory := True\<rparr>, fileSpec ''/a.txt'']"] conjI)
    (auto simp: demo_listing)

definition listRequest :: "('w, 'b) web \<Rightarrow> URLSource \<Rightarrow> string \<Rightarrow> request" where
  "listRequest web u dir =
     \<lparr>req_uri = wbString web (addSlash (getURLForPath web u dir)),
      req_header = header_set no_header ''Accept'' ''text/html''\<rparr>"

lemma sizeOf_of_nat:
  assumes "unat (resp_length resp) = n" "n < 2 ^ 63"
  shows "sizeOf resp = Some (of_nat n)"
proof -
  have r: "resp_length resp = of_nat n" using assms(1) by auto
  have "AtLeastZero (resp_length resp) = resp_length resp" using r AtLeastZero_of_nat[OF assms(2)] by simp
  moreover have "\<not> sint (of_nat n :: i64) < 0"
  proof -
    have "sint (word_of_int (int n) :: i64) = int n"
      using assms(2) unfolding sint_sbintrunc' by (intro signed_take_bit_int_eq_self) simp_all
    then show ?thesis by simp
  qed
  ultimately show ?thesis using r by (simp add: sizeOf_def)
qed

text \<open>C38: when a listing fails. ListEntries succeeds exactly if the request for the URL of the directory
  (with a trailing slash) can be built and is answered with a status in 2xx and a content type that
  starts with text/html. Neither the end of the body nor the HTTP client of the source has any part in
  it: a page that breaks off is a listing like any other, and the certificates that Connect has loaded
  are not used.\<close>

theorem listing_succeeds_iff:
  "((\<exists>files. snd (URLSource_ListEntries web u dir w) = Inr files) \<longleftrightarrow>
     cl_newRequest (wbClient web DefaultClient) (req_uri (listRequest web u dir)) = None \<and>
     (\<exists>resp. snd (cl_do (wbClient web DefaultClient) w (listRequest web u dir)) = Inr resp \<and>
       hasPrefix (resp_status resp) ''2'' \<and>
       hasPrefix (header_get (resp_header resp) ''Content-Type'') ''text/html'')) \<and>
   URLSource_ListEntries (web\<lparr>wbReadAll := readAll\<rparr>) (u\<lparr>usHTTPClient := c\<rparr>) dir w =
     URLSource_ListEntries web u dir w"
proof
  show "(\<exists>files. snd (URLSource_ListEntries web u dir w) = Inr files) \<longleftrightarrow>
     cl_newRequest (wbClient web DefaultClient) (req_uri (listRequest web u dir)) = None \<and>
     (\<exists>resp. snd (cl_do (wbClient web DefaultClient) w (listRequest web u dir)) = Inr resp \<and>
       hasPrefix (resp_status resp) ''2'' \<and>
       hasPrefix (header_get (resp_header resp) ''Content-Type'') ''text/html'')"
    by (auto simp: URLSource_ListEntries_def listRequest_def Let_def split: option.splits prod.splits sum.splits)
  have "collectLinks (web\<lparr>wbReadAll := readAll\<rparr>) dir ts = collectLinks web dir ts" for ts
    by (induction ts) (simp_all add: linkEntry_def)
  then have "collectLinks (web\<lparr>wbReadAll := readAll\<rparr>) dir = collectLinks web dir" by blast
  then show "URLSource_ListEntries (web\<lparr>wbReadAll := readAll\<rparr>) (u\<lparr>usHTTPClient := c\<rparr>) dir w =
     URLSource_ListEntries web u dir w"
    by (simp add: URLSource_ListEntries_def getURLForPath_def Let_def split: option.split sum.split prod.split)
qed

text \<open>The headers of the requests for a file.\<close>

definition fileHeader :: "('w, 'b) web \<Rightarrow> headers \<Rightarrow> header" where
  "fileHeader web hdr = to_http (headers_set hdr ''User-Agent'' (''swift-http-import/'' @ wbVersion web))"

lemma GetFile_eq:
  "URLSource_GetFile web u path hdr w =
     (case (if usSegmenting u
            then EnhancedGet (wbClient web (the (usHTTPClient u))) w (fileURI web u path) (fileHeader web hdr) (usSegmentSize u)
            else plainGet (wbClient web (the (usHTTPClient u))) w (fileURI web u path) (fileHeader web hdr)) of
        (w', Panic m) \<Rightarrow> (w', Panic m)
      | (w', Ret r) \<Rightarrow> (w', fileOf (fileURI web u path) r))"
  by (simp only: URLSource_GetFile_def fileURI_def fileHeader_def Let_def)

text \<open>Files of a web server arrive complete. When segmenting is on and the server of the source answers
  as RFC 7233 describes it without failing, GetFile returns the file without asking to skip it, with a
  body that holds exactly the contents: either the plain body of one response, or a hijacked one whose
  size is announced and from which the FullReader reads the file up to its end.\<close>

theorem GetFile_delivers:
  assumes "usHTTPClient u = Some c" "usSegmenting u" "wbClient web c = cl"
    and "body_law cl bcont" "range_law cl bcont (fileURI web u path) (fileHeader web hdr) F"
    and "reliable cl bcont (fileURI web u path) (fileHeader web hdr) F tag"
    and "F \<noteq> []" "length F < 2 ^ 63" "0 < usSegmentSize u" "length F + unat (usSegmentSize u) < 2 ^ 64"
  shows "\<exists>w' body st. URLSource_GetFile web u path hdr w = (w', Ret (Inr (body, st))) \<and> \<not> fsSkipTransfer st \<and>
     (case body of
        Plain b \<Rightarrow> bcont b = F
      | Hijacked d \<Rightarrow> fsSizeBytes st = Some (of_nat (length F)) \<and>
          (\<forall>n. length F < n \<longrightarrow>
            (\<exists>r'. FullReader_Read (downloader_Read cl) (w', d) n = Some (Ret (F, Some EOF, r')))))"
proof -
  let ?uri = "fileURI web u path" and ?hdr = "fileHeader web hdr"
  from segmented_get_complete[OF assms(4-10), of w] obtain w' resp where
    get: "EnhancedGet cl w ?uri ?hdr (usSegmentSize u) = (w', Ret (Some resp, None))"
    and ok: "resp_code resp = StatusOK"
    and body: "case resp_body resp of Plain b \<Rightarrow> bcont b = F
      | Hijacked d \<Rightarrow> \<forall>n. length F < n \<longrightarrow>
          (\<exists>r'. FullReader_Read (downloader_Read cl) (w', d) n = Some (Ret (F, Some EOF, r')))" by blast
  have "good_get cl bcont F w' resp" using EnhancedGet_good[OF assms(4,5,7-10) get] .
  then have len: "sizeOf resp = Some (of_nat (length F))" if "resp_body resp = Hijacked d" for d
    using that assms(8) by (intro sizeOf_of_nat) (simp_all add: good_get_def)
  have "URLSource_GetFile web u path hdr w = (w', Ret (Inr (resp_body resp, stateOf resp)))"
    using get ok assms(1-3) by (simp add: GetFile_eq fileOf_def)
  moreover have "\<not> fsSkipTransfer (stateOf resp)" "fsSizeBytes (stateOf resp) = sizeOf resp"
    using ok by (simp_all add: stateOf_def status_defs)
  ultimately show ?thesis using body len by (auto split: getBody.splits)
qed

definition file_web :: "bytes \<Rightarrow> ('w, bytes) web" where
  "file_web F =
     \<lparr>wbParse = (\<lambda>s. Inr (path_url s)), wbResolve = (\<lambda>base ref. base\<lparr>uPath := uPath base @ uPath ref\<rparr>),
      wbString = (\<lambda>u. ''http://'' @ uHost u @ uPath u), wbClient = (\<lambda>c. file_client F),
      wbReadAll = (\<lambda>b. (b, None)), wbTokens = (\<lambda>b. []), wbVersion = ''1.0''\<rparr>"

theorem GetFile_delivers_witness:
  "\<exists>w' body st. URLSource_GetFile (file_web demo_file)
       (site_source\<lparr>usSegmenting := True, usSegmentSize := 2\<rparr>) ''/f'' Map.empty () = (w', Ret (Inr (body, st))) \<and>
     \<not> fsSkipTransfer st"
  using GetFile_delivers[OF _ _ _ file_body_law file_range_law[OF demo_bounds(2)] file_reliable[OF demo_bounds(2)]
      demo_bounds(1,2), of "site_source\<lparr>usSegmenting := True, usSegmentSize := 2\<rparr>" DefaultClient "file_web demo_file"
      "''/f''" Map.empty "()"] demo_bounds(3,4)
  by (auto simp: site_source_def file_web_def)

text \<open>Validation of a web source. Validate ends in a nil dereference exactly for a URL that cannot be
  parsed. It reports no error exactly if a URL is given and the client certificate and its key are given
  together; then the source has a URL whose path ends in a slash, a positive segment size, and segments
  its downloads unless that is switched off.\<close>

theorem URLSource_Validate_cases:
  "(panics (URLSource_Validate web u name) \<longleftrightarrow>
      usURLString u \<noteq> [] \<and> (\<exists>err. wbParse web (usURLString u) = Inl err)) \<and>
   ((\<exists>u'. URLSource_Validate web u name = Ret (u', [])) \<longleftrightarrow>
      usURLString u \<noteq> [] \<and> (\<exists>h. wbParse web (usURLString u) = Inr h) \<and>
      (usClientCertificatePath u = [] \<longleftrightarrow> usClientCertificateKeyPath u = [])) \<and>
   (\<forall>u'. URLSource_Validate web u name = Ret (u', []) \<longrightarrow>
      (\<exists>h. usURL u' = Some h \<and> hasSuffix (uPath h) ''/'') \<and> 0 < usSegmentSize u' \<and>
      usSegmenting u' = (usSegmentingIn u \<noteq> Some False))"
proof (intro conjI allI impI)
  fix u' assume v: "URLSource_Validate web u name = Ret (u', [])"
  then obtain u1 where u1: "validateURL web u name = Ret (u1, [])"
    by (auto simp: URLSource_Validate_def split: outcome.splits)
  then obtain h where h: "u1 = u\<lparr>usURL := Some (directoryURL h)\<rparr>"
    by (auto simp: validateURL_def split: if_splits sum.splits)
  have slash: "hasSuffix (uPath (directoryURL h)) ''/''" by (simp add: directoryURL_def addSlash_def)
  from v u1 h show "\<exists>h. usURL u' = Some h \<and> hasSuffix (uPath h) ''/''"
    using slash by (auto simp: URLSource_Validate_def)
  from v u1 h show "0 < usSegmentSize u'"
    by (auto simp: URLSource_Validate_def word_neq_0_conv)
  from v u1 h show "usSegmenting u' = (usSegmentingIn u \<noteq> Some False)"
    by (auto simp: URLSource_Validate_def split: option.splits)
qed (auto simp: URLSource_Validate_def validateURL_def validateCertificate_def split: outcome.splits sum.splits if_splits)

theorem URLSource_Validate_cases_witness:
  "\<exists>u'. URLSource_Validate (site_web demo_site) site_source ''from'' = Ret (u', []) \<and>
     (\<exists>h. usURL u' = Some h \<and> hasSuffix (uPath h) ''/'')"
  using URLSource_Validate_cases[of "site_web demo_site" site_source "''from''"]
  by (simp add: site_source_def) blast

end
