(* ===== verification/WebMirror.thy ===== *)
theory WebMirror
  imports Mirror UrlClaims
begin

text \<open>
  From a web server to Swift: the files of a \<^verbatim>\<open>URLSource\<close> keep the contract of a source, because the
  segmented download of \<^verbatim>\<open>http.go\<close> is exact, and so their contents reach the target unchanged. The
  server may break off, refuse or ignore ranges, and change its mind between segments.
\<close>

section \<open>A web server as a source\<close>

text \<open>
  The files of Yum and Debian repositories are fetched in the same way, by the \<open>URLSource\<close> within their
  sources. A panic ends the process; for the contents of the target it is no more than a file
  that does not arrive.
\<close>

definition urlGetFile ::
  "('w, 'b) web \<Rightarrow> URLSource \<Rightarrow> string \<Rightarrow> headers \<Rightarrow> 'w \<Rightarrow> 'w \<times> (goerror + 'b getBody option \<times> FileState)" where
  "urlGetFile web u path hdr w =
     (case URLSource_GetFile web u path hdr w of
        (w', Panic m) \<Rightarrow> (w', Inl (Err m))
      | (w', Ret (Inl err)) \<Rightarrow> (w', Inl err)
      | (w', Ret (Inr (body, st))) \<Rightarrow> (w', Inr (Some body, st)))"

definition urlSource :: "('w, 'b) web \<Rightarrow> URLSource \<Rightarrow> ('w, 'b getBody) Source" where
  "urlSource web u =
     \<lparr>srcListAllFiles = (\<lambda>w. (w, [], Some URLSource_ListAllFiles)),
      srcListEntries = URLSource_ListEntries web u,
      srcGetFile = urlGetFile web u\<rparr>"

section \<open>Reading a body to its end\<close>

definition plainRead :: "('w, 'b) client \<Rightarrow> 'b \<Rightarrow> nat \<Rightarrow> 'b read_result option" where
  "plainRead cl b n = Some (Ret (cl_read cl b n))"

text \<open>\<open>bs\<close> is what some sequence of reads, with buffers of any sizes, got before \<^verbatim>\<open>io.EOF\<close>.\<close>

fun readsTo :: "('w, 'b) client \<Rightarrow> 'b getBody \<Rightarrow> bytes \<Rightarrow> bool" where
  "readsTo cl (Plain b) bs \<longleftrightarrow> (\<exists>ns b'. reads (plainRead cl) b ns = Some (Ret (bs, Some EOF, b')))"
| "readsTo cl (Hijacked d) bs \<longleftrightarrow>
     (\<exists>w ns wd'. reads (FullReader_Read (downloader_Read cl)) (w, d) ns = Some (Ret (bs, Some EOF, wd')))"

lemma reads_plain:
  assumes "body_law cl bcont" "reads (plainRead cl) b ns = Some (Ret (bs, Some EOF, b'))"
  shows "bs = bcont b"
  using assms(2)
proof (induction ns arbitrary: b bs)
  case Nil
  then show ?case by simp
next
  case (Cons n ns)
  obtain bs1 e b1 where cr: "cl_read cl b n = (bs1, e, b1)" by (metis prod_cases3)
  then have pr: "plainRead cl b n = Some (Ret (bs1, e, b1))" by (simp add: plainRead_def)
  note law = body_law_read[OF assms(1) cr]
  show ?case
  proof (cases e)
    case None
    with Cons.prems pr obtain bs2 where "reads (plainRead cl) b1 ns = Some (Ret (bs2, Some EOF, b'))" "bs = bs1 @ bs2"
      by (auto split: option.splits outcome.splits)
    with Cons.IH law(3) None show ?thesis by simp
  next
    case (Some x)
    with Cons.prems pr have "bs = bs1" "x = EOF" by auto
    with law(5) Some show ?thesis by simp
  qed
qed

text \<open>The downloader does not remember the state of the world, so that any state will do.\<close>

lemma readsTo_good:
  assumes "good_get cl bcont F w resp" "body_law cl bcont" "readsTo cl (resp_body resp) bs"
  shows "bs = F"
proof (cases "resp_body resp")
  case (Plain b)
  with assms reads_plain[OF assms(2)] show ?thesis by (auto simp: good_get_def)
next
  case (Hijacked d)
  with assms(3) obtain w1 ns wd' where
    rd: "reads (FullReader_Read (downloader_Read cl)) (w1, d) ns = Some (Ret (bs, Some EOF, wd'))" by auto
  from assms(1) Hijacked have "dl_ok cl bcont F (w1, d)" "dl_content F (w1, d) = F"
    by (simp_all add: good_get_def dl_ok_def dl_content_def)
  with dl.full_reads_content[OF _ rd] show ?thesis by auto
qed

section \<open>What the server has\<close>

text \<open>
  The server has the file \<open>f\<close> (none, if there is none) under a URL: it sends nothing else with status
  200, and to requests with a range it either keeps to RFC 7233 or never answers with 206.
\<close>

definition whole_law :: "('w, 'b) client \<Rightarrow> ('b \<Rightarrow> bytes) \<Rightarrow> request \<Rightarrow> bytes option \<Rightarrow> bool" where
  "whole_law cl bcont req f \<longleftrightarrow>
     (\<forall>w w' resp. cl_do cl w req = (w', Inr resp) \<longrightarrow> resp_code resp = StatusOK \<longrightarrow>
        f = Some (bcont (resp_body resp)))"

definition never_partial :: "('w, 'b) client \<Rightarrow> request \<Rightarrow> bool" where
  "never_partial cl req \<longleftrightarrow>
     (\<forall>w w' resp. cl_do cl w req = (w', Inr resp) \<longrightarrow> resp_code resp \<noteq> StatusPartialContent)"

definition has_file ::
  "('w, 'b) client \<Rightarrow> ('b \<Rightarrow> bytes) \<Rightarrow> u64 \<Rightarrow> string \<Rightarrow> header \<Rightarrow> bytes option \<Rightarrow> bool" where
  "has_file cl bcont seg uri hdr f \<longleftrightarrow>
     whole_law cl bcont \<lparr>req_uri = uri, req_header = hdr\<rparr> f \<and>
     ((\<exists>F. f = Some F \<and> F \<noteq> [] \<and> length F < 2 ^ 63 \<and> length F + unat seg < 2 ^ 64 \<and>
         range_law cl bcont uri hdr F) \<or>
      (\<forall>start stop. whole_law cl bcont (rangeRequest uri hdr start stop) f \<and>
         never_partial cl (rangeRequest uri hdr start stop)))"

lemma header_copy_no_header [simp]: "header_copy no_header hdr = hdr"
  by (auto simp: header_copy_def no_header_def)

lemma EnhancedGet_whole:
  assumes "whole_law cl bcont \<lparr>req_uri = uri, req_header = hdr\<rparr> f"
    and "\<And>start stop. whole_law cl bcont (rangeRequest uri hdr start stop) f"
    and "\<And>start stop. never_partial cl (rangeRequest uri hdr start stop)"
    and "EnhancedGet cl w uri hdr seg = (w', Ret (Some resp, None))" "resp_code resp = StatusOK"
  shows "\<exists>b. resp_body resp = Plain b \<and> f = Some (bcont b)"
proof -
  let ?d = "newDownloader uri hdr seg"
  obtain w1 d g where gn: "getNextChunk cl w ?d = (w1, d, g)" by (metis prod_cases3)
  with assms(4) obtain first h e where g: "g = Ret (Some first, h, e)"
    by (auto simp: EnhancedGet_def split: outcome.splits option.splits if_splits)
  obtain stop w2 where first: "cl_do cl w (rangeRequest uri hdr 0 stop) = (w2, Inr first)"
    using gn g by (auto simp: getNextChunk_def buildRequest_def rangeRequest_def checkContentRange_def Let_def
        split: sum.splits prod.splits if_splits option.splits)
  then have np: "resp_code first \<noteq> StatusPartialContent"
    using assms(3)[of 0 stop] by (auto simp: never_partial_def)
  have dl: "dURI d = uri" "dRequestHeaders d = hdr"
    using getNextChunk_frame[OF gn] by (simp_all add: same_progress_def)
  show ?thesis
  proof (cases "resp_code first = StatusRangeNotSatisfiable")
    case True
    with assms(4) gn g dl obtain plain where "cl_do cl w1 \<lparr>req_uri = uri, req_header = hdr\<rparr> = (w', Inr plain)"
      "resp = with_body Plain plain"
      by (auto simp: EnhancedGet_def buildRequest_def split: option.splits sum.splits prod.splits)
    with assms(1,5) show ?thesis by (auto simp: whole_law_def with_body_def)
  next
    case False
    with assms(4) gn g np have "resp = with_body Plain first" by (auto simp: EnhancedGet_def)
    with assms(2)[of 0 stop] assms(5) first show ?thesis by (auto simp: whole_law_def with_body_def)
  qed
qed

section \<open>The contract of a web source\<close>

locale web_server =
  fixes web :: "('w, 'b) web" and u :: URLSource and bcont :: "'b \<Rightarrow> bytes" and files :: "string \<Rightarrow> bytes option"
  assumes bodies: "body_law (wbClient web (the (usHTTPClient u))) bcont"
    and segment: "0 < usSegmentSize u"
    and server: "has_file (wbClient web (the (usHTTPClient u))) bcont (usSegmentSize u)
      (fileURI web u path) (fileHeader web hdr) (files path)"
begin

abbreviation client :: "('w, 'b) client" where "client \<equiv> wbClient web (the (usHTTPClient u))"

lemma GetFile_contents:
  assumes "URLSource_GetFile web u path hdr w = (w', Ret (Inr (b, st)))" "\<not> fsSkipTransfer st"
    and "readsTo client b bs"
  shows "files path = Some bs"
proof -
  let ?uri = "fileURI web u path" and ?hdr = "fileHeader web hdr"
  note h = server[of path hdr, unfolded has_file_def]
  from assms(1) obtain resp where
    get: "(if usSegmenting u then EnhancedGet client w ?uri ?hdr (usSegmentSize u) else plainGet client w ?uri ?hdr) =
      (w', Ret (Some resp, None))"
    and resp: "b = resp_body resp" "st = stateOf resp" "resp_code resp = StatusOK \<or> resp_code resp = StatusNotModified"
    by (auto simp: GetFile_eq fileOf_def split: prod.splits outcome.splits option.splits if_splits)
  with assms(2) have ok: "resp_code resp = StatusOK" by (auto simp: stateOf_def)
  show ?thesis
  proof (cases "usSegmenting u")
    case False
    with get obtain r where "cl_do client w \<lparr>req_uri = ?uri, req_header = ?hdr\<rparr> = (w', Inr r)"
      "resp = with_body Plain r"
      by (auto simp: plainGet_def split: option.splits prod.splits sum.splits)
    with h ok resp(1) assms(3) reads_plain[OF bodies] show ?thesis
      by (auto simp: whole_law_def with_body_def)
  next
    case True
    with get have eg: "EnhancedGet client w ?uri ?hdr (usSegmentSize u) = (w', Ret (Some resp, None))" by simp
    from h consider
        F where "files path = Some F" "F \<noteq> []" "length F < 2 ^ 63" "length F + unat (usSegmentSize u) < 2 ^ 64"
          "range_law client bcont ?uri ?hdr F"
      | "\<And>start stop. whole_law client bcont (rangeRequest ?uri ?hdr start stop) (files path)"
        "\<And>start stop. never_partial client (rangeRequest ?uri ?hdr start stop)" by blast
    then show ?thesis
    proof cases
      case (1 F)
      then have "good_get client bcont F w' resp"
        using EnhancedGet_good[OF bodies 1(5,2,3) segment 1(4) eg] by simp
      from readsTo_good[OF this bodies] assms(3) resp(1) 1(1) show ?thesis by simp
    next
      case 2
      from EnhancedGet_whole[OF _ 2 eg ok] h obtain c where "resp_body resp = Plain c" "files path = Some (bcont c)"
        by auto
      with assms(3) resp(1) reads_plain[OF bodies] show ?thesis by auto
    qed
  qed
qed

lemma source_contract:
  assumes "srcGetFile src = urlGetFile web u"
  shows "file_source src (\<lambda>w. readsTo client) (\<lambda>w. files)"
proof
  fix path h w w' r st bs
  assume "srcGetFile src path h w = (w', Inr (r, st))" "\<not> fsSkipTransfer st" "bodyReads (readsTo client) r bs"
  with assms show "files path = Some bs"
    by (auto simp: urlGetFile_def bodyReads_def intro: GetFile_contents
        split: prod.splits outcome.splits sum.splits)
qed

end

sublocale web_server \<subseteq> file_source "urlSource web u" "\<lambda>w. readsTo client" "\<lambda>w. files"
  by (rule source_contract) (simp add: urlSource_def)

context web_server
begin

lemma mirror_from:
  "srcGetFile src = urlGetFile web u \<Longrightarrow> object_store sw content (\<lambda>w. readsTo client) segments target \<Longrightarrow>
     mirror sw content (\<lambda>w. readsTo client) segments target src (\<lambda>w. files)"
  by (intro mirror.intro source_contract mirror_axioms.intro refl)

end

section \<open>Conditional requests\<close>

text \<open>
  A web server that knows conditional requests: every answer for a URL has the Etag of the file, and a
  request on the condition that the Etag has changed is answered with 304, also when it asks for a range.
\<close>

definition conditional_server :: "('w, 'b) client \<Rightarrow> string \<Rightarrow> string \<Rightarrow> bool" where
  "conditional_server cl uri etag \<longleftrightarrow> cl_newRequest cl uri = None \<and>
     (\<forall>w req w' resp. req_uri req = uri \<longrightarrow> cl_do cl w req = (w', Inr resp) \<longrightarrow>
        header_get (resp_header resp) ''Etag'' = etag) \<and>
     (\<forall>w req. req_uri req = uri \<longrightarrow> header_get (req_header req) ''If-None-Match'' = etag \<longrightarrow>
        (\<exists>w' resp. cl_do cl w req = (w', Inr resp) \<and> resp_code resp = StatusNotModified))"

lemma conditional_serverD:
  assumes "conditional_server cl uri etag"
  shows "cl_newRequest cl uri = None"
    "cl_do cl w \<lparr>req_uri = uri, req_header = h\<rparr> = (w', Inr resp) \<Longrightarrow> header_get (resp_header resp) ''Etag'' = etag"
    "header_get h ''If-None-Match'' = etag \<Longrightarrow>
       \<exists>w' resp. cl_do cl w \<lparr>req_uri = uri, req_header = h\<rparr> = (w', Inr resp) \<and> resp_code resp = StatusNotModified"
  using assms unfolding conditional_server_def by (blast, force, force)

lemma EnhancedGet_etag:
  assumes "conditional_server cl uri etag" "EnhancedGet cl w uri hdr seg = (w', Ret (Some resp, None))"
  shows "header_get (resp_header resp) ''Etag'' = etag"
proof -
  note law = conditional_serverD[OF assms(1)]
  let ?d = "newDownloader uri hdr seg"
  obtain w1 d g where gn: "getNextChunk cl w ?d = (w1, d, g)" by (metis prod_cases3)
  with assms(2) obtain first h e where g: "g = Ret (Some first, h, e)"
    by (auto simp: EnhancedGet_def split: outcome.splits option.splits if_splits)
  obtain stop w2 where "cl_do cl w (rangeRequest uri hdr 0 stop) = (w2, Inr first)"
    using gn g by (auto simp: getNextChunk_def buildRequest_def rangeRequest_def checkContentRange_def Let_def
        split: sum.splits prod.splits if_splits option.splits)
  from law(2)[OF this[unfolded rangeRequest_def]] have 1: "header_get (resp_header first) ''Etag'' = etag" .
  have dl: "dURI d = uri" "dRequestHeaders d = hdr"
    using getNextChunk_frame[OF gn] by (simp_all add: same_progress_def)
  show ?thesis
  proof (cases "resp_code first = StatusRangeNotSatisfiable")
    case True
    with assms(2) gn g dl obtain plain where "cl_do cl w1 \<lparr>req_uri = uri, req_header = hdr\<rparr> = (w', Inr plain)"
      "resp = with_body Plain plain"
      by (auto simp: EnhancedGet_def buildRequest_def split: option.splits sum.splits prod.splits)
    with law(2) show ?thesis by (simp add: with_body_def)
  next
    case False
    with assms(2) gn g 1 show ?thesis
      by (auto simp: EnhancedGet_def hijack_def with_body_def Let_def split: option.splits if_splits)
  qed
qed

lemma EnhancedGet_not_modified:
  fixes cl :: "('w, 'b) client"
  assumes "conditional_server cl uri etag" "header_get hdr ''If-None-Match'' = etag"
  shows "\<exists>w' resp. EnhancedGet cl w uri hdr seg = (w', Ret (Some resp, None)) \<and> resp_code resp = StatusNotModified"
proof -
  note law = conditional_serverD[OF assms(1)]
  let ?d = "newDownloader uri hdr seg :: 'b downloader"
  let ?hdr = "header_set hdr ''Range'' (rangeHeader (dBytesRead ?d) (chunkEnd ?d))"
  have "canonicalKey ''If-None-Match'' \<noteq> canonicalKey ''Range''" by (rule canonicalKey_neq) simp
  with assms(2) have "header_get ?hdr ''If-None-Match'' = etag" by simp
  from law(3)[OF this] obtain w' resp where
    r: "cl_do cl w \<lparr>req_uri = uri, req_header = ?hdr\<rparr> = (w', Inr resp)" "resp_code resp = StatusNotModified" by blast
  have d: "dURI ?d = uri" "dRequestHeaders ?d = hdr" "dEtag ?d = []" by (simp_all add: newDownloader_def)
  have "getNextChunk cl w ?d = (w', ?d\<lparr>dEtag := header_get (resp_header resp) ''Etag''\<rparr>,
      Ret (Some resp, Some \<lparr>ContentRangeStart = 0, ContentRangeLength = 0\<rparr>, None))"
    using r d law(1) by (simp add: getNextChunk_def buildRequest_def status_defs Let_def)
  with r(2) show ?thesis by (simp add: EnhancedGet_def status_defs with_body_def)
qed

text \<open>
  The files of a URL source with such a server are conditional files, so that the theorem on repeated transfers is
  about them, segmented or not.
\<close>

lemma urlSource_conditional:
  assumes "conditional_server (wbClient web (the (usHTTPClient u))) (fileURI web u path) etag"
    and "srcGetFile src = urlGetFile web u"
  shows "conditional_file src path etag"
  unfolding conditional_file_def
proof (intro conjI allI impI)
  let ?cl = "wbClient web (the (usHTTPClient u))" and ?uri = "fileURI web u path"
  note law = conditional_serverD[OF assms(1)]
  show "fsSkipTransfer st \<or> fsEtag st = etag" if "srcGetFile src path h w = (w', Inr (r, st))" for h w w' r st
  proof -
    from that assms(2) obtain resp where st: "st = stateOf resp" and
      get: "(if usSegmenting u then EnhancedGet ?cl w ?uri (fileHeader web h) (usSegmentSize u)
             else plainGet ?cl w ?uri (fileHeader web h)) = (w', Ret (Some resp, None))"
      by (auto simp: urlGetFile_def GetFile_eq fileOf_def split: prod.splits outcome.splits sum.splits option.splits if_splits)
    have "header_get (resp_header resp) ''Etag'' = etag"
    proof (cases "usSegmenting u")
      case True
      with get EnhancedGet_etag[OF assms(1)] show ?thesis by simp
    next
      case False
      with get obtain r where "cl_do ?cl w \<lparr>req_uri = ?uri, req_header = fileHeader web h\<rparr> = (w', Inr r)"
        "resp = with_body Plain r"
        by (auto simp: plainGet_def split: option.splits prod.splits sum.splits)
      with law(2) show ?thesis by (simp add: with_body_def)
    qed
    with st show ?thesis by (simp add: stateOf_def)
  qed
  show "\<exists>w' r st. srcGetFile src path h w = (w', Inr (r, st)) \<and> fsSkipTransfer st"
    if h: "headers_get h ''If-None-Match'' = etag" for h w
  proof -
    have "canonicalKey ''If-None-Match'' \<noteq> canonicalKey ''User-Agent''" by (rule canonicalKey_neq) simp
    with h have hdr: "header_get (fileHeader web h) ''If-None-Match'' = etag" by (simp add: fileHeader_def)
    have "\<exists>w' resp. (if usSegmenting u then EnhancedGet ?cl w ?uri (fileHeader web h) (usSegmentSize u)
             else plainGet ?cl w ?uri (fileHeader web h)) = (w', Ret (Some resp, None)) \<and> resp_code resp = StatusNotModified"
    proof (cases "usSegmenting u")
      case True
      with EnhancedGet_not_modified[OF assms(1) hdr] show ?thesis by simp
    next
      case False
      have "\<exists>w' resp. cl_do ?cl w \<lparr>req_uri = ?uri, req_header = fileHeader web h\<rparr> = (w', Inr resp) \<and>
          resp_code resp = StatusNotModified" by (rule law(3)[OF hdr])
      with False law(1) show ?thesis by (auto simp: plainGet_def with_body_def)
    qed
    then show ?thesis
      using assms(2) by (auto simp: urlGetFile_def GetFile_eq fileOf_def stateOf_def status_defs)
  qed
qed

section \<open>A store that reads the bodies\<close>

text \<open>The server in memory of \<open>SwiftStore\<close>, with bodies that it has to read from a client.\<close>

definition drain :: "('w, 'b) client \<Rightarrow> nat \<Rightarrow> 'w \<Rightarrow> 'b getBody \<Rightarrow> bytes option" where
  "drain cl n w body =
     (case body of
        Plain b \<Rightarrow>
          (case reads (plainRead cl) b [n, n] of Some (Ret (bs, Some EOF, b')) \<Rightarrow> Some bs | _ \<Rightarrow> None)
      | Hijacked d \<Rightarrow>
          (case reads (FullReader_Read (downloader_Read cl)) (w, d) [n] of
             Some (Ret (bs, Some EOF, wd')) \<Rightarrow> Some bs | _ \<Rightarrow> None))"

lemma drain_readsTo: "drain cl n w body = Some bs \<Longrightarrow> readsTo cl body bs"
  by (cases body)
    (auto simp del: reads.simps simp: drain_def split: option.splits outcome.splits goerror.splits; blast)+

definition drained ::
  "(store, bytes) client \<Rightarrow> nat \<Rightarrow> bytes getBody option \<Rightarrow> (bytes option \<Rightarrow> store \<Rightarrow> store \<times> goerror option) \<Rightarrow>
    store \<Rightarrow> store \<times> goerror option" where
  "drained cl n r f w =
     (case r of
        None \<Rightarrow> f None w
      | Some body \<Rightarrow> (case drain cl n w body of None \<Rightarrow> (w, Some (Err ''unexpected EOF'')) | Some bs \<Rightarrow> f (Some bs) w))"

definition web_swift :: "(store, bytes) client \<Rightarrow> nat \<Rightarrow> (store, bytes getBody, object) swift" where
  "web_swift cl n =
     \<lparr>swSymlinkSupport = swSymlinkSupport mem_swift, swSymlinkHeaders = swSymlinkHeaders mem_swift,
      swHeaders = swHeaders mem_swift,
      swDownload = (\<lambda>obj h w. map_prod id (map_sum id Plain) (swDownload mem_swift obj h w)),
      swUpload = (\<lambda>obj r del h. drained cl n r (\<lambda>b. swUpload mem_swift obj b del h)),
      swSymlinkTo = swSymlinkTo mem_swift, swAsNewLargeObject = swAsNewLargeObject mem_swift,
      swAppend = (\<lambda>lo r sz h. drained cl n r (\<lambda>b. swAppend mem_swift lo b sz h)),
      swWriteManifest = swWriteManifest mem_swift, swDelete = swDelete mem_swift,
      swBulkDelete = swBulkDelete mem_swift, swObjects = swObjects mem_swift,
      swEnsureExists = swEnsureExists mem_swift, swExpiresAt = swExpiresAt mem_swift,
      swBytesReader = (\<lambda>b w. (w, Plain b)), swCloseBody = (\<lambda>q w. w)\<rparr>"

interpretation web_store: object_store "web_swift (file_client F) n"
  "\<lambda>w obj. map_option stBody (map_of (stObjects w) obj)"
  "\<lambda>w. readsTo (file_client F :: (store, bytes) client)" stPending "\<lambda>lo. lo" for F n
proof unfold_locales
  show "bs = b" if "swBytesReader (web_swift (file_client F) n) b w = (w', q)"
    "readsTo (file_client F :: (store, bytes) client) q bs"
    for b w w' q bs
    using that reads_plain[OF file_body_law] by (auto simp: web_swift_def)
qed (auto simp: web_swift_def mem_swift_def drained_def store_head_def store_put_def bodyReads_def
    dest: drain_readsTo split: option.splits)

definition web_source :: URLSource where
  "web_source = site_source\<lparr>usSegmenting := True, usSegmentSize := 2\<rparr>"

lemma demo_web_server: "web_server (file_web demo_file) web_source (\<lambda>b. b) (\<lambda>path. Some demo_file)"
proof
  show "body_law (wbClient (file_web demo_file) (the (usHTTPClient web_source))) (\<lambda>b. b)"
    by (simp add: file_web_def file_body_law)
  show "0 < usSegmentSize web_source" by (simp add: web_source_def)
  show "has_file (wbClient (file_web demo_file) (the (usHTTPClient web_source))) (\<lambda>b. b) (usSegmentSize web_source)
      (fileURI (file_web demo_file) web_source path) (fileHeader (file_web demo_file) hdr) (Some demo_file)" for path hdr
    using demo_bounds file_range_law[OF demo_bounds(2)]
    by (auto simp: has_file_def whole_law_def file_web_def file_client_def file_do_def file_response_def status_defs
        web_source_def Let_def split: option.splits if_splits)
qed

text \<open>A job with such a source, which like that of a repository lists all of its files at once.\<close>

definition web_job :: "(store, bytes getBody) Job" where
  "web_job =
     \<lparr>jbSource = \<lparr>srcListAllFiles = (\<lambda>w. (w, [fileSpec ''a''], None)),
        srcListEntries = (\<lambda>p w. (w, Inl ErrListEntriesNotSupported)),
        srcGetFile = urlGetFile (file_web demo_file) web_source\<rparr>,
      jbTarget = demo_location, jbMatcher = jbMatcher demo_job,
      jbSegmenting = None, jbExpiration = jbExpiration demo_job, jbCleanup = KeepUnknownFiles\<rparr>"

lemma web_job_sel:
  "srcGetFile (jbSource web_job) = urlGetFile (file_web demo_file) web_source" "jbSegmenting web_job = None"
  "ImmutableFileRx (jbMatcher web_job) = None" "srcListAllFiles (jbSource web_job) w = (w, [fileSpec ''a''], None)"
  "srcListEntries (jbSource web_job) p w = (w, Inl ErrListEntriesNotSupported)"
  by (simp_all add: web_job_def demo_job_def)

text \<open>A file of five bytes, downloaded in segments of two and uploaded.\<close>

lemma web_get:
  "\<exists>w' d st. URLSource_GetFile (file_web demo_file) web_source path hdr (w :: store) = (w', Ret (Inr (Hijacked d, st))) \<and>
     \<not> fsSkipTransfer st \<and> fsSizeBytes st \<noteq> None \<and>
     drain (file_client demo_file) 100 w' (Hijacked d) = Some demo_file"
proof -
  let ?cl = "file_client demo_file :: (store, bytes) client" and ?web = "file_web demo_file :: (store, bytes) web"
  have src: "usHTTPClient web_source = Some DefaultClient" "usSegmenting web_source" "usSegmentSize web_source = 2"
    "wbClient ?web DefaultClient = ?cl"
    by (simp_all add: web_source_def site_source_def file_web_def)
  note F = demo_bounds(3,5,4,2)
  from GetFile_delivers[OF src(1,2,4) file_body_law file_range_law file_reliable, OF F(4) F(4) demo_bounds(1) F(4),
      unfolded src(3), OF F(1,3), of path hdr w]
  obtain w' body st where get: "URLSource_GetFile ?web web_source path hdr w = (w', Ret (Inr (body, st)))"
    and sk: "\<not> fsSkipTransfer st"
    and b: "case body of Plain b \<Rightarrow> b = demo_file
      | Hijacked d \<Rightarrow> fsSizeBytes st = Some (of_nat (length demo_file)) \<and> (\<forall>n. length demo_file < n \<longrightarrow>
            (\<exists>r'. FullReader_Read (downloader_Read ?cl) (w', d) n = Some (Ret (demo_file, Some EOF, r'))))" by blast
  from EnhancedGet_file[OF F, of w "fileURI ?web web_source path" "fileHeader ?web hdr"]
  obtain resp d where "EnhancedGet ?cl w (fileURI ?web web_source path) (fileHeader ?web hdr) 2 =
      (w, Ret (Some resp, None))" "resp_body resp = Hijacked d" by blast
  with get src have d: "body = Hijacked d" by (auto simp: GetFile_eq fileOf_def split: if_splits)
  with b have "length demo_file < 100 \<longrightarrow>
      (\<exists>r'. FullReader_Read (downloader_Read ?cl) (w', d) 100 = Some (Ret (demo_file, Some EOF, r')))" by simp
  then have "drain ?cl 100 w' (Hijacked d) = Some demo_file" by (auto simp: drain_def demo_file_def)
  with get sk b d show ?thesis by auto
qed

lemma web_not_unchanged: "\<not> reported_unchanged sw pt web_job (fileSpec path) w"
proof
  assume "reported_unchanged sw pt web_job (fileSpec path) w"
  then obtain hdr v v2 r st where
    "getContents sw pt web_job (fileSpec path) hdr v = (v2, Inr (r, st))" "fsSkipTransfer st"
    unfolding reported_unchanged_def by blast
  with web_get[of path hdr v] show False
    by (auto simp: getContents_def web_job_sel urlGetFile_def fileSpec_def)
qed

lemma web_run:
  assumes "srcGetFile (jbSource job) = urlGetFile (file_web demo_file) web_source"
    and "jbSegmenting job = None" "ImmutableFileRx (jbMatcher job) = None" "path \<noteq> []"
  shows "\<exists>w' n. PerformTransfer (web_swift (file_client demo_file) 100) pt job (fileSpec path) empty_store =
     (w', Ret (TransferSuccess, n))"
proof -
  let ?hdr = "requestHeadersFor (jbMatcher job) Map.empty"
  obtain w' d st where
    get: "URLSource_GetFile (file_web demo_file) web_source path ?hdr empty_store = (w', Ret (Inr (Hijacked d, st)))"
    and st: "\<not> fsSkipTransfer st" "fsSizeBytes st \<noteq> None"
    and dr: "drain (file_client demo_file) 100 w' (Hijacked d) = Some demo_file"
    using web_get[of path ?hdr empty_store] by (elim exE conjE) (rule that)
  have none: "store_head obj empty_store = (empty_store, Inl not_found)" for obj
    by (simp add: store_head_def empty_store_def)
  have "\<not> immutable job (fileSpec path)" using assms(3) by (simp add: immutable_def)
  then show ?thesis
    using get st dr assms(1,2)
    by (auto simp: PerformTransfer_def web_swift_def none not_found_def StatusNotFound_def transferContents_def
        getContents_def urlGetFile_def uploadFile_normal uploadNormalObject_def drained_def closeBody_def fileSpec_def
        symlinkSpec_def Let_def)
qed

section \<open>Properties\<close>

text \<open>C10: from the web server to Swift, byte by byte. Take a job whose files are fetched by a URL source, as
  those of web servers, Yum and Debian repositories are. Let its server send, under the URL of each
  path, nothing but the file of that path: in full with status 200, or, where it supports ranges, in
  parts as RFC 7233 describes them, any of which may fail, break off or, after the first, be refused.
  Let the target keep what it reads from the bodies that it is given. Then after each successful
  transfer of a file that is not a symlink, segmented or not on either side, the target object has
  exactly the bytes of the file.\<close>

theorem web_mirror:
  assumes "web_server web u bcont files" "srcGetFile (jbSource job) = urlGetFile web u"
    and "object_store sw content (\<lambda>w. readsTo (wbClient web (the (usHTTPClient u)))) segments target"
    and "SymlinkTargetPath spec = []"
    and "PerformTransfer sw pt job spec w = (w', Ret (TransferSuccess, n))"
  shows "content w' (TargetObject job spec) = wanted (\<lambda>w. files) spec w"
  by (rule mirror.PerformTransfer_content[OF web_server.mirror_from[OF assms(1,2,3)] assms(5) refl assms(4)])

theorem web_mirror_witness:
  "\<exists>w' n. PerformTransfer (web_swift (file_client demo_file) 100) (\<lambda>t. Inr 0) web_job (fileSpec ''a'') empty_store =
       (w', Ret (TransferSuccess, n)) \<and>
     map_option stBody (map_of (stObjects w') (TargetObject web_job (fileSpec ''a''))) = Some [10, 20, 30, 40, 50]"
proof -
  obtain w' n where t: "PerformTransfer (web_swift (file_client demo_file) 100) (\<lambda>t. Inr 0) web_job (fileSpec ''a'')
      empty_store = (w', Ret (TransferSuccess, n))"
    using web_run[of web_job "''a''" "\<lambda>t. Inr 0"] by (auto simp: web_job_sel)
  have cl: "wbClient (file_web demo_file :: (store, bytes) web) (the (usHTTPClient web_source)) = file_client demo_file"
    by (simp add: file_web_def)
  note st = web_store.object_store_axioms[of demo_file 100, folded cl]
  have "SymlinkTargetPath (fileSpec ''a'') = []"
    by (simp add: fileSpec_def)
  from web_mirror[OF demo_web_server web_job_sel(1) st this t[folded cl]]
  have "map_option stBody (map_of (stObjects w') (TargetObject web_job (fileSpec ''a''))) = Some [10, 20, 30, 40, 50]"
    by (simp add: wanted_def fileSpec_def demo_file_def)
  with t show ?thesis by (intro exI conjI)
qed

end
