(* ===== verification/GpgClaims.thy ===== *)
theory GpgClaims
  imports Gpg UrlClaims SwiftStore
begin

text \<open>
  The properties of the key ring: what a successful verification means, when keys are downloaded, and
  in which order the key servers are asked.
\<close>

section \<open>Verification\<close>

text \<open>Keys are only ever added to a key ring.\<close>

definition ring_extends :: "'e keyring \<Rightarrow> 'e keyring \<Rightarrow> bool" where
  "ring_extends k k' \<longleftrightarrow> (\<exists>el. k' = k\<lparr>krEntityList := krEntityList k @ el\<rparr>)"

lemma ring_extends_refl [simp]: "ring_extends k k"
  by (auto simp: ring_extends_def intro!: exI[of _ "[]"])

lemma addKeys_ring: "addKeys sw pg bs k w = (w', Inr k') \<Longrightarrow> ring_extends k k'"
  by (cases "bs = []") (auto simp: addKeys_def ring_extends_def split: prod.splits sum.splits intro: exI[of _ "[]"])

lemma collectKeys_signatures:
  assumes "collectKeys web sw pg k ps err acc w = (w', Ret (Inr keys))"
  shows "is_eof err \<and> (\<forall>p\<in>set ps. \<exists>i. p = SignaturePacket (Some i))"
  using assms
proof (induction ps arbitrary: acc w)
  case (Cons p ps)
  then show ?case
    by (auto split: packet.splits option.splits if_splits prod.splits sum.splits)
qed (auto split: if_splits)

lemma collectKeys_known:
  assumes "\<forall>i. SignaturePacket (Some i) \<in> set ps \<longrightarrow> pgKeysById pg (krEntityList k) i \<noteq> []"
  shows "\<exists>r. collectKeys web sw pg k ps err [] w = (w, r) \<and> (\<forall>keys. r = Ret (Inr keys) \<longrightarrow> keys = [])"
  using assms
proof (induction ps)
  case (Cons p ps)
  then show ?case by (cases p) (auto split: option.splits)
qed auto

lemma verifyGPGSignature_cases:
  assumes "verifyGPGSignature web sw pg m blk (w, k) = ((w', k'), r)"
  shows "ring_extends k k' \<and>
    (r = Ret None \<longrightarrow> abType blk = SignatureType \<and> snd (abBody blk) = None \<and>
       pgCheckDetachedSignature pg (krEntityList k') m (fst (abBody blk)) = None \<and>
       is_eof (snd (pgPackets pg (fst (abBody blk)))) \<and>
       (\<forall>p\<in>set (fst (pgPackets pg (fst (abBody blk)))). \<exists>i. p = SignaturePacket (Some i)))"
proof -
  obtain sig e where b: "abBody blk = (sig, e)" by fastforce
  show ?thesis
  proof (cases "abType blk = SignatureType \<and> e = None")
    case False
    with assms b show ?thesis by (auto simp: verifyGPGSignature_def Let_def split: option.splits if_splits)
  next
    case True
    obtain w1 c where c: "collectKeys web sw pg k (fst (pgPackets pg sig)) (snd (pgPackets pg sig)) [] w = (w1, c)"
      by fastforce
    show ?thesis
    proof (cases "\<exists>keys. c = Ret (Inr keys)")
      case False
      with assms b True c show ?thesis
        by (auto simp: verifyGPGSignature_def Let_def split: outcome.splits sum.splits)
    next
      case True2: True
      then obtain keys where keys: "c = Ret (Inr keys)" by blast
      obtain w2 a where a: "addKeys sw pg keys k w1 = (w2, a)" by fastforce
      show ?thesis
      proof (cases a)
        case (Inl err)
        with assms b True c keys a Inl show ?thesis by (auto simp: verifyGPGSignature_def Let_def)
      next
        case (Inr k2)
        from collectKeys_signatures[OF c[unfolded keys]] addKeys_ring[OF a[unfolded Inr]]
          assms b True c keys a Inr show ?thesis by (auto simp: verifyGPGSignature_def Let_def)
      qed
    qed
  qed
qed

lemma verified_signature:
  assumes "VerifyDetachedGPGSignature web sw pg m s (w, k) = ((w', k'), Ret None)"
  shows "\<exists>blk. pgArmorDecode pg s = Inr blk \<and> abType blk = SignatureType \<and>
    pgCheckDetachedSignature pg (krEntityList k') m (fst (abBody blk)) = None \<and>
    ring_extends k k'"
  using assms verifyGPGSignature_cases[of web sw pg m _ w k w' k' "Ret None"]
  by (fastforce simp: VerifyDetachedGPGSignature_def split: sum.splits)

section \<open>Key servers\<close>

text \<open>\<open>asked web keyid vs w w'\<close>: all the servers \<open>vs\<close> were asked in turn and none had the key.\<close>

fun asked :: "('w, 'b) web \<Rightarrow> string \<Rightarrow> string list \<Rightarrow> 'w \<Rightarrow> 'w \<Rightarrow> bool" where
  "asked web keyid [] w w' = (w' = w)"
| "asked web keyid (v # vs) w w' =
     (\<exists>w1 e. getPublicKeyFromServer web (replaceAll v ''{keyid}'' keyid) w = (w1, Inl e) \<and> asked web keyid vs w1 w')"

section \<open>A toy signature scheme\<close>

text \<open>
  Keys are their identifiers, a signature is the signed message itself (made by key 1), and a key is
  armored as its identifier.
\<close>

definition toy_pgp :: "(store, bytes, u64) pgp" where
  "toy_pgp =
     \<lparr>pgArmorDecode = (\<lambda>s. if s = [] then Inl EOF else Inr \<lparr>abType = SignatureType, abBody = (s, None)\<rparr>),
      pgClearsignDecode = (\<lambda>s. if s = [] then None else Some (s, \<lparr>abType = SignatureType, abBody = (s, None)\<rparr>)),
      pgPackets = (\<lambda>s. ([SignaturePacket (Some 1)], EOF)),
      pgReadArmoredKeyRing = (\<lambda>r w. (w, Inr (map ucast r))),
      pgKeysById = (\<lambda>el i. filter (\<lambda>e. e = i) el),
      pgCheckDetachedSignature = (\<lambda>el m s. if 1 \<in> set el \<and> s = m then None else Some (Err ''bad signature'')),
      pgSha256Hex = (\<lambda>b. ''00'')\<rparr>"

text \<open>The first server answers with \<^verbatim>\<open>no found\<close>, the second one with key 1.\<close>

definition key_site :: site where
  "key_site =
     [''http://down/0000000000000001'' \<mapsto> (''text/plain'', (bytes_of_string ''no found'', [])),
      ''http://keys/0000000000000001'' \<mapsto> (''text/plain'', ([1], []))]"

definition toy_ring :: "u64 keyring" where
  "toy_ring = \<lparr>krEntityList = [], krKeyserverURLPatterns = [''http://down/{keyid}'', ''http://keys/{keyid}''],
     krSwiftContainer = None\<rparr>"

section \<open>Properties\<close>

text \<open>C22: what a verified signature means. When a verification succeeds, the signature is an armored block
  of the right type that consists of signature packets with issuers only, and the library has accepted
  it for exactly the message (for a clear-signed message: the text inside the signature) with the keys of
  the key ring as it is afterwards. Whatever the outcome, the key ring only grows.\<close>

theorem verification_sound:
  "(VerifyDetachedGPGSignature web sw pg m s (w, k) = ((w', k'), r) \<longrightarrow>
      ring_extends k k' \<and>
      (r = Ret None \<longrightarrow> (\<exists>blk. pgArmorDecode pg s = Inr blk \<and> abType blk = SignatureType \<and>
         pgCheckDetachedSignature pg (krEntityList k') m (fst (abBody blk)) = None \<and>
         (\<forall>p\<in>set (fst (pgPackets pg (fst (abBody blk)))). \<exists>i. p = SignaturePacket (Some i))))) \<and>
   (VerifyClearSignedGPGSignature web sw pg m (w, k) = ((w', k'), r) \<longrightarrow>
      ring_extends k k' \<and>
      (r = Ret None \<longrightarrow> (\<exists>plain blk. pgClearsignDecode pg m = Some (plain, blk) \<and> abType blk = SignatureType \<and>
         pgCheckDetachedSignature pg (krEntityList k') plain (fst (abBody blk)) = None \<and>
         (\<forall>p\<in>set (fst (pgPackets pg (fst (abBody blk)))). \<exists>i. p = SignaturePacket (Some i)))))"
proof (intro conjI impI)
  assume v: "VerifyDetachedGPGSignature web sw pg m s (w, k) = ((w', k'), r)"
  show "ring_extends k k'"
    using v verifyGPGSignature_cases[of web sw pg m _ w k w' k' r]
    by (auto simp: VerifyDetachedGPGSignature_def split: sum.splits)
  assume "r = Ret None"
  with v show "\<exists>blk. pgArmorDecode pg s = Inr blk \<and> abType blk = SignatureType \<and>
         pgCheckDetachedSignature pg (krEntityList k') m (fst (abBody blk)) = None \<and>
         (\<forall>p\<in>set (fst (pgPackets pg (fst (abBody blk)))). \<exists>i. p = SignaturePacket (Some i))"
    using verifyGPGSignature_cases[of web sw pg m _ w k w' k' r]
    by (auto simp: VerifyDetachedGPGSignature_def split: sum.splits)
next
  assume v: "VerifyClearSignedGPGSignature web sw pg m (w, k) = ((w', k'), r)"
  show "ring_extends k k'"
    using v verifyGPGSignature_cases[of web sw pg _ _ w k w' k' r]
    by (auto simp: VerifyClearSignedGPGSignature_def split: option.splits)
  assume "r = Ret None"
  with v show "\<exists>plain blk. pgClearsignDecode pg m = Some (plain, blk) \<and> abType blk = SignatureType \<and>
         pgCheckDetachedSignature pg (krEntityList k') plain (fst (abBody blk)) = None \<and>
         (\<forall>p\<in>set (fst (pgPackets pg (fst (abBody blk)))). \<exists>i. p = SignaturePacket (Some i))"
    using verifyGPGSignature_cases[of web sw pg _ _ w k w' k' r]
    by (auto simp: VerifyClearSignedGPGSignature_def split: option.splits)
qed

lemma toy_key_url:
  "replaceAll ''http://down/{keyid}'' ''{keyid}'' (hex16 1) = ''http://down/0000000000000001''"
  "replaceAll ''http://keys/{keyid}'' ''{keyid}'' (hex16 1) = ''http://keys/0000000000000001''"
  by (simp_all add: hex16_def hexUpper_def hasPrefix_def upt_rec replaceAll.simps)

lemma toy_servers:
  "getPublicKeyFromServer (site_web key_site) ''http://down/0000000000000001'' w = (w, Inl errNoSuchPublicKey)"
  "getPublicKeyFromServer (site_web key_site) ''http://keys/0000000000000001'' w = (w, Inr [1])"
proof -
  have "map lower (string_of_bytes (bytes_of_string ''no found'')) = ''no found''"
    by (simp add: lower_def)
  moreover have "match_string noPublicKeyFoundRx ''no found''"
    by (simp add: match_string_def find_submatch_def noPublicKeyFoundRx_def Optional_def hasPrefix_def advance_def
        opt_word_def is_word_def is_digit_def)
  ultimately show "getPublicKeyFromServer (site_web key_site) ''http://down/0000000000000001'' w = (w, Inl errNoSuchPublicKey)"
    by (simp add: getPublicKeyFromServer_def key_site_def site_response_def Let_def)
  have "\<not> match_string noPublicKeyFoundRx (map lower (string_of_bytes [1]))"
    by (simp add: match_string_def find_submatch_def noPublicKeyFoundRx_def string_of_bytes_def hasPrefix_def lower_def)
  then show "getPublicKeyFromServer (site_web key_site) ''http://keys/0000000000000001'' w = (w, Inr [1])"
    by (simp add: getPublicKeyFromServer_def key_site_def site_response_def Let_def)
qed

lemma toy_verification:
  "VerifyDetachedGPGSignature (site_web key_site) mem_swift toy_pgp [7] [7] (empty_store, toy_ring) =
     ((empty_store, toy_ring\<lparr>krEntityList := [1]\<rparr>), Ret None)"
  by (simp add: VerifyDetachedGPGSignature_def verifyGPGSignature_def toy_pgp_def toy_ring_def toy_key_url
      toy_servers uploadPublicKey_def addKeys_def Let_def)

theorem verification_sound_witness:
  "VerifyDetachedGPGSignature (site_web key_site) mem_swift toy_pgp [7] [7] (empty_store, toy_ring) =
     ((empty_store, toy_ring\<lparr>krEntityList := [1]\<rparr>), Ret None) \<and>
   ring_extends toy_ring (toy_ring\<lparr>krEntityList := [1]\<rparr>) \<and> pgCheckDetachedSignature toy_pgp [1] [7] [7] = None"
  using verification_sound[of "site_web key_site" mem_swift toy_pgp "[7]" "[7]" empty_store toy_ring empty_store
      "toy_ring\<lparr>krEntityList := [1]\<rparr>" "Ret None"] toy_verification
  by (auto simp: toy_pgp_def)

text \<open>Keys that are known are not downloaded. When the key ring has a key for the issuer of every packet of
  a signature, its verification neither makes a request nor changes the key ring.\<close>

theorem known_keys_offline:
  assumes "pgArmorDecode pg s = Inr blk"
    and "\<forall>i. SignaturePacket (Some i) \<in> set (fst (pgPackets pg (fst (abBody blk)))) \<longrightarrow>
           pgKeysById pg (krEntityList k) i \<noteq> []"
  shows "\<exists>r. VerifyDetachedGPGSignature web sw pg m s (w, k) = ((w, k), r)"
proof -
  obtain r where "collectKeys web sw pg k (fst (pgPackets pg (fst (abBody blk))))
      (snd (pgPackets pg (fst (abBody blk)))) [] w = (w, r)" "\<forall>keys. r = Ret (Inr keys) \<longrightarrow> keys = []"
    using collectKeys_known[OF assms(2)] by blast
  then show ?thesis using assms(1)
    by (cases r) (auto simp: VerifyDetachedGPGSignature_def verifyGPGSignature_def Let_def addKeys_def
        split: prod.splits option.splits sum.splits)
qed

theorem known_keys_offline_witness:
  "\<exists>r. VerifyDetachedGPGSignature (site_web key_site) mem_swift toy_pgp [7] [7] (empty_store, toy_ring\<lparr>krEntityList := [1]\<rparr>) =
     ((empty_store, toy_ring\<lparr>krEntityList := [1]\<rparr>), r)"
  by (rule known_keys_offline[of _ _ "\<lparr>abType = SignatureType, abBody = ([7], None)\<rparr>"]) (simp_all add: toy_pgp_def)

text \<open>C37: the order of the key servers. The servers are asked one after the other in the order in which they
  are configured; the first that delivers a key ends the search, with the key uploaded to the cache
  container if there is one (its error is the error of the search). Only when all servers have
  been asked in vain is there no such key.\<close>

theorem getPublicKey_order:
  assumes "getPublicKey web sw pg cntr vs keyid w = (w', r)"
  shows "asked web keyid vs w w' \<and> r = Inl errNoSuchPublicKey \<or>
    (\<exists>pre v post w1 w2 buf. vs = pre @ v # post \<and> asked web keyid pre w w1 \<and>
       getPublicKeyFromServer web (replaceAll v ''{keyid}'' keyid) w1 = (w2, Inr buf) \<and>
       uploadPublicKey sw pg cntr buf w2 = (w', r) \<and> (cntr = None \<longrightarrow> r = Inr buf \<and> w' = w2))"
  using assms
proof (induction vs arbitrary: w)
  case (Cons v vs)
  obtain w1 a where a: "getPublicKeyFromServer web (replaceAll v ''{keyid}'' keyid) w = (w1, a)" by fastforce
  show ?case
  proof (cases a)
    case (Inl e)
    with Cons.prems a have "getPublicKey web sw pg cntr vs keyid w1 = (w', r)" by simp
    from Cons.IH[OF this] show ?thesis
    proof (elim disjE exE conjE)
      assume "asked web keyid vs w1 w'" "r = Inl errNoSuchPublicKey"
      with a Inl show ?thesis by auto
    next
      fix pre v' post w2 w3 buf
      assume "vs = pre @ v' # post" "asked web keyid pre w1 w2"
        "getPublicKeyFromServer web (replaceAll v' ''{keyid}'' keyid) w2 = (w3, Inr buf)"
        "uploadPublicKey sw pg cntr buf w3 = (w', r)" "cntr = None \<longrightarrow> r = Inr buf \<and> w' = w3"
      with a Inl show ?thesis
        by (intro disjI2 exI[of _ "v # pre"] exI[of _ v'] exI[of _ post] exI[of _ w2] exI[of _ w3] exI[of _ buf]) auto
    qed
  next
    case (Inr buf)
    with Cons.prems a have "uploadPublicKey sw pg cntr buf w1 = (w', r)" by simp
    with a Inr show ?thesis
      by (intro disjI2 exI[of _ "[]"] exI[of _ v] exI[of _ vs] exI[of _ w] exI[of _ w1] exI[of _ buf])
        (auto simp: uploadPublicKey_def)
  qed
qed simp

theorem getPublicKey_order_witness:
  "getPublicKey (site_web key_site) mem_swift toy_pgp None (krKeyserverURLPatterns toy_ring) (hex16 1) empty_store =
     (empty_store, Inr [1])"
  using getPublicKey_order[of "site_web key_site" mem_swift toy_pgp None "krKeyserverURLPatterns toy_ring" "hex16 1" empty_store]
  by (simp add: toy_ring_def toy_key_url toy_servers uploadPublicKey_def)

end
