(* ===== verification/YumClaims.thy ===== *)
theory YumClaims
  imports Yum GpgClaims Scraper
begin

text \<open>
  The properties of the Yum source: which files are listed and in which order, what a verified signature
  covers, and that the metadata that is transferred is the metadata that was read.
\<close>

section \<open>A successful listing, step by step\<close>

text \<open>What a compressed document contains.\<close>

definition unpacks :: "repoLib \<Rightarrow> bytes \<Rightarrow> bytes \<Rightarrow> bool" where
  "unpacks lib raw b \<longleftrightarrow> decompressXML lib [] raw () = ((), Ret (Inr b))"

lemma decompressXML_returns:
  "decompressXML lib uri raw s = (s', Ret (Inr b)) \<longleftrightarrow> s' = s \<and> unpacks lib raw b"
  by (auto simp: unpacks_def decompressXML_def returns unpackGzip_def unpackXz_def unpackZstd_def unpack_returns)

lemma downloadAndParseXML_returns:
  "downloadAndParseXML web lib u path parse s = (s', Ret (Inr (b, x))) \<longleftrightarrow>
     (\<exists>raw. fetch web u path s = (s', Ret (Inr raw)) \<and> unpacks lib raw b \<and> parse b = Inr x)"
  by (auto simp: downloadAndParseXML_def Let_def returns decompressXML_returns)

lemma for_each_send_if:
  assumes "for_each (\<lambda>pkg. if handlesArchitecture s (fst pkg) then send (snd pkg) else give ()) pkgs st = (st', Ret (Inr u))"
  shows "stage {} (map snd (filter (\<lambda>pkg. handlesArchitecture s (fst pkg)) pkgs)) st st'"
proof -
  have "concat (map (\<lambda>pkg. if P pkg then [snd pkg] else []) pkgs) = map snd (filter P pkgs)"
    for P :: "string \<times> string \<Rightarrow> bool"
    by (rule concat_map_singleton_filter)
  moreover have "stage {} (concat (map (\<lambda>pkg. if handlesArchitecture s (fst pkg) then [snd pkg] else []) pkgs)) st st'"
    using assms by (rule for_each_stage) (auto simp: give_def split: if_splits dest: send_stage)
  ultimately show ?thesis by simp
qed

lemma for_each_send: "for_each send ps st = (st', Ret (Inr u)) \<Longrightarrow> stage {} ps st st'"
  using for_each_stage[of send ps st st' u "{}" "\<lambda>p. [p]"] send_stage by auto

lemma for_each_send_snd: "for_each (\<lambda>e. send (snd e)) es st = (st', Ret (Inr u)) \<Longrightarrow> stage {} (map snd es) st st'"
  using for_each_stage[of "\<lambda>e. send (snd e)" es st st' u "{}" "\<lambda>e. [snd e]"] send_stage by auto

lemma for_each_send_cached:
  "for_each (\<lambda>e. send (snd e)) es st = (st', Ret (Inr u)) \<Longrightarrow>
     lsCache st' = lsCache st \<and> lsOut st' = lsOut st @ map (\<lambda>e. getFileSpec_cached (snd e) (lsCache st)) es"
proof (induction es arbitrary: st)
  case (Cons e es)
  then obtain s1 where "send (snd e) st = (s1, Ret (Inr ()))" "for_each (\<lambda>e. send (snd e)) es s1 = (st', Ret (Inr u))"
    by (auto simp: and_then_returns)
  with Cons.IH[of s1] show ?case by (auto simp: send_returns)
qed (simp add: returns)

lemma for_each_send_deltas:
  assumes "for_each (\<lambda>pkg. if handlesArchitecture s (fst pkg) then for_each send (snd pkg) else give ()) pkgs st =
    (st', Ret (Inr u))"
  shows "stage {} (concat (map snd (filter (\<lambda>pkg. handlesArchitecture s (fst pkg)) pkgs))) st st'"
proof -
  have "concat (map (\<lambda>pkg. if P pkg then snd pkg else []) pkgs) = concat (map snd (filter P pkgs))"
    for P :: "string \<times> string list \<Rightarrow> bool"
    by (induction pkgs) auto
  moreover have "stage {} (concat (map (\<lambda>pkg. if handlesArchitecture s (fst pkg) then snd pkg else []) pkgs)) st st'"
    using assms by (rule for_each_stage) (auto simp: give_def split: if_splits dest: for_each_send)
  ultimately show ?thesis by simp
qed

text \<open>
  The signature, from the state \<open>st\<close> after repomd.xml was read to the state \<open>st'\<close>: it is missing at the server,
  or it was fetched and sent and, if that is asked for, verified for the message with the key ring of the
  program, in the world as it was after the fetch.
\<close>

definition signature_ok ::
  "('w, 'b) web \<Rightarrow> ('w, 'r, 'lo) swift \<Rightarrow> ('w, 'r, 'e) pgp \<Rightarrow> YumSource \<Rightarrow> bytes \<Rightarrow> string list \<Rightarrow>
    ('w, 'e) lister \<Rightarrow> ('w, 'e) lister \<Rightarrow> bool" where
  "signature_ok web sw pg s message sg st st' \<longleftrightarrow>
     sg = [] \<and> (\<exists>e. fetch web (the (ysUrlSource s)) signaturePath st = (st', Ret (Inl e)) \<and> is_404 e) \<or>
     sg = [signaturePath] \<and>
       (\<exists>st1 sig. fetch web (the (ysUrlSource s)) signaturePath st = (st1, Ret (Inr sig)) \<and>
         (ysGpgVerification s \<longrightarrow>
            VerifyDetachedGPGSignature web sw pg message sig (lsWorld st1, lsKeys st1) =
              ((lsWorld st', lsKeys st'), Ret None)))"

lemma unless_404_returns: "unless_404 e s = (s', Ret (Inr u)) \<longleftrightarrow> is_404 e \<and> s' = s"
  by (auto simp: unless_404_def returns)

lemma same_cache_stage: "lsCache s' = lsCache s \<Longrightarrow> lsOut s' = lsOut s \<Longrightarrow> stage P [] s s'"
  by (simp add: stage_def)

lemma stage_mono: "stage P a s s' \<Longrightarrow> P \<subseteq> Q \<Longrightarrow> stage Q a s s'"
  unfolding stage_def by blast

lemma handleSignature_run:
  assumes "handleSignature web sw pg s message st = (st', Ret (Inr u))"
  shows "\<exists>sg. signature_ok web sw pg s message sg st st' \<and> stage {signaturePath} sg st st'"
proof -
  obtain s1 r where f: "fetch web (the (ysUrlSource s)) signaturePath st = (s1, r)" by fastforce
  consider e where "r = Ret (Inl e)" | sig where "r = Ret (Inr sig)"
    using f fetch_no_panic[of web "the (ysUrlSource s)" signaturePath st s1] by (cases r) (metis sum.exhaust)+
  then show ?thesis
  proof cases
    case 1
    then have e: "is_404 e" "st' = s1" using assms f by (simp_all add: handleSignature_def unless_404_returns)
    have "stage {signaturePath} [] st st'"
      using fetch_failed[OF f[unfolded 1]] e by (intro same_cache_stage) auto
    moreover have "signature_ok web sw pg s message [] st st'" using f 1 e by (auto simp: signature_ok_def)
    ultimately show ?thesis by blast
  next
    case 2
    from f[unfolded 2] have st1: "stage {signaturePath} [] st s1" by (rule fetch_stage)
    from assms f 2 obtain s2 where sent: "send signaturePath s1 = (s2, Ret (Inr ()))"
      and v: "(if ysGpgVerification s
            then verified web (the (ysUrlSource s)) (VerifyDetachedGPGSignature web sw pg message sig)
            else give ()) s2 = (st', Ret (Inr u))"
      by (auto simp: handleSignature_def and_then_returns)
    have "stage {} [] s2 st'" using v by (auto simp: give_def split: if_splits dest: verified_stage)
    from stage_trans[OF st1 stage_trans[OF send_stage[OF sent] this]]
    have "stage {signaturePath} [signaturePath] st st'" by simp
    moreover have "VerifyDetachedGPGSignature web sw pg message sig (lsWorld s1, lsKeys s1) =
        ((lsWorld st', lsKeys st'), Ret None)" if "ysGpgVerification s"
      using v sent that by (auto simp: verified_returns send_returns)
    with f 2 have "signature_ok web sw pg s message [signaturePath] st st'" by (auto simp: signature_ok_def)
    ultimately show ?thesis by blast
  qed
qed

lemma handleKey_run:
  assumes "handleKey web s st = (st', Ret (Inr u))"
  shows "\<exists>ky. (ky = [] \<or> ky = [repomdKeyPath]) \<and> stage {repomdKeyPath} ky st st'"
proof -
  obtain s1 r where f: "fetch web (the (ysUrlSource s)) repomdKeyPath st = (s1, r)" by fastforce
  consider e where "r = Ret (Inl e)" | key where "r = Ret (Inr key)"
    using f fetch_no_panic[of web "the (ysUrlSource s)" repomdKeyPath st s1] by (cases r) (metis sum.exhaust)+
  then show ?thesis
  proof cases
    case 1
    then have e: "st' = s1" using assms f by (simp add: handleKey_def unless_404_returns)
    with fetch_failed[OF f[unfolded 1]] show ?thesis by (intro exI[of _ "[]"]) (simp add: same_cache_stage)
  next
    case 2
    from f[unfolded 2] have st1: "stage {repomdKeyPath} [] st s1" by (rule fetch_stage)
    from assms f 2 have "send repomdKeyPath s1 = (st', Ret (Inr u))" by (simp add: handleKey_def)
    from stage_trans[OF st1 send_stage[OF this]] show ?thesis by (intro exI[of _ "[repomdKeyPath]"]) simp
  qed
qed

lemma listPackages_run:
  assumes "listPackages web lib s href st = (st', Ret (Inr u))"
  shows "\<exists>buf packages. rpPrimary lib buf = Inr packages \<and>
    stage {href} (map snd (filter (\<lambda>pkg. handlesArchitecture s (fst pkg)) packages)) st st'"
proof -
  from assms obtain s1 buf packages raw where
    f: "fetch web (the (ysUrlSource s)) href st = (s1, Ret (Inr raw))" and p: "rpPrimary lib buf = Inr packages"
    and l: "for_each (\<lambda>pkg. if handlesArchitecture s (fst pkg) then send (snd pkg) else give ()) packages s1 =
      (st', Ret (Inr u))"
    by (auto simp: listPackages_def and_then_returns downloadAndParseXML_returns)
  from stage_trans[OF fetch_stage(1)[OF f] for_each_send_if[OF l]] p show ?thesis by auto
qed

text \<open>The delta packages, none if there is no document of them.\<close>

definition deltas_of :: "repoLib \<Rightarrow> string option \<Rightarrow> (string \<times> string list) list \<Rightarrow> bool" where
  "deltas_of lib href deltas \<longleftrightarrow>
     (case href of None \<Rightarrow> deltas = [] | Some h \<Rightarrow> \<exists>buf. rpPrestodelta lib buf = Inr deltas)"

lemma listDeltas_run:
  assumes "listDeltas web lib s href st = (st', Ret (Inr u))"
  shows "\<exists>deltas. deltas_of lib href deltas \<and>
    stage (set_option href) (concat (map snd (filter (\<lambda>pkg. handlesArchitecture s (fst pkg)) deltas))) st st'"
proof (cases href)
  case None
  with assms show ?thesis by (intro exI[of _ "[]"]) (simp add: listDeltas_def deltas_of_def give_def)
next
  case (Some h)
  with assms obtain s1 buf deltas raw where
    f: "fetch web (the (ysUrlSource s)) h st = (s1, Ret (Inr raw))" and p: "rpPrestodelta lib buf = Inr deltas"
    and l: "for_each (\<lambda>pkg. if handlesArchitecture s (fst pkg) then for_each send (snd pkg) else give ()) deltas s1 =
      (st', Ret (Inr u))"
    by (auto simp: listDeltas_def and_then_returns downloadAndParseXML_returns)
  from stage_trans[OF fetch_stage(1)[OF f] for_each_send_deltas[OF l]] p Some show ?thesis
    by (auto simp: deltas_of_def)
qed

text \<open>The paths that a listing sends before \<^verbatim>\<open>repomd.xml\<close>.\<close>

definition yum_paths ::
  "YumSource \<Rightarrow> string list \<Rightarrow> (string \<times> string) list \<Rightarrow> (string \<times> string) list \<Rightarrow> (string \<times> string list) list \<Rightarrow>
    string list \<Rightarrow> string list" where
  "yum_paths s sg entries packages deltas ky =
     sg @ map snd entries @ map snd (filter (\<lambda>pkg. handlesArchitecture s (fst pkg)) packages) @
     concat (map snd (filter (\<lambda>pkg. handlesArchitecture s (fst pkg)) deltas)) @ ky"

definition listed_repo ::
  "('w, 'b) web \<Rightarrow> ('w, 'r, 'lo) swift \<Rightarrow> ('w, 'r, 'e) pgp \<Rightarrow> repoLib \<Rightarrow> YumSource \<Rightarrow> bytes \<Rightarrow> string list \<Rightarrow>
    (string \<times> string) list \<Rightarrow> string \<Rightarrow> (string \<times> string) list \<Rightarrow> (string \<times> string list) list \<Rightarrow> string list \<Rightarrow>
    ('w, 'e) lister \<Rightarrow> ('w, 'e) lister \<Rightarrow> bool" where
  "listed_repo web sw pg lib s message sg entries href packages deltas ky st st' \<longleftrightarrow>
     rpRepomd lib message = Inr entries \<and> signature_ok web sw pg s message sg st st' \<and>
     hrefsByType entries ''primary'' = Some href \<and> (\<exists>buf. rpPrimary lib buf = Inr packages) \<and>
     deltas_of lib (deltaHref (hrefsByType entries)) deltas \<and> (ky = [] \<or> ky = [repomdKeyPath])"

text \<open>Only the signature can change the key ring.\<close>

lemma downloadAndParseXML_same_keys:
  "step_keeps (\<lambda>s s'. lsKeys s' = lsKeys s) (downloadAndParseXML web lib u path parse)"
  by (simp add: downloadAndParseXML_def decompressXML_def unpackGzip_def unpackXz_def unpackZstd_def Let_def same_keys_intros)

lemma listPackages_same_keys: "step_keeps (\<lambda>s s'. lsKeys s' = lsKeys s) (listPackages web lib s href)"
  unfolding listPackages_def by (intro same_keys_intros downloadAndParseXML_same_keys) (simp add: same_keys_intros)

lemma listDeltas_same_keys: "step_keeps (\<lambda>s s'. lsKeys s' = lsKeys s) (listDeltas web lib s href)"
  by (cases href)
    (auto simp: listDeltas_def same_keys_intros intro!: same_keys.kept_and_then same_keys.kept_for_each downloadAndParseXML_same_keys)

lemma handleKey_same_keys: "handleKey web s st = (st', Ret (Inr u)) \<Longrightarrow> lsKeys st' = lsKeys st"
  using step_keeps_ret[OF fetch_same_keys, of web "the (ysUrlSource s)" repomdKeyPath st]
  by (auto simp: handleKey_def unless_404_returns send_returns split: prod.splits outcome.splits sum.splits)

lemma Yum_run:
  assumes "YumSource_listing web sw pg lib s st = (st', Ret (Inr u))"
  shows "\<exists>raw message sg entries href packages deltas ky s1 t2 s2.
    listed_repo web sw pg lib s message sg entries href packages deltas ky s1 t2 \<and> unpacks lib raw message \<and>
    lsKeys st' = lsKeys t2 \<and>
    fetch web (the (ysUrlSource s)) repomdPath st = (s1, Ret (Inr raw)) \<and>
    stage ({signaturePath, href, repomdKeyPath} \<union> set_option (deltaHref (hrefsByType entries)))
      (yum_paths s sg entries packages deltas ky) s1 s2 \<and>
    send repomdPath s2 = (st', Ret (Inr u))"
proof -
  from assms obtain s1 message entries raw t2 t3 t4 href t5 t6 t7 where
    f: "fetch web (the (ysUrlSource s)) repomdPath st = (s1, Ret (Inr raw))" "unpacks lib raw message"
       "rpRepomd lib message = Inr entries"
    and 2: "handleSignature web sw pg s message s1 = (t2, Ret (Inr ()))"
    and 3: "for_each (\<lambda>entry. send (snd entry)) entries t2 = (t3, Ret (Inr ()))"
    and 4: "primaryHref web (the (ysUrlSource s)) (hrefsByType entries) t3 = (t4, Ret (Inr href))"
    and 5: "listPackages web lib s href t4 = (t5, Ret (Inr ()))"
    and 6: "listDeltas web lib s (deltaHref (hrefsByType entries)) t5 = (t6, Ret (Inr ()))"
    and 7: "handleKey web s t6 = (t7, Ret (Inr ()))"
    and 8: "send repomdPath t7 = (st', Ret (Inr u))"
    by (auto simp: YumSource_listing_def and_then_returns downloadAndParseXML_returns)
  from 4 have h: "hrefsByType entries ''primary'' = Some href" "t4 = t3"
    by (auto simp: primaryHref_def returns split: option.splits)
  from handleSignature_run[OF 2] obtain sg where sg: "signature_ok web sw pg s message sg s1 t2"
    "stage {signaturePath} sg s1 t2" by blast
  from listPackages_run[OF 5] h obtain buf packages where pk: "rpPrimary lib buf = Inr packages"
    "stage {href} (map snd (filter (\<lambda>pkg. handlesArchitecture s (fst pkg)) packages)) t3 t5" by blast
  from listDeltas_run[OF 6] obtain deltas where dl: "deltas_of lib (deltaHref (hrefsByType entries)) deltas"
    "stage (set_option (deltaHref (hrefsByType entries)))
      (concat (map snd (filter (\<lambda>pkg. handlesArchitecture s (fst pkg)) deltas))) t5 t6" by blast
  from handleKey_run[OF 7] obtain ky where ky: "ky = [] \<or> ky = [repomdKeyPath]" "stage {repomdKeyPath} ky t6 t7"
    by blast
  have "stage ({signaturePath, href, repomdKeyPath} \<union> set_option (deltaHref (hrefsByType entries)))
      (yum_paths s sg entries packages deltas ky) s1 t7"
    using stage_trans[OF sg(2) stage_trans[OF for_each_send_snd[OF 3] stage_trans[OF pk(2) stage_trans[OF dl(2) ky(2)]]]]
    unfolding yum_paths_def by (elim stage_mono) auto
  moreover have "listed_repo web sw pg lib s message sg entries href packages deltas ky s1 t2"
    using f(3) sg(1) h(1) pk(1) dl(1) ky(1) by (auto simp: listed_repo_def)
  moreover have "step_keeps (\<lambda>a b. lsKeys b = lsKeys a) (for_each (\<lambda>entry. send (snd entry)) entries)"
    by (simp add: same_keys_intros)
  from step_keeps_ret[OF this 3] have "lsKeys t3 = lsKeys t2" .
  then have "lsKeys st' = lsKeys t2"
    using h(2) step_keeps_ret[OF listPackages_same_keys 5] step_keeps_ret[OF listDeltas_same_keys 6]
      handleKey_same_keys[OF 7] step_keeps_ret[OF send_same_keys 8] by simp
  ultimately show ?thesis using f(1,2) 8 by blast
qed

lemma hrefsByType_range: "hrefsByType entries t = Some href \<Longrightarrow> href \<in> snd ` set entries"
proof (induction entries rule: rev_induct)
  case (snoc e es)
  then show ?case by (auto simp: hrefsByType_def split: if_splits)
qed (simp add: hrefsByType_def)

section \<open>Bad signatures\<close>

lemma downloadAndParseXML_never_gpg [simp]: "never_gpg (downloadAndParseXML web lib u path parse)"
  by (auto simp: downloadAndParseXML_def decompressXML_def Let_def ErrMessageGPGVerificationFailed_def
      intro!: and_then_never_gpg parseWith_never_gpg)

lemma unless_404_never_gpg:
  "unless_404 e s = (s', Ret (Inl e')) \<Longrightarrow> e' = e"
  by (auto simp: unless_404_def give_def fail_with_def split: if_splits)

lemma signature_error_sel [simp]:
  "leMessage (signature_error web u err) = ErrMessageGPGVerificationFailed" "leInner (signature_error web u err) = Some err"
  by (simp_all add: signature_error_def)

text \<open>The signature file is sent before it is verified.\<close>

lemma handleSignature_bad:
  "handleSignature web sw pg s message st = (st', Ret (Inl e)) \<and> leMessage e = ErrMessageGPGVerificationFailed \<longleftrightarrow>
     ysGpgVerification s \<and>
     (\<exists>st1 sig w k err. fetch web (the (ysUrlSource s)) signaturePath st = (st1, Ret (Inr sig)) \<and>
        VerifyDetachedGPGSignature web sw pg message sig (lsWorld st1, lsKeys st1) = ((w, k), Ret (Some err)) \<and>
        e = signature_error web (the (ysUrlSource s)) err \<and>
        st' = st1\<lparr>lsWorld := w, lsKeys := k, lsOut := lsOut st1 @ [getFileSpec_cached signaturePath (lsCache st1)]\<rparr>)"
proof -
  obtain s1 r where f: "fetch web (the (ysUrlSource s)) signaturePath st = (s1, r)" by fastforce
  consider e' where "r = Ret (Inl e')" | sig where "r = Ret (Inr sig)"
    using f fetch_no_panic[of web "the (ysUrlSource s)" signaturePath st s1] by (cases r) (metis sum.exhaust)+
  then show ?thesis
  proof cases
    case 1
    have "leMessage e' \<noteq> ErrMessageGPGVerificationFailed"
      using f 1 fetch_never_gpg[of web "the (ysUrlSource s)" signaturePath] unfolding never_gpg_def by blast
    then have "\<not> (handleSignature web sw pg s message st = (st', Ret (Inl e)) \<and> leMessage e = ErrMessageGPGVerificationFailed)"
      using f 1 unless_404_never_gpg[of e' s1 st' e] by (auto simp: handleSignature_def)
    with f 1 show ?thesis by simp
  next
    case 2
    obtain wk r' where v: "VerifyDetachedGPGSignature web sw pg message sig (lsWorld s1, lsKeys s1) = (wk, r')" by fastforce
    show ?thesis
    proof (cases "ysGpgVerification s")
      case True
      with f 2 v show ?thesis
        by (cases wk)
          (auto simp: handleSignature_def and_then_def send_def verified_def split: outcome.splits option.splits)
    next
      case False
      with f 2 show ?thesis by (simp add: handleSignature_def and_then_def send_def give_def)
    qed
  qed
qed

lemma primaryHref_never_gpg: "never_gpg (primaryHref web u hrefs)"
  by (simp add: primaryHref_def ErrMessageGPGVerificationFailed_def split: option.split)

lemma listPackages_never_gpg: "never_gpg (listPackages web lib s href)"
  unfolding listPackages_def by (intro and_then_never_gpg for_each_never_gpg) simp_all

lemma listDeltas_never_gpg: "never_gpg (listDeltas web lib s href)"
  by (cases href) (auto simp: listDeltas_def intro!: and_then_never_gpg for_each_never_gpg)

lemma handleKey_never_gpg: "never_gpg (handleKey web s)"
  unfolding never_gpg_def
proof (intro allI impI)
  fix st st' e assume k: "handleKey web s st = (st', Ret (Inl e))"
  obtain s1 r where f: "fetch web (the (ysUrlSource s)) repomdKeyPath st = (s1, r)" by fastforce
  with k have "r = Ret (Inl e)"
    by (auto simp: handleKey_def send_def dest: unless_404_never_gpg split: outcome.splits sum.splits)
  with f fetch_never_gpg[of web "the (ysUrlSource s)" repomdKeyPath] show "leMessage e \<noteq> ErrMessageGPGVerificationFailed"
    unfolding never_gpg_def by blast
qed

lemma listing_bad:
  assumes "leMessage e = ErrMessageGPGVerificationFailed"
  shows "YumSource_listing web sw pg lib s st0 = (st', Ret (Inl e)) \<longleftrightarrow>
    (\<exists>s1 message entries raw. fetch web (the (ysUrlSource s)) repomdPath st0 = (s1, Ret (Inr raw)) \<and>
       unpacks lib raw message \<and> rpRepomd lib message = Inr entries \<and>
       handleSignature web sw pg s message s1 = (st', Ret (Inl e)))"
proof -
  let ?rest = "\<lambda>es. and_then (for_each (\<lambda>entry. send (snd entry)) es) (\<lambda>u.
     and_then (primaryHref web (the (ysUrlSource s)) (hrefsByType es)) (\<lambda>href.
     and_then (listPackages web lib s href) (\<lambda>u.
     and_then (listDeltas web lib s (deltaHref (hrefsByType es))) (\<lambda>u.
     and_then (handleKey web s) (\<lambda>u. send repomdPath)))))"
  let ?read = "downloadAndParseXML web lib (the (ysUrlSource s)) repomdPath (rpRepomd lib)"
  have rest: "never_gpg (?rest es)" for es
    by (intro and_then_never_gpg) (simp_all add: for_each_never_gpg primaryHref_never_gpg listPackages_never_gpg
      listDeltas_never_gpg handleKey_never_gpg)
  have 1: "YumSource_listing web sw pg lib s st0 = (st', Ret (Inl e)) \<longleftrightarrow>
      ?read st0 = (st', Ret (Inl e)) \<or> (\<exists>s1 p. ?read st0 = (s1, Ret (Inr p)) \<and>
        and_then (handleSignature web sw pg s (fst p)) (\<lambda>u. ?rest (snd p)) s1 = (st', Ret (Inl e)))"
    unfolding YumSource_listing_def by (rule and_then_fails)
  have 2: "?read st0 \<noteq> (st', Ret (Inl e))"
    using assms downloadAndParseXML_never_gpg[of web lib "the (ysUrlSource s)" repomdPath "rpRepomd lib"]
    unfolding never_gpg_def by blast
  have 3: "and_then (handleSignature web sw pg s m) (\<lambda>u. ?rest es) s1 = (st', Ret (Inl e)) \<longleftrightarrow>
      handleSignature web sw pg s m s1 = (st', Ret (Inl e))" for m es s1
    unfolding and_then_fails[of "handleSignature web sw pg s m"] using assms rest[unfolded never_gpg_def] by blast
  have "YumSource_listing web sw pg lib s st0 = (st', Ret (Inl e)) \<longleftrightarrow>
      (\<exists>s1 message entries. ?read st0 = (s1, Ret (Inr (message, entries))) \<and>
        handleSignature web sw pg s message s1 = (st', Ret (Inl e)))"
    unfolding 1 3 using 2 by (metis fst_conv prod.collapse snd_conv)
  then show ?thesis unfolding downloadAndParseXML_returns by blast
qed

section \<open>A repository\<close>

text \<open>
  A small repository at the toy site: two packages of different architectures, a signature that is the
  signed document itself, no key file. The parsers accept anything; nothing is compressed.
\<close>

definition toy_lib :: repoLib where
  "toy_lib =
     \<lparr>rpGzip = (\<lambda>b. Inl EOF), rpXz = (\<lambda>b. Inl EOF), rpZstd = (\<lambda>b. Inl EOF),
      rpRepomd = (\<lambda>b. Inr [(''primary'', ''p.xml'')]),
      rpPrimary = (\<lambda>b. Inr [(''x86_64'', ''a.rpm''), (''ppc'', ''b.rpm'')]),
      rpPrestodelta = (\<lambda>b. Inr []),
      rpRelease = (\<lambda>r b. (\<lparr>rlArchitectures = [''amd64''], rlEntries = [''main/binary-amd64/Packages.gz'']\<rparr>, None)),
      rpPackages = (\<lambda>ps b. ([''pool/a.deb''], None)),
      rpSources = (\<lambda>ss b. ([], None))\<rparr>"

definition toy_repo :: site where
  "toy_repo =
     [''http://h/repodata/repomd.xml'' \<mapsto> (''text/xml'', ([9], [])),
      ''http://h/repodata/repomd.xml.asc'' \<mapsto> (''text/plain'', ([9], [])),
      ''http://h/p.xml'' \<mapsto> (''text/xml'', ([8], []))]"

definition toy_yum :: YumSource where
  "toy_yum =
     \<lparr>ysURLString = ''http://h/'', ysClientCertificatePath = [], ysClientCertificateKeyPath = [], ysServerCAPath = [],
      ysArchitectures = [''x86_64''], ysVerifySignature = None, ysUrlSource = Some site_source,
      ysGpgVerification = True\<rparr>"

definition site_uri :: "string \<Rightarrow> string" where
  "site_uri p = ''http://h/'' @ trimPrefix p ''/''"

lemma site_URL:
  "getURLForPath (site_web site) site_source p = (path_url (''/'' @ trimPrefix p ''/''))\<lparr>uHost := ''h''\<rparr>"
  by (simp add: site_source_def getURLForPath_def path_url_def)

lemma site_client_of: "usHTTPClient site_source = Some DefaultClient"
  by (simp add: site_source_def)

lemma fileURI_site: "fileURI (site_web site) site_source p = site_uri p"
  by (simp add: fileURI_def site_URL site_uri_def path_url_def)

lemma fetch_site:
  "fetch (site_web site) site_source p s =
     (case site (site_uri p) of
        None \<Rightarrow> (s, Ret (Inl \<lparr>leLocation = site_uri p, leMessage = ''GET returned status 404'',
                   leInner = None\<rparr>))
      | Some (ct, doc) \<Rightarrow>
          (s\<lparr>lsCache := (lsCache s)(p \<mapsto> cacheEntry p (fst doc) (header_set no_header ''Content-Type'' ct))\<rparr>,
           Ret (Inr (fst doc))))"
  by (simp add: fetch_def getFileContents_def site_URL path_url_def site_response_def
      site_client_of site_uri_def status_defs Let_def decimal.simps split: option.split prod.split)

lemma verify_known [simp]:
  "VerifyDetachedGPGSignature web sw toy_pgp [9] [9] (w, toy_ring\<lparr>krEntityList := [1]\<rparr>) =
     ((w, toy_ring\<lparr>krEntityList := [1]\<rparr>), Ret None)"
  by (simp add: VerifyDetachedGPGSignature_def verifyGPGSignature_def toy_pgp_def toy_ring_def addKeys_def Let_def)

lemma toy_download:
  assumes "site (site_uri p) = Some (ct, [x], toks)"
  shows "downloadAndParseXML (site_web site) toy_lib site_source p parse s =
    parseWith ''error while parsing XML'' (site_uri p) parse [x]
      (s\<lparr>lsCache := (lsCache s)(p \<mapsto> cacheEntry p [x] (header_set no_header ''Content-Type'' ct))\<rparr>)"
  using assms
  by (simp add: downloadAndParseXML_def fileURI_site and_then_def fetch_site Let_def decompressXML_def unpackGzip_def unpackXz_def
      unpackZstd_def unpack_def give_def gzipMagicNumber_def xzMagicNumber_def zstdMagicNumber_def hasPrefix_def)

lemma toy_listing:
  "\<exists>files. YumSource_ListAllFiles (site_web toy_repo) mem_swift toy_pgp toy_lib toy_yum
       (empty_store, toy_ring\<lparr>krEntityList := [1]\<rparr>) =
     ((empty_store, toy_ring\<lparr>krEntityList := [1]\<rparr>), Ret (files, None)) \<and>
     map Path files = [''repodata/repomd.xml.asc'', ''p.xml'', ''a.rpm'', ''repodata/repomd.xml'']"
proof -
  have u: "the (ysUrlSource toy_yum) = site_source" and g: "ysGpgVerification toy_yum"
    and a: "handlesArchitecture toy_yum ''x86_64''" "\<not> handlesArchitecture toy_yum ''ppc''"
    by (simp_all add: toy_yum_def handlesArchitecture_def)
  have l: "rpRepomd toy_lib b = Inr [(''primary'', ''p.xml'')]" "rpPrimary toy_lib b = Inr [(''x86_64'', ''a.rpm''), (''ppc'', ''b.rpm'')]"
    for b by (simp_all add: toy_lib_def)
  note paths = repomdPath_def signaturePath_def repomdKeyPath_def trimPrefix_def hasPrefix_def
  have r: "toy_repo (site_uri repomdPath) = Some (''text/xml'', [9], [])"
    "toy_repo (site_uri signaturePath) = Some (''text/plain'', [9], [])"
    "toy_repo (site_uri ''p.xml'') = Some (''text/xml'', [8], [])"
    "toy_repo (site_uri repomdKeyPath) = None"
    by (simp_all add: toy_repo_def paths site_uri_def)
  show ?thesis
    by (simp add: YumSource_ListAllFiles_def YumSource_listing_def u and_then_def toy_download[where site = toy_repo and p = repomdPath, OF r(1)]
        toy_download[where site = toy_repo and p = "''p.xml''", OF r(3)] parseWith_def l give_def handleSignature_def fetch_site r g send_def verified_def
        primaryHref_def hrefsByType_def deltaHref_def listPackages_def listDeltas_def a handleKey_def unless_404_def
        is_404_def hasPrefix_def getFileSpec_cached_def cacheEntry_def)
      (simp add: repomdPath_def signaturePath_def)
qed

section \<open>Properties\<close>

text \<open>C27: what a Yum repository lists. A successful ListAllFiles sends, in this order: the signature if there is
  one, every file of repomd.xml, the packages of the primary document and then the delta packages of the
  architectures that the source handles, the key file if there is one, and at the very end
  repomd.xml, so that a client never sees it before what it refers to.\<close>

theorem Yum_listing_order:
  assumes "YumSource_ListAllFiles web sw pg lib s wk = (wk', Ret (files, None))"
  shows "\<exists>raw message sg entries href packages deltas ky st st'.
    fetch web (the (ysUrlSource s)) repomdPath (lister_start wk) = (st, Ret (Inr raw)) \<and> unpacks lib raw message \<and>
    listed_repo web sw pg lib s message sg entries href packages deltas ky st st' \<and>
    map Path files = yum_paths s sg entries packages deltas ky @ [repomdPath]"
proof -
  let ?st = "lister_start wk"
  from assms obtain st' where st': "YumSource_listing web sw pg lib s ?st = (st', Ret (Inr ()))" "files = lsOut st'"
    by (auto simp: YumSource_ListAllFiles_def split: prod.splits outcome.splits sum.splits)
  from Yum_run[OF st'(1)] obtain raw message sg entries href packages deltas ky s1 t2 s2 where
    repo: "listed_repo web sw pg lib s message sg entries href packages deltas ky s1 t2" "unpacks lib raw message"
    and f: "fetch web (the (ysUrlSource s)) repomdPath ?st = (s1, Ret (Inr raw))"
    and st: "stage ({signaturePath, href, repomdKeyPath} \<union> set_option (deltaHref (hrefsByType entries)))
      (yum_paths s sg entries packages deltas ky) s1 s2"
    and snd: "send repomdPath s2 = (st', Ret (Inr ()))" by blast
  from stage_trans[OF fetch_stage(1)[OF f] stage_trans[OF st send_stage[OF snd]]]
  have "map Path files = yum_paths s sg entries packages deltas ky @ [repomdPath]"
    by (auto simp: stage_def cache_ok_def st'(2))
  with repo f show ?thesis by blast
qed

theorem Yum_listing_order_witness:
  "\<exists>wk' files message sg entries href packages deltas ky.
     YumSource_ListAllFiles (site_web toy_repo) mem_swift toy_pgp toy_lib toy_yum
       (empty_store, toy_ring\<lparr>krEntityList := [1]\<rparr>) = (wk', Ret (files, None)) \<and>
     map Path files = yum_paths toy_yum sg entries packages deltas ky @ [repomdPath] \<and>
     map Path files = [''repodata/repomd.xml.asc'', ''p.xml'', ''a.rpm'', ''repodata/repomd.xml'']"
proof -
  obtain files where l: "YumSource_ListAllFiles (site_web toy_repo) mem_swift toy_pgp toy_lib toy_yum
       (empty_store, toy_ring\<lparr>krEntityList := [1]\<rparr>) =
     ((empty_store, toy_ring\<lparr>krEntityList := [1]\<rparr>), Ret (files, None))"
     "map Path files = [''repodata/repomd.xml.asc'', ''p.xml'', ''a.rpm'', ''repodata/repomd.xml'']"
    using toy_listing by (elim exE conjE) (rule that)
  from Yum_listing_order[OF l(1)] obtain sg entries packages deltas ky where
    "map Path files = yum_paths toy_yum sg entries packages deltas ky @ [repomdPath]"
    by (elim exE conjE) (rule that)
  with l show ?thesis by (intro exI conjI)
qed

text \<open>C16: the metadata of a Yum repository that is transferred is the metadata that was verified. When
  signatures are verified, a successful listing has first downloaded repomd.xml, whose (decompressed)
  contents are the message that was parsed. The last file that it sends is repomd.xml with exactly the
  contents that were downloaded (unless repomd.xml names itself as one of its files, in which case it can
  be downloaded again). Right after that it has asked for the signature: either the server answered 404,
  which is accepted as a repository without signature, or the bytes that were downloaded were verified for
  this message with the key ring of the program, and the library accepted them with the key ring that the
  listing leaves, which extends the one before.\<close>

theorem Yum_metadata_verified:
  assumes "YumSource_ListAllFiles web sw pg lib s wk = (wk', Ret (files, None))"
    and "ysGpgVerification s"
  shows "\<exists>raw message entries st st1 r.
    fetch web (the (ysUrlSource s)) repomdPath (lister_start wk) = (st, Ret (Inr raw)) \<and>
    unpacks lib raw message \<and> rpRepomd lib message = Inr entries \<and>
    Path (last files) = repomdPath \<and> (repomdPath \<notin> snd ` set entries \<longrightarrow> Contents (last files) = Some raw) \<and>
    fetch web (the (ysUrlSource s)) signaturePath st = (st1, Ret r) \<and>
    (case r of
       Inl e \<Rightarrow> is_404 e \<and> snd wk' = snd wk
     | Inr sig \<Rightarrow> \<exists>w blk.
         VerifyDetachedGPGSignature web sw pg message sig (lsWorld st1, snd wk) = ((w, snd wk'), Ret None) \<and>
         pgArmorDecode pg sig = Inr blk \<and> abType blk = SignatureType \<and>
         pgCheckDetachedSignature pg (krEntityList (snd wk')) message (fst (abBody blk)) = None \<and>
         ring_extends (snd wk) (snd wk'))"
proof -
  from assms(1) obtain st' where st': "YumSource_listing web sw pg lib s (lister_start wk) = (st', Ret (Inr ()))"
    "files = lsOut st'" "snd wk' = lsKeys st'"
    by (auto simp: YumSource_ListAllFiles_def split: prod.splits outcome.splits sum.splits)
  from Yum_run[OF st'(1)] obtain raw message sg entries href packages deltas ky s1 t2 s2 where
    repo: "listed_repo web sw pg lib s message sg entries href packages deltas ky s1 t2" "unpacks lib raw message"
    and keys: "lsKeys st' = lsKeys t2"
    and f: "fetch web (the (ysUrlSource s)) repomdPath (lister_start wk) = (s1, Ret (Inr raw))"
    and st: "stage ({signaturePath, href, repomdKeyPath} \<union> set_option (deltaHref (hrefsByType entries)))
      (yum_paths s sg entries packages deltas ky) s1 s2"
    and snd: "send repomdPath s2 = (st', Ret (Inr ()))" by blast
  have entries: "rpRepomd lib message = Inr entries" "hrefsByType entries ''primary'' = Some href"
    "signature_ok web sw pg s message sg s1 t2" using repo(1) by (auto simp: listed_repo_def)
  have ok: "cache_ok (lsCache s1)" using fetch_stage(1)[OF f] by (simp add: stage_def cache_ok_def)
  with st have ok2: "cache_ok (lsCache s2)" by (simp add: stage_def)
  have last: "last files = getFileSpec_cached repomdPath (lsCache s2)"
    using snd by (simp add: st'(2) send_returns)
  have c: "Contents (last files) = Some raw" if "repomdPath \<notin> snd ` set entries"
  proof -
    have "repomdPath \<notin> {signaturePath, href, repomdKeyPath} \<union> set_option (deltaHref (hrefsByType entries))"
      using hrefsByType_range[of entries] that entries(2)
      by (auto simp: signaturePath_def repomdKeyPath_def deltaHref_def split: option.splits)
    moreover obtain hdr where "lsCache s1 repomdPath = Some (cacheEntry repomdPath raw hdr)"
      using fetch_stage(2)[OF f] by blast
    ultimately have "lsCache s2 repomdPath = Some (cacheEntry repomdPath raw hdr)" using st ok by (simp add: stage_def)
    with last show ?thesis by (simp add: getFileSpec_cached_def cacheEntry_def)
  qed
  have k1: "lsKeys s1 = snd wk" using fetch_stage(4)[OF f] by simp
  from entries(3) consider
      e st1 where "fetch web (the (ysUrlSource s)) signaturePath s1 = (st1, Ret (Inl e))" "is_404 e" "t2 = st1"
    | sig st1 where "fetch web (the (ysUrlSource s)) signaturePath s1 = (st1, Ret (Inr sig))"
        "VerifyDetachedGPGSignature web sw pg message sig (lsWorld st1, lsKeys st1) = ((lsWorld t2, lsKeys t2), Ret None)"
    using assms(2) unfolding signature_ok_def by blast
  then have "\<exists>st1 r. fetch web (the (ysUrlSource s)) signaturePath s1 = (st1, Ret r) \<and>
    (case r of
       Inl e \<Rightarrow> is_404 e \<and> snd wk' = snd wk
     | Inr sig \<Rightarrow> \<exists>w blk.
         VerifyDetachedGPGSignature web sw pg message sig (lsWorld st1, snd wk) = ((w, snd wk'), Ret None) \<and>
         pgArmorDecode pg sig = Inr blk \<and> abType blk = SignatureType \<and>
         pgCheckDetachedSignature pg (krEntityList (snd wk')) message (fst (abBody blk)) = None \<and>
         ring_extends (snd wk) (snd wk'))"
  proof cases
    case 1
    with fetch_failed(3)[OF 1(1)] k1 keys st'(3) show ?thesis by auto
  next
    case 2
    have "lsKeys st1 = snd wk" using fetch_stage(4)[OF 2(1)] k1 by simp
    with 2 verified_signature[OF 2(2)] keys st'(3) show ?thesis by auto
  qed
  then obtain st1 r where r: "fetch web (the (ysUrlSource s)) signaturePath s1 = (st1, Ret r)"
    and v: "case r of
       Inl e \<Rightarrow> is_404 e \<and> snd wk' = snd wk
     | Inr sig \<Rightarrow> \<exists>w blk.
         VerifyDetachedGPGSignature web sw pg message sig (lsWorld st1, snd wk) = ((w, snd wk'), Ret None) \<and>
         pgArmorDecode pg sig = Inr blk \<and> abType blk = SignatureType \<and>
         pgCheckDetachedSignature pg (krEntityList (snd wk')) message (fst (abBody blk)) = None \<and>
         ring_extends (snd wk) (snd wk')"
    by (elim exE conjE)
  have "Path (last files) = repomdPath" using Path_cached[OF ok2] last by simp
  moreover have "repomdPath \<notin> snd ` set entries \<longrightarrow> Contents (last files) = Some raw" using c by blast
  ultimately show ?thesis using f repo(2) entries(1) r v by (intro exI conjI)
qed

theorem Yum_metadata_verified_witness:
  "\<exists>files. YumSource_ListAllFiles (site_web toy_repo) mem_swift toy_pgp toy_lib toy_yum
       (empty_store, toy_ring\<lparr>krEntityList := [1]\<rparr>) =
     ((empty_store, toy_ring\<lparr>krEntityList := [1]\<rparr>), Ret (files, None)) \<and>
     (\<exists>raw. Path (last files) = repomdPath \<and> Contents (last files) = Some raw)"
proof -
  obtain files where l: "YumSource_ListAllFiles (site_web toy_repo) mem_swift toy_pgp toy_lib toy_yum
       (empty_store, toy_ring\<lparr>krEntityList := [1]\<rparr>) =
     ((empty_store, toy_ring\<lparr>krEntityList := [1]\<rparr>), Ret (files, None))"
    using toy_listing by (elim exE conjE) (rule that)
  have c: "\<forall>buf entries. rpRepomd toy_lib buf = Inr entries \<longrightarrow> repomdPath \<notin> snd ` set entries"
    by (auto simp: toy_lib_def repomdPath_def)
  have g: "ysGpgVerification toy_yum" by (simp add: toy_yum_def)
  have "\<exists>raw. Path (last files) = repomdPath \<and> Contents (last files) = Some raw"
    using Yum_metadata_verified[OF l g] c by metis
  with l show ?thesis by blast
qed

text \<open>C32: a Yum repository with a bad signature. ListAllFiles fails with the error of a bad signature exactly if
  signatures are to be verified, repomd.xml was downloaded and parsed, its signature was downloaded after
  it, and the verification of these bytes for this message with the key ring of the program failed. In
  that case the signature file is the only file that was sent, and the error of the verification is passed
  on. Given such an error, the scraper reports the job as skipped and marks it as incompletely scraped,
  and does not try the listing again.\<close>

theorem Yum_bad_signature:
  "(YumSource_ListAllFiles web sw pg lib s wk = (wk', Ret (files, Some e)) \<and>
      leMessage e = ErrMessageGPGVerificationFailed \<longleftrightarrow>
    ysGpgVerification s \<and>
    (\<exists>raw message entries st st1 sig err.
       fetch web (the (ysUrlSource s)) repomdPath (lister_start wk) = (st, Ret (Inr raw)) \<and>
       unpacks lib raw message \<and> rpRepomd lib message = Inr entries \<and>
       fetch web (the (ysUrlSource s)) signaturePath st = (st1, Ret (Inr sig)) \<and>
       VerifyDetachedGPGSignature web sw pg message sig (lsWorld st1, snd wk) = (wk', Ret (Some err)) \<and>
       files = [getFileSpec_cached signaturePath (lsCache st1)] \<and> map Path files = [signaturePath] \<and>
       e = signature_error web (the (ysUrlSource s)) err)) \<and>
   finishDirectory d (Some (signature_error web (the (ysUrlSource s)) err')) sc =
     sc\<lparr>scIncomplete := insert (dJob d) (scIncomplete sc), scReport := scReport sc @ [jobSkippedEvent]\<rparr>"
  (is "(?fails \<longleftrightarrow> ?bad) \<and> _")
proof
  let ?u = "the (ysUrlSource s)"
  have fails: "?fails \<longleftrightarrow> (\<exists>st'. YumSource_listing web sw pg lib s (lister_start wk) = (st', Ret (Inl e)) \<and>
      files = lsOut st' \<and> wk' = (lsWorld st', lsKeys st')) \<and> leMessage e = ErrMessageGPGVerificationFailed"
    by (auto simp: YumSource_ListAllFiles_def split: prod.splits outcome.splits sum.splits)
  have read: "YumSource_listing web sw pg lib s (lister_start wk) = (st', Ret (Inl e)) \<longleftrightarrow>
      (\<exists>s1 message entries raw. fetch web ?u repomdPath (lister_start wk) = (s1, Ret (Inr raw)) \<and> unpacks lib raw message \<and>
        rpRepomd lib message = Inr entries \<and> handleSignature web sw pg s message s1 = (st', Ret (Inl e)))"
    if gpg: "leMessage e = ErrMessageGPGVerificationFailed" for st'
    using listing_bad[OF gpg] .
  have same: "lsKeys s1 = snd wk \<and> lsOut s1 = [] \<and> cache_ok (lsCache s1)"
    if "fetch web ?u repomdPath (lister_start wk) = (s1, Ret (Inr raw))" for s1 raw
    using fetch_stage[OF that] by (simp add: stage_def cache_ok_def)
  have sig: "lsKeys st1 = lsKeys s1 \<and> lsOut st1 = lsOut s1 \<and> Path (getFileSpec_cached signaturePath (lsCache st1)) = signaturePath"
    if "fetch web ?u signaturePath s1 = (st1, Ret (Inr sig))" "cache_ok (lsCache s1)" for s1 st1 sig
    using fetch_stage[OF that(1)] that(2) by (auto simp: stage_def Path_cached)
  show "?fails \<longleftrightarrow> ?bad"
  proof
    assume ?fails
    then obtain st' where l: "YumSource_listing web sw pg lib s (lister_start wk) = (st', Ret (Inl e))"
      and f: "files = lsOut st'" "wk' = (lsWorld st', lsKeys st')" and gpg: "leMessage e = ErrMessageGPGVerificationFailed"
      using fails by blast
    from l read[OF gpg] obtain s1 message entries raw where
      r: "fetch web ?u repomdPath (lister_start wk) = (s1, Ret (Inr raw))" "unpacks lib raw message"
        "rpRepomd lib message = Inr entries" and h: "handleSignature web sw pg s message s1 = (st', Ret (Inl e))" by blast
    from h gpg handleSignature_bad[of web sw pg s message s1 st' e] obtain st1 sg w k err where
      g: "ysGpgVerification s" "fetch web ?u signaturePath s1 = (st1, Ret (Inr sg))"
        "VerifyDetachedGPGSignature web sw pg message sg (lsWorld st1, lsKeys st1) = ((w, k), Ret (Some err))"
        "e = signature_error web ?u err"
        "st' = st1\<lparr>lsWorld := w, lsKeys := k, lsOut := lsOut st1 @ [getFileSpec_cached signaturePath (lsCache st1)]\<rparr>"
      by blast
    with r f same[OF r(1)] sig[OF g(2)] show ?bad
      by (intro conjI exI[of _ raw] exI[of _ message] exI[of _ entries] exI[of _ s1] exI[of _ st1] exI[of _ sg] exI[of _ err])
        simp_all
  next
    assume ?bad
    then obtain raw message entries s1 st1 sg err where
      r: "fetch web ?u repomdPath (lister_start wk) = (s1, Ret (Inr raw))" "unpacks lib raw message"
        "rpRepomd lib message = Inr entries"
      and g: "ysGpgVerification s" "fetch web ?u signaturePath s1 = (st1, Ret (Inr sg))"
        "VerifyDetachedGPGSignature web sw pg message sg (lsWorld st1, snd wk) = (wk', Ret (Some err))"
        "e = signature_error web ?u err" "files = [getFileSpec_cached signaturePath (lsCache st1)]" by blast
    let ?st' = "st1\<lparr>lsWorld := fst wk', lsKeys := snd wk', lsOut := lsOut st1 @ [getFileSpec_cached signaturePath (lsCache st1)]\<rparr>"
    have gpg: "leMessage e = ErrMessageGPGVerificationFailed" using g(4) by simp
    have k: "lsKeys st1 = snd wk" "lsOut st1 = []" using same[OF r(1)] sig[OF g(2)] by simp_all
    have "handleSignature web sw pg s message s1 = (?st', Ret (Inl e))"
      using handleSignature_bad[of web sw pg s message s1 ?st' e, THEN iffD2, THEN conjunct1] g k by (cases wk') simp
    with r read[OF gpg, of ?st'] have "YumSource_listing web sw pg lib s (lister_start wk) = (?st', Ret (Inl e))" by blast
    with fails gpg g(5) k show ?fails by simp
  qed
  show "finishDirectory d (Some (signature_error web ?u err')) sc =
     sc\<lparr>scIncomplete := insert (dJob d) (scIncomplete sc), scReport := scReport sc @ [jobSkippedEvent]\<rparr>"
    by (simp add: finishDirectory_def)
qed

text \<open>The same repository with another signature.\<close>

definition bad_repo :: site where
  "bad_repo = toy_repo(''http://h/repodata/repomd.xml.asc'' \<mapsto> (''text/plain'', ([5], [])))"

lemma verify_bad:
  "VerifyDetachedGPGSignature web sw toy_pgp [9] [5] (w, toy_ring\<lparr>krEntityList := [1]\<rparr>) =
     ((w, toy_ring\<lparr>krEntityList := [1]\<rparr>), Ret (Some (Err ''bad signature'')))"
  by (simp add: VerifyDetachedGPGSignature_def verifyGPGSignature_def toy_pgp_def toy_ring_def addKeys_def Let_def)

lemma bad_listing:
  "\<exists>files e. YumSource_ListAllFiles (site_web bad_repo) mem_swift toy_pgp toy_lib toy_yum
       (empty_store, toy_ring\<lparr>krEntityList := [1]\<rparr>) =
     ((empty_store, toy_ring\<lparr>krEntityList := [1]\<rparr>), Ret (files, Some e)) \<and>
     leMessage e = ErrMessageGPGVerificationFailed"
proof -
  have u: "the (ysUrlSource toy_yum) = site_source" and g: "ysGpgVerification toy_yum"
    by (simp_all add: toy_yum_def)
  have l: "rpRepomd toy_lib b = Inr [(''primary'', ''p.xml'')]" for b by (simp add: toy_lib_def)
  note paths = repomdPath_def signaturePath_def trimPrefix_def hasPrefix_def
  have r: "bad_repo (site_uri repomdPath) = Some (''text/xml'', [9], [])"
    "bad_repo (site_uri signaturePath) = Some (''text/plain'', [5], [])"
    by (simp_all add: bad_repo_def toy_repo_def paths site_uri_def)
  show ?thesis
    by (simp add: YumSource_ListAllFiles_def YumSource_listing_def u and_then_def toy_download[where site = bad_repo and p = repomdPath, OF r(1)]
        parseWith_def l give_def handleSignature_def fetch_site r g send_def verified_def verify_bad)
qed

theorem Yum_bad_signature_witness:
  "\<exists>files e wk. YumSource_ListAllFiles (site_web bad_repo) mem_swift toy_pgp toy_lib toy_yum
       (empty_store, toy_ring\<lparr>krEntityList := [1]\<rparr>) = (wk, Ret (files, Some e)) \<and>
     leMessage e = ErrMessageGPGVerificationFailed \<and> map Path files = [signaturePath]"
proof -
  obtain files e where l: "YumSource_ListAllFiles (site_web bad_repo) mem_swift toy_pgp toy_lib toy_yum
       (empty_store, toy_ring\<lparr>krEntityList := [1]\<rparr>) =
     ((empty_store, toy_ring\<lparr>krEntityList := [1]\<rparr>), Ret (files, Some e))"
    "leMessage e = ErrMessageGPGVerificationFailed"
    using bad_listing by (elim exE conjE) (rule that)
  from Yum_bad_signature[THEN conjunct1, THEN iffD1, OF conjI, OF l] have "map Path files = [signaturePath]"
    by (elim conjE exE)
  with l show ?thesis by (intro exI conjI)
qed

text \<open>The package index of a Yum repository is downloaded twice. The files that repomd.xml refers to are
  sent before the index of packages is read, so that the index that is transferred is (unless it is the
  signature or repomd.xml itself) a file without contents, which the transfer downloads anew, and not the
  one whose packages were listed.\<close>

theorem Yum_index_not_cached:
  assumes "YumSource_ListAllFiles web sw pg lib s wk = (wk', Ret (files, None))"
  shows "\<exists>entries href. (\<exists>message. rpRepomd lib message = Inr entries) \<and>
     hrefsByType entries ''primary'' = Some href \<and>
     (\<exists>f\<in>set files. Path f = href \<and> (href \<in> {repomdPath, signaturePath} \<or> Contents f = None))"
proof -
  let ?st = "lister_start wk"
  from assms obtain st' where st': "YumSource_listing web sw pg lib s ?st = (st', Ret (Inr ()))" "files = lsOut st'"
    by (auto simp: YumSource_ListAllFiles_def split: prod.splits outcome.splits sum.splits)
  from st'(1) obtain s1 message entries raw t2 t3 t4 href t5 t6 t7 where
    f: "fetch web (the (ysUrlSource s)) repomdPath ?st = (s1, Ret (Inr raw))" "rpRepomd lib message = Inr entries"
    and 2: "handleSignature web sw pg s message s1 = (t2, Ret (Inr ()))"
    and 3: "for_each (\<lambda>entry. send (snd entry)) entries t2 = (t3, Ret (Inr ()))"
    and 4: "primaryHref web (the (ysUrlSource s)) (hrefsByType entries) t3 = (t4, Ret (Inr href))"
    and 5: "listPackages web lib s href t4 = (t5, Ret (Inr ()))"
    and 6: "listDeltas web lib s (deltaHref (hrefsByType entries)) t5 = (t6, Ret (Inr ()))"
    and 7: "handleKey web s t6 = (t7, Ret (Inr ()))"
    and 8: "send repomdPath t7 = (st', Ret (Inr ()))"
    by (auto simp: YumSource_listing_def and_then_returns downloadAndParseXML_returns)
  from 4 have h: "hrefsByType entries ''primary'' = Some href" "t4 = t3"
    by (auto simp: primaryHref_def returns split: option.splits)
  from handleSignature_run[OF 2] fetch_stage(1)[OF f(1)] have
    c: "cache_ok (lsCache t2)" "\<forall>p. p \<notin> {repomdPath, signaturePath} \<longrightarrow> lsCache t2 p = None"
    by (auto simp: stage_def cache_ok_def)
  define g where "g = getFileSpec_cached href (lsCache t2)"
  have "Path g = href" using Path_cached[OF c(1)] by (simp add: g_def)
  moreover have "href \<in> {repomdPath, signaturePath} \<or> Contents g = None"
    using c(2) by (auto simp: g_def getFileSpec_cached_def)
  moreover have "g \<in> set files"
  proof -
    have "href \<in> snd ` set entries" using hrefsByType_range[OF h(1)] .
    then have "g \<in> set (lsOut t3)" using for_each_send_cached[OF 3] by (auto simp: g_def)
    moreover from listPackages_run[OF 5] listDeltas_run[OF 6] handleKey_run[OF 7]
    obtain P Q R a b d where "stage P a t4 t5" "stage Q b t5 t6" "stage R d t6 t7" by blast
    from stage_trans[OF this(1) stage_trans[OF this(2) stage_trans[OF this(3) send_stage[OF 8]]]]
    have "\<exists>fs. lsOut st' = lsOut t4 @ fs"
      using c(1) for_each_send_cached[OF 3] h(2) by (auto simp: stage_def)
    ultimately show ?thesis using h(2) st'(2) by auto
  qed
  ultimately show ?thesis using f(2) h(1) by blast
qed

theorem Yum_index_not_cached_witness:
  "\<exists>wk files. YumSource_ListAllFiles (site_web toy_repo) mem_swift toy_pgp toy_lib toy_yum
       (empty_store, toy_ring\<lparr>krEntityList := [1]\<rparr>) = (wk, Ret (files, None)) \<and>
     (\<exists>f\<in>set files. Path f = ''p.xml'' \<and> Contents f = None)"
proof -
  obtain files where l: "YumSource_ListAllFiles (site_web toy_repo) mem_swift toy_pgp toy_lib toy_yum
       (empty_store, toy_ring\<lparr>krEntityList := [1]\<rparr>) =
     ((empty_store, toy_ring\<lparr>krEntityList := [1]\<rparr>), Ret (files, None))"
    using toy_listing by (elim exE conjE) (rule that)
  have "\<exists>f\<in>set files. Path f = ''p.xml'' \<and> Contents f = None"
    using Yum_index_not_cached[OF l] by (auto simp: hrefsByType_def repomdPath_def signaturePath_def toy_lib_def)
  with l show ?thesis by (intro exI conjI)
qed

end
