(* ===== verification/DebianClaims.thy ===== *)
theory DebianClaims
  imports Debian YumClaims
begin

text \<open>
  The properties of the Debian source: which entries of a release are package indices, that every file
  is sent once, and that only verified releases are used.
\<close>

section \<open>The expression for package indices\<close>

definition extRx :: rx where
  "extRx = Seq (Grp 4 (Alt (Lit ''.gz'') (Lit ''.xz''))) Eol"

definition archRx :: rx where
  "archRx = Seq (Grp 3 (Some_of is_word)) (Seq (Lit ''/Packages'') extRx)"

definition instRx :: rx where
  "instRx = Seq (Optional (Grp 2 (Lit ''debian-installer/''))) (Seq (Lit ''binary-'') archRx)"

lemma debReleasePackagesEntryRx_eq:
  "debReleasePackagesEntryRx = Seq Bol (Seq (Grp 1 (Some_of is_letter)) (Seq (Lit ''/'') instRx))"
  by (simp add: debReleasePackagesEntryRx_def extRx_def archRx_def instRx_def)

lemma matches_extRx:
  "matches extRx (p, s) = (if s = ''.gz'' \<or> s = ''.xz'' then [((Some (last s), []), [(4, s)])] else [])"
proof -
  have "hasPrefix s x \<and> drop (length x) s = [] \<longleftrightarrow> s = x" for x :: string
    by (auto simp: strs)
  from this[of "''.gz''"] this[of "''.xz''"] show ?thesis
    by (auto simp: extRx_def advance_def)
qed

definition arch_parts :: "string \<Rightarrow> (string \<times> string) option" where
  "arch_parts s =
     (case cutPrefix (dropWhile is_word s) ''/Packages'' of
        None \<Rightarrow> None
      | Some e \<Rightarrow> if takeWhile is_word s \<noteq> [] \<and> (e = ''.gz'' \<or> e = ''.xz'') then Some (takeWhile is_word s, e) else None)"

lemma matches_archRx:
  "matches archRx (p, s) =
     (case arch_parts s of None \<Rightarrow> [] | Some (a, e) \<Rightarrow> [((Some (last e), []), [(3, a), (4, e)])])"
proof -
  have r: "refuses (Seq (Lit ''/Packages'') extRx) is_word" by (simp add: is_word_def is_digit_def)
  show ?thesis
    unfolding archRx_def matches_Grp_Some_of[OF r] matches_Lit_Seq arch_parts_def
    by (auto simp: matches_extRx split: option.splits)
qed

lemma arch_parts_iff:
  "arch_parts s = Some (a, e) \<longleftrightarrow>
     s = a @ ''/Packages'' @ e \<and> a \<noteq> [] \<and> list_all is_word a \<and> (e = ''.gz'' \<or> e = ''.xz'')"
proof
  assume "arch_parts s = Some (a, e)"
  then show "s = a @ ''/Packages'' @ e \<and> a \<noteq> [] \<and> list_all is_word a \<and> (e = ''.gz'' \<or> e = ''.xz'')"
  proof (cases "cutPrefix (dropWhile is_word s) ''/Packages''")
    case (Some x)
    assume p: "arch_parts s = Some (a, e)"
    then have *: "takeWhile is_word s = a" "x = e" "a \<noteq> []" "e = ''.gz'' \<or> e = ''.xz''"
      unfolding arch_parts_def Some by (auto split: if_splits)
    from Some have "dropWhile is_word s = ''/Packages'' @ x" unfolding cutPrefix_Some_iff .
    with * have "s = a @ ''/Packages'' @ e" using takeWhile_dropWhile_id[of is_word s] by metis
    moreover have "list_all is_word a" using *(1) by (auto simp: list_all_iff dest: set_takeWhileD)
    ultimately show ?thesis using * by blast
  qed (simp add: arch_parts_def)
next
  assume s: "s = a @ ''/Packages'' @ e \<and> a \<noteq> [] \<and> list_all is_word a \<and> (e = ''.gz'' \<or> e = ''.xz'')"
  then have sa: "s = a @ (''/Packages'' @ e)" "\<forall>c\<in>set a. is_word c" unfolding list_all_iff by blast+
  have "\<not> is_word (hd (''/Packages'' @ e))" by (simp add: is_word_def is_digit_def)
  with takeWhile_split[OF sa(2), of "''/Packages'' @ e"] have tw: "takeWhile is_word s = a"
    and dw: "dropWhile is_word s = ''/Packages'' @ e" unfolding sa(1) by blast+
  from s have "a \<noteq> []" "e = ''.gz'' \<or> e = ''.xz''" by blast+
  then show "arch_parts s = Some (a, e)" unfolding arch_parts_def tw dw cutPrefix_append by simp
qed

text \<open>What follows the component: an optional directory, then the architecture.\<close>

definition binary_parts :: "string \<Rightarrow> (string \<times> string) option" where
  "binary_parts s = Option.bind (cutPrefix s ''binary-'') arch_parts"

definition inst_parts :: "string \<Rightarrow> (string \<times> string) option" where
  "inst_parts s =
     (case cutPrefix s ''debian-installer/'' of None \<Rightarrow> binary_parts s | Some u \<Rightarrow> binary_parts u)"

lemma matches_binary:
  "matches (Seq (Lit ''binary-'') archRx) (p, s) =
     (case binary_parts s of None \<Rightarrow> [] | Some (a, e) \<Rightarrow> [((Some (last e), []), [(3, a), (4, e)])])"
  unfolding matches_Lit_Seq matches_archRx binary_parts_def by (cases "cutPrefix s ''binary-''") simp_all

lemma matches_Optional_Seq:
  "matches (Seq (Optional (Grp i (Lit l))) r) (p, s) =
     (case cutPrefix s l of
        None \<Rightarrow> matches r (p, s)
      | Some t \<Rightarrow> map (\<lambda>(q, g). (q, (i, l) # g)) (matches r (advance p l, t)) @ matches r (p, s))"
proof (cases "cutPrefix s l")
  case None
  then show ?thesis by (simp add: Optional_def cutPrefix_def case_prod_beta advance_def[of p "[]"] split: if_splits)
next
  case (Some t)
  then have s: "s = l @ t" by (simp only: cutPrefix_Some_iff)
  show ?thesis unfolding Some s by (simp add: Optional_def case_prod_beta advance_def[of p "[]"])
qed

lemma binary_not_installer: "binary_parts s \<noteq> None \<Longrightarrow> cutPrefix s ''debian-installer/'' = None"
proof -
  assume "binary_parts s \<noteq> None"
  then obtain t where "s = ''binary-'' @ t"
    by (cases "cutPrefix s ''binary-''") (auto simp: binary_parts_def cutPrefix_Some_iff)
  then show ?thesis by (simp add: cutPrefix_def hasPrefix_def)
qed

lemma matches_instRx:
  "(case matches instRx (p, s) of [] \<Rightarrow> None | (q, g) # _ \<Rightarrow> Some (group g 3)) = map_option fst (inst_parts s)"
proof (cases "cutPrefix s ''debian-installer/''")
  case None
  then show ?thesis
    unfolding instRx_def matches_Optional_Seq matches_binary inst_parts_def by (cases "binary_parts s") auto
next
  case (Some u)
  then have "binary_parts s = None" using binary_not_installer[of s] by (cases "binary_parts s") auto
  with Some show ?thesis
    unfolding instRx_def matches_Optional_Seq matches_binary inst_parts_def
    by (cases "binary_parts u") (auto simp: binary_parts_def)
qed

lemma inst_parts_iff:
  "inst_parts s = Some (a, e) \<longleftrightarrow>
     (\<exists>inst. (inst = [] \<or> inst = ''debian-installer/'') \<and>
       (\<exists>t. s = inst @ ''binary-'' @ t \<and> arch_parts t = Some (a, e)))"
proof -
  have two: "(\<exists>inst. (inst = x \<or> inst = y) \<and> Q inst) \<longleftrightarrow> Q x \<or> Q y" for x y :: string and Q by blast
  have b: "binary_parts s = Some (a, e) \<longleftrightarrow> (\<exists>t. s = ''binary-'' @ t \<and> arch_parts t = Some (a, e))" for s
    unfolding binary_parts_def bind_eq_Some_conv cutPrefix_Some_iff ..
  show ?thesis
  proof (cases "cutPrefix s ''debian-installer/''")
    case None
    then have "\<not> (\<exists>t. s = ''debian-installer/'' @ ''binary-'' @ t \<and> arch_parts t = Some (a, e))"
      by (metis cutPrefix_append option.distinct(1))
    with None show ?thesis unfolding inst_parts_def two append_Nil by (simp only: option.case b simp_thms)
  next
    case (Some u)
    then have s: "s = ''debian-installer/'' @ u" using cutPrefix_Some_iff by blast
    from Some have "binary_parts s = None" using binary_not_installer[of s] by (cases "binary_parts s") auto
    then have "\<not> (\<exists>t. s = ''binary-'' @ t \<and> arch_parts t = Some (a, e))" unfolding b[symmetric] by simp
    then show ?thesis unfolding inst_parts_def two append_Nil Some option.case b
      using s by (simp only: same_append_eq simp_thms)
  qed
qed

lemma matches_component:
  "(case matches (Seq (Grp 1 (Some_of is_letter)) (Seq (Lit ''/'') instRx)) (p, s) of
      [] \<Rightarrow> None | (q, g) # _ \<Rightarrow> Some (group g 3)) =
   (if takeWhile is_letter s = [] then None
    else Option.bind (cutPrefix (dropWhile is_letter s) ''/'') (\<lambda>t. map_option fst (inst_parts t)))"
proof -
  have r: "refuses (Seq (Lit ''/'') instRx) is_letter" by (simp add: is_letter_def)
  have m: "(case map (\<lambda>(q, g). (q, (1, x) # g)) ms of [] \<Rightarrow> None | (q, g) # _ \<Rightarrow> Some (group g 3)) =
      (case ms of [] \<Rightarrow> None | (q, g) # _ \<Rightarrow> Some (group g 3))" for x and ms :: "(pos \<times> groups) list"
    by (cases ms) auto
  show ?thesis
  proof (cases "takeWhile is_letter s = []")
    case False
    show ?thesis
    proof (cases "cutPrefix (dropWhile is_letter s) ''/''")
      case None
      then show ?thesis unfolding matches_Grp_Some_of[OF r] matches_Lit_Seq by simp
    next
      case (Some t)
      show ?thesis
        unfolding matches_Grp_Some_of[OF r] if_not_P[OF False] m matches_Lit_Seq Some option.case
        by (simp add: matches_instRx)
    qed
  next
    case True
    then show ?thesis unfolding matches_Grp_Some_of[OF r] by simp
  qed
qed

lemma map_option_first:
  "map_option h (case ms of [] \<Rightarrow> None | (q, g) # _ \<Rightarrow> Some g) = (case ms of [] \<Rightarrow> None | (q, g) # _ \<Rightarrow> Some (h g))"
  by (cases ms) auto

lemma packageIndexArch_eq:
  "packageIndexArch e =
     (if takeWhile is_letter e = [] then None
      else Option.bind (cutPrefix (dropWhile is_letter e) ''/'') (\<lambda>t. map_option fst (inst_parts t)))"
proof -
  have "packageIndexArch e = (case matches (Seq (Grp 1 (Some_of is_letter)) (Seq (Lit ''/'') instRx)) (None, e) of
      [] \<Rightarrow> None | (q, g) # _ \<Rightarrow> Some (group g 3))"
    unfolding packageIndexArch_def debReleasePackagesEntryRx_eq find_submatch_anchored map_option_first ..
  then show ?thesis unfolding matches_component .
qed

lemma component_split_iff:
  "takeWhile is_letter e \<noteq> [] \<and> cutPrefix (dropWhile is_letter e) ''/'' = Some t \<longleftrightarrow>
     (\<exists>comp. e = comp @ ''/'' @ t \<and> comp \<noteq> [] \<and> list_all is_letter comp)" (is "?l \<longleftrightarrow> ?r")
proof
  assume ?l
  then have "e = takeWhile is_letter e @ ''/'' @ t" by (metis takeWhile_cutPrefix)
  with \<open>?l\<close> show ?r by (intro exI[of _ "takeWhile is_letter e"]) (auto simp: list_all_iff dest: set_takeWhileD)
next
  assume ?r
  then obtain comp where c: "e = comp @ (''/'' @ t)" "comp \<noteq> []" "\<forall>c\<in>set comp. is_letter c"
    by (auto simp: list_all_iff)
  have "\<not> is_letter (hd (''/'' @ t))" by (simp add: is_letter_def)
  with takeWhile_split[OF c(3), of "''/'' @ t"]
  have "takeWhile is_letter e = comp" "dropWhile is_letter e = ''/'' @ t" unfolding c(1) by blast+
  then show ?l using c(2) by (simp only: cutPrefix_append simp_thms)
qed

text \<open>C35: which entries of a release file are read as package indices of an architecture \<open>a\<close>: exactly
  those of the form component, optional installer directory, \<open>binary-a\<close>, \<open>Packages\<close> and one of the two
  compressions. The component consists of letters only, so that \<open>non-free\<close> never counts.\<close>

theorem packageIndexArch_iff:
  "packageIndexArch e = Some a \<longleftrightarrow>
     (\<exists>comp inst ext.
        e = comp @ ''/'' @ inst @ ''binary-'' @ a @ ''/Packages'' @ ext \<and>
        comp \<noteq> [] \<and> list_all is_letter comp \<and> (inst = [] \<or> inst = ''debian-installer/'') \<and>
        a \<noteq> [] \<and> list_all is_word a \<and> (ext = ''.gz'' \<or> ext = ''.xz''))"
  (is "_ \<longleftrightarrow> ?r")
proof
  assume "packageIndexArch e = Some a"
  then obtain t x where "takeWhile is_letter e \<noteq> [] \<and> cutPrefix (dropWhile is_letter e) ''/'' = Some t"
    "inst_parts t = Some (a, x)"
    unfolding packageIndexArch_eq by (auto simp: bind_eq_Some_conv split: if_splits)
  then obtain comp inst u where "e = comp @ ''/'' @ t" "comp \<noteq> [] \<and> list_all is_letter comp"
    "inst = [] \<or> inst = ''debian-installer/''" "t = inst @ ''binary-'' @ u"
    "u = a @ ''/Packages'' @ x" "a \<noteq> [] \<and> list_all is_word a \<and> (x = ''.gz'' \<or> x = ''.xz'')"
    unfolding component_split_iff inst_parts_iff arch_parts_iff by (elim exE conjE) (rule that; simp only: simp_thms)
  then show ?r by (intro exI[of _ comp] exI[of _ inst] exI[of _ x]) (simp only: simp_thms append_assoc)
next
  assume ?r
  then obtain comp inst ext where e: "e = comp @ ''/'' @ inst @ ''binary-'' @ a @ ''/Packages'' @ ext"
    and c: "comp \<noteq> []" "list_all is_letter comp" and i: "inst = [] \<or> inst = ''debian-installer/''"
    and a: "a \<noteq> []" "list_all is_word a" "ext = ''.gz'' \<or> ext = ''.xz''"
    by (elim exE conjE) (rule that)
  let ?t = "inst @ ''binary-'' @ a @ ''/Packages'' @ ext"
  have "arch_parts (a @ ''/Packages'' @ ext) = Some (a, ext)" unfolding arch_parts_iff using a by (intro conjI refl)
  then have "inst_parts ?t = Some (a, ext)" unfolding inst_parts_iff using i
    by (intro exI[of _ inst] conjI exI[of _ "a @ ''/Packages'' @ ext"] refl)
  moreover have "takeWhile is_letter e \<noteq> [] \<and> cutPrefix (dropWhile is_letter e) ''/'' = Some ?t"
    unfolding component_split_iff using c e by (intro exI[of _ comp] conjI)
  ultimately show "packageIndexArch e = Some a" unfolding packageIndexArch_eq by simp
qed

lemma non_free_not_indexed: "packageIndexArch (''non-free'' @ x) = None"
proof -
  have "takeWhile is_letter (''non-free'' @ x) = ''non''" "dropWhile is_letter (''non-free'' @ x) = ''-free'' @ x"
    by (simp_all add: is_letter_def)
  moreover have "cutPrefix (''-free'' @ x) ''/'' = None" by (simp add: cutPrefix_def hasPrefix_def)
  ultimately show ?thesis unfolding packageIndexArch_eq by simp
qed

section \<open>Listing a distribution sends nothing\<close>

abbreviation quiet :: "(('w, 'e) lister, 'a) step \<Rightarrow> bool" where
  "quiet \<equiv> step_keeps (stage UNIV [])"

lemmas quiet_combined = quiet.kept_and_then quiet.kept_or_else quiet.kept_gather

lemma quiet_give [simp]: "quiet (give x)" and quiet_fail [simp]: "quiet (fail_with e)"
  by (rule quiet.kept_give, rule quiet.kept_fail_with)

lemma quiet_fetch [simp]: "quiet (fetch (web :: ('w, 'b) web) u p :: (('w, 'e) lister, bytes) step)"
  unfolding step_keeps_def
proof
  fix s :: "('w, 'e) lister"
  obtain s1 r where f: "fetch web u p s = (s1, r)" by fastforce
  have "stage UNIV [] s s1"
  proof (cases r)
    case (Panic m)
    with f fetch_no_panic show ?thesis by blast
  next
    case (Ret x)
    show ?thesis
    proof (cases x)
      case (Inl e)
      with f Ret fetch_failed[of web u p s s1 e] show ?thesis by (simp add: stage_def)
    next
      case (Inr b)
      with f Ret fetch_stage(1)[of web u p s s1 b] show ?thesis by (auto simp: stage_def)
    qed
  qed
  with f show "stage UNIV [] s (fst (fetch web u p s))" by simp
qed

lemma quiet_verified [simp]: "quiet (verified web u v)"
  by (auto simp: step_keeps_def verified_def stage_def split: prod.splits)

lemma quiet_unpack [simp]: "quiet (unpackXz lib uri buf)" "quiet (unpackGzip lib uri buf)"
  by (auto simp: unpackXz_def unpackGzip_def unpack_def split: sum.splits)

lemma quiet_parseDCF [simp]: "quiet (parseDCF uri unmarshal data buf)"
  by (auto simp: parseDCF_def split: prod.splits option.splits)

lemma quiet_withFallback: "quiet (withFallback web lib u path path2 unmarshal data)"
  unfolding withFallback_def downloadAndParseDCF_def Let_def
  by (auto intro!: quiet_combined split: sum.splits)

lemma quiet_indexedFiles: "quiet (indexedFiles web sw pg lib pkgOrder srcOrder s root)"
  unfolding indexedFiles_def readRelease_def verifyRelease_def packageFiles_def sourceFiles_def Let_def
  by (auto intro!: quiet_combined quiet_withFallback)

lemma listDistFiles_quiet:
  assumes "listDistFiles web sw pg lib pkgOrder srcOrder s root st = Some (st', r)"
  shows "stage UNIV [] st st'"
proof -
  obtain st1 q where i: "indexedFiles web sw pg lib pkgOrder srcOrder s root st = (st1, q)" by fastforce
  from step_keeps_ret[OF quiet_indexedFiles i] have "stage UNIV [] st st1" .
  moreover have "\<exists>w. st' = st1\<lparr>lsWorld := w\<rparr>"
  proof (cases "\<exists>files. q = Ret (Inr files)")
    case True
    with i assms show ?thesis by (auto simp: listDistFiles_def split: prod.splits)
  next
    case False
    with i assms have "st' = st1\<lparr>lsWorld := lsWorld st1\<rparr>"
      by (auto simp: listDistFiles_def split: outcome.splits sum.splits)
    then show ?thesis ..
  qed
  ultimately show ?thesis by (auto simp: stage_def)
qed

section \<open>Files are sent once\<close>

text \<open>The first occurrences of elements that are not in a set.\<close>

fun fresh :: "'a set \<Rightarrow> 'a list \<Rightarrow> 'a list" where
  "fresh A [] = []"
| "fresh A (x # xs) = (if x \<in> A then fresh A xs else x # fresh (insert x A) xs)"

lemma fresh_append: "fresh A (xs @ ys) = fresh A xs @ fresh (A \<union> set xs) ys"
  by (induction xs arbitrary: A) (auto simp: insert_absorb)

lemma set_fresh: "set (fresh A xs) = set xs - A"
  by (induction xs arbitrary: A) auto

lemma distinct_fresh: "distinct (fresh A xs)"
  by (induction xs arbitrary: A) (auto simp: set_fresh)

lemma sendNew_run:
  "sendNew files A st = (st', B) \<Longrightarrow> stage UNIV (fresh A files) st st' \<and> B = A \<union> set files"
proof (induction files arbitrary: A st)
  case (Cons x files)
  show ?case
  proof (cases "x \<in> A")
    case True
    with Cons show ?thesis by (auto simp: insert_absorb)
  next
    case False
    obtain s1 r where s1: "send x st = (s1, r)" by fastforce
    with Cons.prems False have "sendNew files (insert x A) s1 = (st', B)" by simp
    from Cons.IH[OF this] stage_trans[OF send_stage[OF s1]] False show ?thesis by fastforce
  qed
qed simp

lemma listDistributions_run:
  assumes "listDistributions web sw pg lib pkgOrder srcOrder s dists A st = Some (st', r)"
  shows "\<exists>lists. stage UNIV (fresh A (concat lists)) st st' \<and>
    list_all2 (\<lambda>d l. \<exists>st1 st2. listDistFiles web sw pg lib pkgOrder srcOrder s (path_join [''dists'', d]) st1 =
      Some (st2, Ret (Inr l))) (take (length lists) dists) lists \<and>
    (r = Ret None \<longrightarrow> length lists = length dists)"
  using assms
proof (induction dists arbitrary: A st)
  case Nil
  then show ?case by (intro exI[of _ "[]"]) simp
next
  case (Cons d dists)
  from Cons.prems obtain st1 q where q: "listDistFiles web sw pg lib pkgOrder srcOrder s (path_join [''dists'', d]) st = Some (st1, q)"
    by (auto split: option.splits)
  note st1 = listDistFiles_quiet[OF q]
  show ?case
  proof (cases "\<exists>files. q = Ret (Inr files)")
    case False
    with Cons.prems q have "st' = st1" "r \<noteq> Ret None" by (auto split: outcome.splits sum.splits)
    with st1 show ?thesis by (intro exI[of _ "[]"]) simp
  next
    case True
    then obtain files where files: "q = Ret (Inr files)" by blast
    obtain st2 B where s2: "sendNew files A st1 = (st2, B)" by fastforce
    with Cons.prems q files have "listDistributions web sw pg lib pkgOrder srcOrder s dists B st2 = Some (st', r)"
      by simp
    from Cons.IH[OF this] obtain lists where lists: "stage UNIV (fresh B (concat lists)) st2 st'"
      "list_all2 (\<lambda>d l. \<exists>st1 st2. listDistFiles web sw pg lib pkgOrder srcOrder s (path_join [''dists'', d]) st1 =
        Some (st2, Ret (Inr l))) (take (length lists) dists) lists"
      "r = Ret None \<longrightarrow> length lists = length dists" by blast
    from sendNew_run[OF s2] have st2: "stage UNIV (fresh A files) st1 st2" "B = A \<union> set files" by blast+
    from stage_trans[OF st1 stage_trans[OF st2(1) lists(1)]]
    have "stage UNIV (fresh A (concat (files # lists))) st st'" by (simp add: fresh_append st2(2))
    with lists(2,3) q files show ?thesis by (intro exI[of _ "files # lists"]) auto
  qed
qed

section \<open>What a distribution's files are\<close>

text \<open>The results of a loop over \<open>xs\<close>, from state to state.\<close>

fun gathered :: "('a \<Rightarrow> ('s, 'b list) step) \<Rightarrow> 'a list \<Rightarrow> 's \<Rightarrow> 's \<Rightarrow> 'b list list \<Rightarrow> bool" where
  "gathered f [] s s' parts \<longleftrightarrow> parts = [] \<and> s' = s"
| "gathered f (x # xs) s s' parts \<longleftrightarrow>
     (\<exists>p ps s1. parts = p # ps \<and> f x s = (s1, Ret (Inr p)) \<and> gathered f xs s1 s' ps)"

lemma gather_returns:
  "gather f xs s = (s', Ret (Inr zs)) \<Longrightarrow> \<exists>parts. zs = concat parts \<and> gathered f xs s s' parts"
proof (induction xs arbitrary: s zs)
  case (Cons x xs)
  then obtain s1 ys zs' where 1: "f x s = (s1, Ret (Inr ys))" "gather f xs s1 = (s', Ret (Inr zs'))" "zs = ys @ zs'"
    by (auto simp: returns)
  from Cons.IH[OF 1(2)] obtain parts where "zs' = concat parts" "gathered f xs s1 s' parts" by blast
  with 1 show ?case by (intro exI[of _ "ys # parts"]) auto
qed (simp add: returns)

text \<open>
  A control file that was downloaded in the state \<open>st\<close>, unpacked and decoded, and the release file of a
  distribution: \<^verbatim>\<open>InRelease\<close>, or \<^verbatim>\<open>Release\<close> after an attempt at \<^verbatim>\<open>InRelease\<close> that failed.
\<close>

definition control_text :: "repoLib \<Rightarrow> bytes \<Rightarrow> bytes \<Rightarrow> bool" where
  "control_text lib raw buf \<longleftrightarrow> and_then (unpackXz lib [] raw) (unpackGzip lib []) () = ((), Ret (Inr buf))"

definition control_file ::
  "('w, 'b) web \<Rightarrow> repoLib \<Rightarrow> URLSource \<Rightarrow> string \<Rightarrow> ('a \<Rightarrow> bytes \<Rightarrow> 'a \<times> goerror option) \<Rightarrow> 'a \<Rightarrow>
    ('w, 'e) lister \<Rightarrow> ('w, 'e) lister \<Rightarrow> 'a \<Rightarrow> bytes \<Rightarrow> bool" where
  "control_file web lib u path unmarshal data st st' x buf \<longleftrightarrow>
     (\<exists>raw. fetch web u path st = (st', Ret (Inr raw)) \<and> control_text lib raw buf \<and> unmarshal data buf = (x, None))"

definition release_read ::
  "('w, 'b) web \<Rightarrow> repoLib \<Rightarrow> DebianSource \<Rightarrow> string \<Rightarrow> ('w, 'e) lister \<Rightarrow> ('w, 'e) lister \<Rightarrow> string \<Rightarrow> releaseFile \<Rightarrow>
    bytes \<Rightarrow> bool" where
  "release_read web lib s root st st' releasePath release buf \<longleftrightarrow>
     (let u = the (dsUrlSource s); inRelease = path_join [root, ''InRelease'']
      in releasePath = inRelease \<and> control_file web lib u inRelease (rpRelease lib) emptyRelease st st' release buf \<or>
         releasePath = path_join [root, ''Release''] \<and>
           (\<exists>st1 data lerr.
              downloadAndParseDCF web lib u inRelease (rpRelease lib) emptyRelease st = (st1, Ret (Inr (data, Inl lerr))) \<and>
              control_file web lib u releasePath (rpRelease lib) data st1 st' release buf))"

text \<open>
  The signature of a release file that was read, from the state after that: for \<^verbatim>\<open>Release\<close> the bytes of
  \<^verbatim>\<open>Release.gpg\<close>, downloaded in this state, are verified for exactly the file, and an \<^verbatim>\<open>InRelease\<close> file is
  verified itself, with the key ring and the world at that time. The library has accepted the
  signature with the key ring as it is afterwards.
\<close>

definition release_signed ::
  "('w, 'b) web \<Rightarrow> ('w, 'r, 'lo) swift \<Rightarrow> ('w, 'r, 'e) pgp \<Rightarrow> DebianSource \<Rightarrow> string \<Rightarrow> string \<Rightarrow> bytes \<Rightarrow>
    ('w, 'e) lister \<Rightarrow> ('w, 'e) lister \<Rightarrow> bool" where
  "release_signed web sw pg s root releasePath buf st st' \<longleftrightarrow>
     ring_extends (lsKeys st) (lsKeys st') \<and>
     (if path_base releasePath = ''Release'' then
        (\<exists>st1 sig blk.
           fetch web (the (dsUrlSource s)) (path_join [root, ''Release.gpg'']) st = (st1, Ret (Inr sig)) \<and>
           VerifyDetachedGPGSignature web sw pg buf sig (lsWorld st1, lsKeys st) = ((lsWorld st', lsKeys st'), Ret None) \<and>
           pgArmorDecode pg sig = Inr blk \<and>
           pgCheckDetachedSignature pg (krEntityList (lsKeys st')) buf (fst (abBody blk)) = None)
      else
        (\<exists>message blk.
           VerifyClearSignedGPGSignature web sw pg buf (lsWorld st, lsKeys st) = ((lsWorld st', lsKeys st'), Ret None) \<and>
           pgClearsignDecode pg buf = Some (message, blk) \<and>
           pgCheckDetachedSignature pg (krEntityList (lsKeys st')) message (fst (abBody blk)) = None))"

text \<open>
  The files of a distribution, from the state before to the state after they were found: packages, sources,
  then everything below the directory of the distribution (nothing if that is missing).
\<close>

definition dist_files ::
  "('w, 'b) web \<Rightarrow> ('w, 'r, 'lo) swift \<Rightarrow> ('w, 'r, 'e) pgp \<Rightarrow> repoLib \<Rightarrow> (string list \<Rightarrow> string list) \<Rightarrow>
    (string list \<Rightarrow> string list) \<Rightarrow> DebianSource \<Rightarrow> string \<Rightarrow> ('w, 'e) lister \<Rightarrow> ('w, 'e) lister \<Rightarrow> string list \<Rightarrow> bool" where
  "dist_files web sw pg lib pkgOrder srcOrder s root st st' l \<longleftrightarrow>
     (\<exists>st1 st2 st3 st4 releasePath release buf pkgs srcs meta w r.
        release_read web lib s root st st1 releasePath release buf \<and>
        (if dsGpgVerification s then release_signed web sw pg s root releasePath buf st1 st2 else st2 = st1) \<and>
        gathered (packageFiles web lib s)
          (pkgOrder (fst (findIndices (architecturesOf s release) root (rlEntries release)))) st2 st3 pkgs \<and>
        gathered (sourceFiles web lib s)
          (srcOrder (snd (findIndices (architecturesOf s release) root (rlEntries release)))) st3 st4 srcs \<and>
        recursivelyListEntries web (the (dsUrlSource s)) root (lsWorld st4) = Some (w, r) \<and>
        (r = Inr meta \<or> (\<exists>e. r = Inl e \<and> is_404 e \<and> meta = [])) \<and>
        st' = st4\<lparr>lsWorld := w\<rparr> \<and> l = concat pkgs @ concat srcs @ meta)"

text \<open>The distributions one after the other; in between the new files of each are sent.\<close>

fun dists_listed ::
  "('w, 'b) web \<Rightarrow> ('w, 'r, 'lo) swift \<Rightarrow> ('w, 'r, 'e) pgp \<Rightarrow> repoLib \<Rightarrow> (string list \<Rightarrow> string list) \<Rightarrow>
    (string list \<Rightarrow> string list) \<Rightarrow> DebianSource \<Rightarrow> string list \<Rightarrow> string set \<Rightarrow> ('w, 'e) lister \<Rightarrow> ('w, 'e) lister \<Rightarrow>
    string list list \<Rightarrow> bool" where
  "dists_listed web sw pg lib pkgOrder srcOrder s [] A st st' parts \<longleftrightarrow> parts = [] \<and> st' = st"
| "dists_listed web sw pg lib pkgOrder srcOrder s (d # dists) A st st' parts \<longleftrightarrow>
     (\<exists>l ls st1 st2 B. parts = l # ls \<and>
        dist_files web sw pg lib pkgOrder srcOrder s (path_join [''dists'', d]) st st1 l \<and>
        sendNew l A st1 = (st2, B) \<and> dists_listed web sw pg lib pkgOrder srcOrder s dists B st2 st' ls)"

lemma parseDCF_returns [returns]:
  "parseDCF uri unmarshal data buf s = (s', Ret (Inr (x, Inr b))) \<longleftrightarrow> s' = s \<and> b = buf \<and> unmarshal data buf = (x, None)"
  by (auto simp: parseDCF_def give_def split: prod.splits option.splits)

lemmas unpackings = unpackXz_def unpackGzip_def unpack_returns

lemma control_text_returns:
  "control_text lib raw buf \<longleftrightarrow>
     (\<exists>x. (if hasPrefix raw xzMagicNumber then decompressXZArchive (rpXz lib) raw = Inr x else x = raw) \<and>
        (if hasPrefix x gzipMagicNumber then decompressGZipArchive (rpGzip lib) x = Inr buf else buf = x))"
  by (simp add: control_text_def returns unpackings)

lemma downloadAndParseDCF_returns:
  assumes "downloadAndParseDCF web lib u path unmarshal data s = (s', Ret (Inr (x, Inr buf)))"
  shows "control_file web lib u path unmarshal data s s' x buf"
proof -
  note assms[unfolded downloadAndParseDCF_def Let_def or_else_returns and_then_returns parseDCF_returns unpackings give_returns]
  then show ?thesis unfolding control_file_def control_text_returns by blast
qed

lemma withFallback_returns:
  assumes "withFallback web lib u path path2 unmarshal data s = (s', Ret (Inr (p, x, buf)))"
  shows "p = path \<and> control_file web lib u path unmarshal data s s' x buf \<or>
    p = path2 \<and> (\<exists>s1 data' lerr.
      downloadAndParseDCF web lib u path unmarshal data s = (s1, Ret (Inr (data', Inl lerr))) \<and>
      control_file web lib u path2 unmarshal data' s1 s' x buf)"
proof -
  from assms obtain s1 q where 1: "downloadAndParseDCF web lib u path unmarshal data s = (s1, Ret (Inr q))"
    and 2: "(case snd q of
          Inr buf \<Rightarrow> give (path, fst q, buf)
        | Inl lerr \<Rightarrow>
            and_then (downloadAndParseDCF web lib u path2 unmarshal (fst q)) (\<lambda>r2.
              (case snd r2 of
                 Inr buf \<Rightarrow> give (path2, fst r2, buf)
               | Inl lerr2 \<Rightarrow> fail_with lerr2))) s1 = (s', Ret (Inr (p, x, buf)))"
    unfolding withFallback_def and_then_returns by (elim exE conjE) (rule that)
  show ?thesis
  proof (cases "snd q")
    case (Inr b)
    with 2 have "p = path" "q = (x, Inr buf)" "s' = s1" by (cases q; auto simp: returns)+
    with downloadAndParseDCF_returns[OF 1[unfolded \<open>q = (x, Inr buf)\<close>]] show ?thesis by blast
  next
    case (Inl e)
    from 2[unfolded Inl sum.case and_then_returns] obtain s2 q2 where
      3: "downloadAndParseDCF web lib u path2 unmarshal (fst q) s1 = (s2, Ret (Inr q2))"
      and 4: "(case snd q2 of Inr buf \<Rightarrow> give (path2, fst q2, buf) | Inl lerr2 \<Rightarrow> fail_with lerr2) s2 =
        (s', Ret (Inr (p, x, buf)))"
      by (elim exE conjE) (rule that)
    from 4 have "p = path2" "q2 = (x, Inr buf)" "s' = s2" by (cases q2; cases "snd q2"; auto simp: returns)+
    moreover have "q = (fst q, Inl e)" using Inl by (cases q) simp
    ultimately show ?thesis
      using 1 downloadAndParseDCF_returns[OF 3[unfolded \<open>q2 = (x, Inr buf)\<close>]] by metis
  qed
qed

lemma verifyRelease_returns:
  assumes "verifyRelease web sw pg s root rpath buf st = (st', Ret (Inr u))"
  shows "if dsGpgVerification s then release_signed web sw pg s root rpath buf st st' else st' = st"
proof (cases "dsGpgVerification s")
  case False
  with assms show ?thesis by (simp add: verifyRelease_def returns)
next
  case g: True
  show ?thesis
  proof (cases "path_base rpath = ''Release''")
    case True
    with assms g obtain st1 sig where
      f: "fetch web (the (dsUrlSource s)) (path_join [root, ''Release.gpg'']) st = (st1, Ret (Inr sig))"
      and v: "VerifyDetachedGPGSignature web sw pg buf sig (lsWorld st1, lsKeys st1) = ((lsWorld st', lsKeys st'), Ret None)"
      by (auto simp: verifyRelease_def returns verified_returns)
    from fetch_stage(4)[OF f] v verified_signature[OF v] f g True show ?thesis
      unfolding release_signed_def by auto
  next
    case False
    with assms g have v: "VerifyClearSignedGPGSignature web sw pg buf (lsWorld st, lsKeys st) = ((lsWorld st', lsKeys st'), Ret None)"
      by (auto simp: verifyRelease_def verified_returns)
    then obtain message blk where blk: "pgClearsignDecode pg buf = Some (message, blk)"
      "verifyGPGSignature web sw pg message blk (lsWorld st, lsKeys st) = ((lsWorld st', lsKeys st'), Ret None)"
      by (auto simp: VerifyClearSignedGPGSignature_def split: option.splits)
    with v verifyGPGSignature_cases[OF blk(2)] False g show ?thesis unfolding release_signed_def by auto
  qed
qed

lemma listDistFiles_run:
  assumes "listDistFiles web sw pg lib pkgOrder srcOrder s root st = Some (st', Ret (Inr l))"
  shows "dist_files web sw pg lib pkgOrder srcOrder s root st st' l"
proof -
  from assms obtain st1 files where i: "indexedFiles web sw pg lib pkgOrder srcOrder s root st = (st1, Ret (Inr files))"
    by (cases "indexedFiles web sw pg lib pkgOrder srcOrder s root st")
      (auto simp: listDistFiles_def split: outcome.splits sum.splits)
  with assms obtain w r where m: "recursivelyListEntries web (the (dsUrlSource s)) root (lsWorld st1) = Some (w, r)"
    and st': "st' = st1\<lparr>lsWorld := w\<rparr>"
    and l: "(case r of Inr entries \<Rightarrow> Inr (files @ entries) | Inl lerr \<Rightarrow> if is_404 lerr then Inr files else Inl lerr) = Inr l"
    by (auto simp: listDistFiles_def)
  from l obtain meta where meta: "l = files @ meta" "r = Inr meta \<or> (\<exists>e. r = Inl e \<and> is_404 e \<and> meta = [])"
    by (cases r) (auto split: if_splits)
  from i obtain s1 rpath rel buf s2 s3 ps ss where
    1: "readRelease web lib s root st = (s1, Ret (Inr (rpath, rel, buf)))"
    and 2: "verifyRelease web sw pg s root rpath buf s1 = (s2, Ret (Inr ()))"
    and 3: "gather (packageFiles web lib s) (pkgOrder (fst (findIndices (architecturesOf s rel) root (rlEntries rel)))) s2 =
      (s3, Ret (Inr ps))"
    and 4: "gather (sourceFiles web lib s) (srcOrder (snd (findIndices (architecturesOf s rel) root (rlEntries rel)))) s3 =
      (st1, Ret (Inr ss))" and files: "files = ps @ ss"
    by (auto simp: indexedFiles_def Let_def returns)
  from gather_returns[OF 3] obtain pkgs where pkgs: "ps = concat pkgs"
    "gathered (packageFiles web lib s) (pkgOrder (fst (findIndices (architecturesOf s rel) root (rlEntries rel)))) s2 s3 pkgs"
    by blast
  from gather_returns[OF 4] obtain srcs where srcs: "ss = concat srcs"
    "gathered (sourceFiles web lib s) (srcOrder (snd (findIndices (architecturesOf s rel) root (rlEntries rel)))) s3 st1 srcs"
    by blast
  have "release_read web lib s root st s1 rpath rel buf"
    using withFallback_returns[OF 1[unfolded readRelease_def]] unfolding release_read_def Let_def by blast
  with verifyRelease_returns[OF 2] pkgs srcs m st' meta files show ?thesis unfolding dist_files_def
    by (intro exI[of _ s1] exI[of _ s2] exI[of _ s3] exI[of _ st1] exI[of _ rpath] exI[of _ rel] exI[of _ buf]
        exI[of _ pkgs] exI[of _ srcs] exI[of _ meta] exI[of _ w] exI[of _ r]) simp
qed

lemma listDistributions_listed:
  assumes "listDistributions web sw pg lib pkgOrder srcOrder s dists A st = Some (st', Ret None)"
  shows "\<exists>lists. stage UNIV (fresh A (concat lists)) st st' \<and>
    dists_listed web sw pg lib pkgOrder srcOrder s dists A st st' lists"
  using assms
proof (induction dists arbitrary: A st)
  case Nil
  then show ?case by (intro exI[of _ "[]"]) simp
next
  case (Cons d dists)
  from Cons.prems obtain st1 files where
    q: "listDistFiles web sw pg lib pkgOrder srcOrder s (path_join [''dists'', d]) st = Some (st1, Ret (Inr files))"
    by (auto split: option.splits outcome.splits sum.splits)
  obtain st2 B where s2: "sendNew files A st1 = (st2, B)" by fastforce
  with Cons.prems q have "listDistributions web sw pg lib pkgOrder srcOrder s dists B st2 = Some (st', Ret None)" by simp
  from Cons.IH[OF this] obtain lists where lists: "stage UNIV (fresh B (concat lists)) st2 st'"
    "dists_listed web sw pg lib pkgOrder srcOrder s dists B st2 st' lists" by blast
  from sendNew_run[OF s2] have st2: "stage UNIV (fresh A files) st1 st2" "B = A \<union> set files" by blast+
  from stage_trans[OF listDistFiles_quiet[OF q] stage_trans[OF st2(1) lists(1)]]
  have "stage UNIV (fresh A (concat (files # lists))) st st'" by (simp add: fresh_append st2(2))
  moreover have "dists_listed web sw pg lib pkgOrder srcOrder s (d # dists) A st st' (files # lists)"
    unfolding dists_listed.simps
    by (intro exI[of _ files] exI[of _ lists] exI[of _ st1] exI[of _ st2] exI[of _ B] conjI refl
        listDistFiles_run[OF q] s2 lists(2))
  ultimately show ?case by blast
qed

section \<open>A toy repository\<close>

text \<open>The distribution \<open>x\<close> has one package and is named twice; the signature is by the key of the key ring.\<close>

definition deb_repo :: site where
  "deb_repo =
     [''http://h/dists/x/InRelease'' \<mapsto> (''text/plain'', ([9], [])),
      ''http://h/dists/x/main/binary-amd64/Packages.xz'' \<mapsto> (''text/plain'', ([8], [])),
      ''http://h/dists/x/'' \<mapsto> (''text/html'', ([], [link ''InRelease'']))]"

definition toy_deb :: DebianSource where
  "toy_deb =
     \<lparr>dsURLString = ''http://h/'', dsClientCertificatePath = [], dsClientCertificateKeyPath = [], dsServerCAPath = [],
      dsDistributions = [''x'', ''x''], dsArchitectures = [], dsVerifySignature = None,
      dsUrlSource = Some site_source, dsGpgVerification = True\<rparr>"

lemma toy_DCF:
  assumes "site (site_uri p) = Some (ct, [x], toks)"
  shows "downloadAndParseDCF (site_web site) toy_lib site_source p unmarshal data s =
    parseDCF (site_uri p) unmarshal data [x]
      (s\<lparr>lsCache := (lsCache s)(p \<mapsto> cacheEntry p [x] (header_set no_header ''Content-Type'' ct))\<rparr>)"
  using assms
  by (simp add: downloadAndParseDCF_def fileURI_site and_then_def or_else_def fetch_site Let_def unpackGzip_def unpackXz_def
      unpack_def give_def parseDCF_def gzipMagicNumber_def xzMagicNumber_def hasPrefix_def split: prod.split option.split)

lemma deb_paths:
  "path_join [''dists'', ''x''] = ''dists/x''"
  "path_join [''dists/x'', ''InRelease''] = ''dists/x/InRelease''"
  "path_join [''dists/x'', ''Release''] = ''dists/x/Release''"
  "path_base ''dists/x/InRelease'' = ''InRelease''"
  "clean ''InRelease'' = ''InRelease''"
  "path_join [''dists/x'', ''main/binary-amd64/Packages.gz''] = ''dists/x/main/binary-amd64/Packages.gz''"
  "stripFileExtension ''dists/x/main/binary-amd64/Packages.gz'' = ''dists/x/main/binary-amd64/Packages''"
  by (simp_all add: clean_def clean_comps_def clean_step_def hasPrefix_def hasSuffix_def trimSuffix_def
      stripFileExtension_def path_ext_def path_base_def split_on_eval Let_def del: split_on.simps)

lemma deb_arch: "packageIndexArch ''main/binary-amd64/Packages.gz'' = Some ''amd64''"
proof -
  have "takeWhile is_letter ''main/binary-amd64/Packages.gz'' = ''main''"
    "dropWhile is_letter ''main/binary-amd64/Packages.gz'' = ''/binary-amd64/Packages.gz''"
    by (simp_all add: is_letter_def)
  moreover have "cutPrefix ''/binary-amd64/Packages.gz'' ''/'' = Some ''binary-amd64/Packages.gz''"
    by (simp add: cutPrefix_def hasPrefix_def)
  moreover have "arch_parts ''amd64/Packages.gz'' = Some (''amd64'', ''.gz'')"
    by (simp add: arch_parts_def cutPrefix_def hasPrefix_def is_word_def is_digit_def)
  then have "inst_parts ''binary-amd64/Packages.gz'' = Some (''amd64'', ''.gz'')"
    by (simp add: inst_parts_def binary_parts_def cutPrefix_def hasPrefix_def)
  ultimately show ?thesis unfolding packageIndexArch_eq by simp
qed

lemma deb_indices:
  "findIndices [''amd64''] ''dists/x'' [''main/binary-amd64/Packages.gz''] = ([''dists/x/main/binary-amd64/Packages''], [])"
proof -
  have "\<not> is_source_index ''main/binary-amd64/Packages.gz''" by (simp add: is_source_index_def hasSuffix_def hasPrefix_def)
  then show ?thesis by (simp add: findIndices_def noteEntry_def deb_paths deb_arch insertNew_def del: path_join.simps)
qed

abbreviation "ring1 \<equiv> toy_ring\<lparr>krEntityList := [1]\<rparr>"

lemma toy_release:
  "verifyRelease (site_web deb_repo) mem_swift toy_pgp toy_deb ''dists/x'' ''dists/x/InRelease'' [9]
     (st\<lparr>lsKeys := ring1\<rparr>) = (st\<lparr>lsKeys := ring1\<rparr>, Ret (Inr ()))"
  unfolding verifyRelease_def deb_paths
  by (simp add: toy_deb_def verified_def VerifyClearSignedGPGSignature_def verifyGPGSignature_def toy_pgp_def
      toy_ring_def addKeys_def Let_def)

lemma deb_sites:
  "deb_repo (site_uri ''dists/x/InRelease'') = Some (''text/plain'', [9], [])"
  "deb_repo (site_uri (''dists/x/main/binary-amd64/Packages'' @ ''.xz'')) = Some (''text/plain'', [8], [])"
  "deb_repo (site_uri ''dists/x/'') = Some (''text/html'', [], [link ''InRelease''])"
  by (simp_all add: deb_repo_def site_uri_def trimPrefix_def hasPrefix_def)

lemma deb_meta:
  "recursivelyListEntries (site_web deb_repo :: ('w, document) web) site_source ''dists/x'' w = Some (w, Inr [''dists/x/InRelease''])"
proof -
  have "match_string dotdotRx ''InRelease'' = False"
    unfolding dotdot_iff by (simp add: split_on_eval del: split_on.simps)
  then have "collectLinks (site_web deb_repo :: ('w, document) web) ''dists/x'' [link ''InRelease''] = [fileSpec ''dists/x/InRelease'']"
    by (simp add: linkEntry_def hrefOf_def link_def path_url_def fileSpec_def hasPrefix_def hasSuffix_def Let_def deb_paths
        del: path_join.simps)
  moreover have "addSlash (getURLForPath (site_web deb_repo :: ('w, document) web) site_source ''dists/x'') = (path_url ''/dists/x/'')\<lparr>uHost := ''h''\<rparr>"
    by (simp add: site_URL addSlash_def path_url_def hasSuffix_def trimPrefix_def hasPrefix_def)
  ultimately have "URLSource_ListEntries (site_web deb_repo) site_source ''dists/x'' w = (w, Inr [fileSpec ''dists/x/InRelease''])"
    using deb_sites(3)
    by (simp add: URLSource_ListEntries_def path_url_def site_uri_def trimPrefix_def hasPrefix_def
       site_response_def status_defs Let_def del: collectLinks.simps)
  then show ?thesis by (simp add: recursivelyListEntries_def listFrom.simps fileSpec_def)
qed

lemma deb_dist:
  "\<exists>cache. listDistFiles (site_web deb_repo) mem_swift toy_pgp toy_lib id id toy_deb ''dists/x'' (st\<lparr>lsKeys := ring1\<rparr>) =
     Some (st\<lparr>lsKeys := ring1, lsCache := cache\<rparr>, Ret (Inr [''pool/a.deb'', ''dists/x/InRelease'']))"
proof -
  have u: "the (dsUrlSource toy_deb) = site_source" and a: "architecturesOf toy_deb rel = rlArchitectures rel" for rel
    by (simp_all add: toy_deb_def architecturesOf_def)
  have l: "rpRelease toy_lib d b = (\<lparr>rlArchitectures = [''amd64''], rlEntries = [''main/binary-amd64/Packages.gz'']\<rparr>, None)"
    "rpPackages toy_lib ps b = ([''pool/a.deb''], None)" for d b ps
    by (simp_all add: toy_lib_def)
  note d = toy_DCF[where site = deb_repo, OF deb_sites(1)] toy_DCF[where site = deb_repo, OF deb_sites(2)]
  have r: "\<exists>cache. readRelease (site_web deb_repo) toy_lib toy_deb ''dists/x'' (st\<lparr>lsKeys := ring1\<rparr>) =
     (st\<lparr>lsKeys := ring1, lsCache := cache\<rparr>,
      Ret (Inr (''dists/x/InRelease'', \<lparr>rlArchitectures = [''amd64''], rlEntries = [''main/binary-amd64/Packages.gz'']\<rparr>, [9])))"
    by (simp add: readRelease_def deb_paths u withFallback_def and_then_def d parseDCF_def l give_def del: path_join.simps)
      blast
  have p: "\<exists>cache. packageFiles (site_web deb_repo) toy_lib toy_deb ''dists/x/main/binary-amd64/Packages'' st' =
     (st'\<lparr>lsCache := cache\<rparr>, Ret (Inr [''pool/a.deb'']))" for st' :: "('a, 'b) lister"
    by (simp only: packageFiles_def u withFallback_def and_then_def d parseDCF_def l) (auto simp: give_def)
  have record_commute: "st\<lparr>lsKeys := ring1, lsCache := c\<rparr> = st\<lparr>lsCache := c, lsKeys := ring1\<rparr>" for c
    by (cases st) simp
  obtain c1 where 1: "readRelease (site_web deb_repo) toy_lib toy_deb ''dists/x'' (st\<lparr>lsKeys := ring1\<rparr>) =
     (st\<lparr>lsCache := c1, lsKeys := ring1\<rparr>,
      Ret (Inr (''dists/x/InRelease'', \<lparr>rlArchitectures = [''amd64''], rlEntries = [''main/binary-amd64/Packages.gz'']\<rparr>, [9])))"
    using r record_commute by metis
  obtain c2 where 2: "packageFiles (site_web deb_repo) toy_lib toy_deb ''dists/x/main/binary-amd64/Packages''
      (st\<lparr>lsCache := c1, lsKeys := ring1\<rparr>) =
     (st\<lparr>lsCache := c1, lsKeys := ring1, lsCache := c2\<rparr>, Ret (Inr [''pool/a.deb'']))"
    using p by blast
  have "indexedFiles (site_web deb_repo) mem_swift toy_pgp toy_lib id id toy_deb ''dists/x'' (st\<lparr>lsKeys := ring1\<rparr>) =
     (st\<lparr>lsCache := c1, lsKeys := ring1, lsCache := c2\<rparr>, Ret (Inr [''pool/a.deb'']))"
    by (simp add: indexedFiles_def and_then_def 1 2 toy_release a deb_indices give_def)
  then show ?thesis by (simp add: listDistFiles_def u deb_meta) blast
qed

section \<open>Properties of the listing\<close>

lemma stage_all: "stage P paths s s' \<Longrightarrow> lsCache s = Map.empty \<Longrightarrow> lsOut s = [] \<Longrightarrow> map Path (lsOut s') = paths"
  by (auto simp: stage_def cache_ok_def)

lemma Debian_run:
  assumes "DebianSource_ListAllFiles web sw pg lib pkgOrder srcOrder s wk = Some (wk', Ret (files, e))"
    and "dsDistributions s \<noteq> []"
  obtains st' where "listDistributions web sw pg lib pkgOrder srcOrder s (dsDistributions s) {}
      (lister_start wk) = Some (st', Ret e)" "files = lsOut st'" "wk' = (lsWorld st', lsKeys st')"
proof -
  from assms obtain st' r where r: "listDistributions web sw pg lib pkgOrder srcOrder s (dsDistributions s) {}
      (lister_start wk) = Some (st', r)"
    by (auto simp: DebianSource_ListAllFiles_def)
  with assms have "r = Ret e" "files = lsOut st'" "wk' = (lsWorld st', lsKeys st')"
    by (auto simp: DebianSource_ListAllFiles_def split: outcome.splits)
  with r that show ?thesis by blast
qed

text \<open>C29: no file of a Debian repository is sent twice, even though the distributions share their pool of
  packages and whether or not the listing succeeds.\<close>

theorem Debian_sends_once:
  assumes "DebianSource_ListAllFiles web sw pg lib pkgOrder srcOrder s wk = Some (wk', Ret (files, e))"
  shows "distinct (map Path files)"
proof (cases "dsDistributions s = []")
  case False
  from Debian_run[OF assms False] obtain st' where "listDistributions web sw pg lib pkgOrder srcOrder s (dsDistributions s) {}
      (lister_start wk) = Some (st', Ret e)" "files = lsOut st'" "wk' = (lsWorld st', lsKeys st')" .
  with listDistributions_run[OF this(1)] show ?thesis by (auto simp: stage_def cache_ok_def distinct_fresh)
qed (use assms in \<open>simp add: DebianSource_ListAllFiles_def\<close>)

text \<open>C17: what a successful listing of a Debian repository sends: the files of the distributions in their
  order, each one where it first occurs. The files of a distribution are its packages, then its
  sources, then everything below its directory, so that metadata comes after the files it names. They are
  found through a release file that this run has downloaded and decoded: \<^verbatim>\<open>InRelease\<close>, or \<^verbatim>\<open>Release\<close> after
  \<^verbatim>\<open>InRelease\<close> has failed. If signatures are to be verified, then right after that the library has accepted
  a signature for it with the key ring of the program, which may have grown: the one in \<^verbatim>\<open>InRelease\<close> for
  its text, or the one in \<^verbatim>\<open>Release.gpg\<close>, downloaded then, for the bytes of \<^verbatim>\<open>Release\<close>. Each step is done in
  the state that the one before has left, from the start of the listing to its end.\<close>

theorem Debian_listing:
  assumes "DebianSource_ListAllFiles web sw pg lib pkgOrder srcOrder s wk = Some (wk', Ret (files, None))"
  shows "dsDistributions s \<noteq> [] \<and>
    (\<exists>lists st'. map Path files = fresh {} (concat lists) \<and>
       dists_listed web sw pg lib pkgOrder srcOrder s (dsDistributions s) {} (lister_start wk) st' lists \<and>
       files = lsOut st' \<and> wk' = (lsWorld st', lsKeys st'))"
proof (cases "dsDistributions s = []")
  case True
  with assms show ?thesis by (simp add: DebianSource_ListAllFiles_def)
next
  case False
  from Debian_run[OF assms False] obtain st' where
    st': "listDistributions web sw pg lib pkgOrder srcOrder s (dsDistributions s) {} (lister_start wk) = Some (st', Ret None)"
    "files = lsOut st'" "wk' = (lsWorld st', lsKeys st')" .
  from listDistributions_listed[OF st'(1)] obtain lists where lists:
    "stage UNIV (fresh {} (concat lists)) (lister_start wk) st'"
    "dists_listed web sw pg lib pkgOrder srcOrder s (dsDistributions s) {} (lister_start wk) st' lists" by blast
  from lists(1) st'(2) have "map Path files = fresh {} (concat lists)" by (auto simp: stage_def cache_ok_def)
  with lists(2) st'(2,3) False show ?thesis by blast
qed

lemma deb_listing:
  "\<exists>files. DebianSource_ListAllFiles (site_web deb_repo) mem_swift toy_pgp toy_lib id id toy_deb (empty_store, ring1) =
     Some ((empty_store, ring1), Ret (files, None)) \<and> map Path files = [''pool/a.deb'', ''dists/x/InRelease'']"
proof -
  let ?st = "\<lparr>lsWorld = empty_store, lsKeys = ring1, lsCache = Map.empty, lsOut = []\<rparr>"
  obtain c1 where 1: "listDistFiles (site_web deb_repo) mem_swift toy_pgp toy_lib id id toy_deb ''dists/x'' ?st =
     Some (\<lparr>lsWorld = empty_store, lsKeys = ring1, lsCache = c1, lsOut = []\<rparr>, Ret (Inr [''pool/a.deb'', ''dists/x/InRelease'']))"
    using deb_dist[of ?st] by auto
  obtain st2 A where 2: "sendNew [''pool/a.deb'', ''dists/x/InRelease''] {}
      \<lparr>lsWorld = empty_store, lsKeys = ring1, lsCache = c1, lsOut = []\<rparr> = (st2, A)" by fastforce
  then have A: "A = {''pool/a.deb'', ''dists/x/InRelease''}" "lsKeys st2 = ring1" "lsWorld st2 = empty_store"
    by (auto simp: send_def)
  have s2: "st2\<lparr>lsKeys := ring1\<rparr> = st2" using A(2) by (cases st2) simp
  obtain c3 where 3: "listDistFiles (site_web deb_repo) mem_swift toy_pgp toy_lib id id toy_deb ''dists/x'' st2 =
     Some (st2\<lparr>lsCache := c3\<rparr>, Ret (Inr [''pool/a.deb'', ''dists/x/InRelease'']))"
    using deb_dist[of st2] unfolding s2 by blast
  have 4: "sendNew [''pool/a.deb'', ''dists/x/InRelease''] A st = (st, A)" for st :: "(store, u64) lister" by (simp add: A(1))
  have d: "dsDistributions toy_deb = [''x'', ''x'']" by (simp add: toy_deb_def)
  have l: "listDistributions (site_web deb_repo) mem_swift toy_pgp toy_lib id id toy_deb (dsDistributions toy_deb) {} ?st =
     Some (st2\<lparr>lsCache := c3\<rparr>, Ret None)"
    unfolding d by (simp add: deb_paths 1 2 3 4 del: path_join.simps sendNew.simps)
  then have run: "DebianSource_ListAllFiles (site_web deb_repo) mem_swift toy_pgp toy_lib id id toy_deb (empty_store, ring1) =
     Some ((empty_store, ring1), Ret (lsOut st2, None))"
    using A(2,3) d by (simp add: DebianSource_ListAllFiles_def lister_start_def)
  have "stage UNIV [] ?st \<lparr>lsWorld = empty_store, lsKeys = ring1, lsCache = c1, lsOut = []\<rparr>"
    using listDistFiles_quiet[OF 1] .
  from stage_trans[OF this conjunct1[OF sendNew_run[OF 2]]]
  have "map Path (lsOut st2) = [] @ fresh {} [''pool/a.deb'', ''dists/x/InRelease'']" by (rule stage_all) simp_all
  then have "map Path (lsOut st2) = [''pool/a.deb'', ''dists/x/InRelease'']" by simp
  with run show ?thesis by (intro exI conjI)
qed

theorem Debian_sends_once_witness:
  "\<exists>files. DebianSource_ListAllFiles (site_web deb_repo) mem_swift toy_pgp toy_lib id id toy_deb (empty_store, ring1) =
     Some ((empty_store, ring1), Ret (files, None)) \<and> distinct (map Path files)"
proof -
  obtain files where l: "DebianSource_ListAllFiles (site_web deb_repo) mem_swift toy_pgp toy_lib id id toy_deb (empty_store, ring1) =
     Some ((empty_store, ring1), Ret (files, None))"
    using deb_listing by (elim exE conjE) (rule that)
  from l Debian_sends_once[OF l] show ?thesis by (intro exI conjI)
qed

theorem Debian_listing_witness:
  "\<exists>files lists. DebianSource_ListAllFiles (site_web deb_repo) mem_swift toy_pgp toy_lib id id toy_deb (empty_store, ring1) =
     Some ((empty_store, ring1), Ret (files, None)) \<and> map Path files = [''pool/a.deb'', ''dists/x/InRelease''] \<and>
     map Path files = fresh {} (concat lists)"
proof -
  obtain files where l: "DebianSource_ListAllFiles (site_web deb_repo) mem_swift toy_pgp toy_lib id id toy_deb (empty_store, ring1) =
     Some ((empty_store, ring1), Ret (files, None))" "map Path files = [''pool/a.deb'', ''dists/x/InRelease'']"
    using deb_listing by (elim exE conjE) (rule that)
  from Debian_listing[OF l(1)] obtain lists where "map Path files = fresh {} (concat lists)"
    by (elim exE conjE) (rule that)
  with l show ?thesis by (intro exI conjI)
qed

end
