(* ===== verification/GithubClaims.thy ===== *)
theory GithubClaims
  imports Github UrlClaims
begin

text \<open>
  The properties of the GitHub source: which repositories it accepts, that links to further pages are
  found, that stopping early loses no recent release, when it panics, and that it terminates.
\<close>

section \<open>The listing as a filter\<close>

definition wantsRelease :: "GithubReleaseSource \<Rightarrow> githubRelease \<Rightarrow> bool" where
  "wantsRelease s r \<longleftrightarrow>
     (ghIncludeDraft s \<or> \<not> grIsDraft r) \<and> (ghIncludePrerelease s \<or> \<not> grIsPrerelease r) \<and>
     rxMatchString (ghTagNamePattern s) (grTagName r)"

definition assetsOf :: "GithubReleaseSource \<Rightarrow> githubRelease list \<Rightarrow> FileSpec list" where
  "assetsOf s rs = concat (map (\<lambda>r. map (assetSpec r) (grAssets r)) (filter (wantsRelease s) rs))"

lemma sendReleases_eq: "sendReleases s rs = assetsOf s rs"
  by (induction rs) (auto simp: assetsOf_def wantsRelease_def)

lemma getPage_limit: "getPage web dec (s\<lparr>ghNotOlderThan := x\<rparr>) uri w = getPage web dec s uri w"
proof -
  have "githubRequestHeader web (s\<lparr>ghNotOlderThan := x\<rparr>) = githubRequestHeader web s"
    by (intro ext) (simp add: githubRequestHeader_def Let_def)
  then show ?thesis by (simp only: getPage_def)
qed

section \<open>Runs of the loop\<close>

text \<open>The complete runs of the loop over the pages as an inductive relation.\<close>

inductive visits ::
  "('w, 'b) web \<Rightarrow> ('b \<Rightarrow> goerror + githubRelease list) \<Rightarrow> GithubReleaseSource \<Rightarrow> string \<Rightarrow> githubRelease list \<Rightarrow> 'w \<Rightarrow>
    'w \<times> (goerror + githubRelease list) outcome \<Rightarrow> bool"
  for web dec s where
  visits_end: "visits web dec s [] result w (w, Ret (Inr result))"
| visits_error: "uri \<noteq> [] \<Longrightarrow> getPage web dec s uri w = (w', Inl err) \<Longrightarrow>
    visits web dec s uri result w (w', Ret (Inl err))"
| visits_panic: "uri \<noteq> [] \<Longrightarrow> getPage web dec s uri w = (w', Inr ([], next)) \<Longrightarrow> ghNotOlderThan s = Some t \<Longrightarrow>
    visits web dec s uri [] w (w', Panic ''index out of range'')"
| visits_stop: "uri \<noteq> [] \<Longrightarrow> getPage web dec s uri w = (w', Inr (page, next)) \<Longrightarrow> ghNotOlderThan s = Some t \<Longrightarrow>
    result @ page \<noteq> [] \<Longrightarrow> grPublishedAt (last (result @ page)) < t \<Longrightarrow>
    visits web dec s uri result w (w', Ret (Inr (result @ page)))"
| visits_next: "uri \<noteq> [] \<Longrightarrow> getPage web dec s uri w = (w', Inr (page, next)) \<Longrightarrow>
    \<forall>t. ghNotOlderThan s = Some t \<longrightarrow> result @ page \<noteq> [] \<and> t \<le> grPublishedAt (last (result @ page)) \<Longrightarrow>
    visits web dec s next (result @ page) w' out \<Longrightarrow> visits web dec s uri result w out"

lemma visits_returns: "visits web dec s uri result w out \<Longrightarrow> getReleasesFrom web dec s uri result w = Some out"
  by (induction rule: visits.induct) (subst getReleasesFrom.simps; auto split: option.splits)+

lemma returns_visits: "getReleasesFrom web dec s uri result w = Some out \<Longrightarrow> visits web dec s uri result w out"
proof (rule getReleasesFrom.raw_induct[where P = visits])
  fix f web dec s uri result w out
  assume IH: "\<And>web dec s uri result w out. f web dec s uri result w = Some out \<Longrightarrow> visits web dec s uri result w out"
    and eq: "(if uri = [] then Some (w, Ret (Inr result))
      else
        (case getPage web dec s uri w of
           (w', Inl err) \<Rightarrow> Some (w', Ret (Inl err))
         | (w', Inr (page, next)) \<Rightarrow>
             (case ghNotOlderThan s of
                None \<Rightarrow> f web dec s next (result @ page) w'
              | Some t \<Rightarrow>
                  if result @ page = [] then Some (w', Panic ''index out of range'')
                  else if grPublishedAt (last (result @ page)) < t then Some (w', Ret (Inr (result @ page)))
                  else f web dec s next (result @ page) w'))) = Some out"
  show "visits web dec s uri result w out"
  proof (cases "uri = []")
    case True
    with eq show ?thesis by (auto intro: visits_end)
  next
    case False
    obtain w' p where p: "getPage web dec s uri w = (w', p)" by fastforce
    show ?thesis
    proof (cases p)
      case (Inl err)
      with eq False p show ?thesis by (auto intro: visits_error)
    next
      case (Inr q)
      then obtain page nxt where q: "getPage web dec s uri w = (w', Inr (page, nxt))" using p by (cases q) auto
      show ?thesis
      proof (cases "ghNotOlderThan s")
        case None
        with eq False q have "f web dec s nxt (result @ page) w' = Some out" by simp
        from visits_next[OF False q _ IH[OF this]] None show ?thesis by simp
      next
        case (Some t)
        consider "result @ page = []" | "result @ page \<noteq> []" "grPublishedAt (last (result @ page)) < t"
          | "result @ page \<noteq> []" "t \<le> grPublishedAt (last (result @ page))" by force
        then show ?thesis
        proof cases
          case 1
          with eq False q Some show ?thesis by (auto intro: visits_panic)
        next
          case 2
          with eq False q Some have "out = (w', Ret (Inr (result @ page)))" by (auto split: if_splits)
          with visits_stop[OF False q Some 2] show ?thesis by simp
        next
          case 3
          with eq False q Some have "f web dec s nxt (result @ page) w' = Some out" by (auto split: if_splits)
          from visits_next[OF False q _ IH[OF this]] 3 Some show ?thesis by simp
        qed
      qed
    qed
  qed
qed

lemma visits_iff: "getReleasesFrom web dec s uri result w = Some out \<longleftrightarrow> visits web dec s uri result w out"
  using visits_returns returns_visits by metis

section \<open>Stopping early\<close>

text \<open>The order in which the API delivers releases: the newest first.\<close>

definition newest_first :: "githubRelease list \<Rightarrow> bool" where
  "newest_first rs \<longleftrightarrow> sorted_wrt (\<lambda>a b. grPublishedAt b \<le> grPublishedAt a) rs"

lemma newest_first_rest:
  "newest_first (part @ rest) \<Longrightarrow> part \<noteq> [] \<Longrightarrow> r \<in> set rest \<Longrightarrow> grPublishedAt r \<le> grPublishedAt (last part)"
  by (auto simp: newest_first_def sorted_wrt_append)

lemma visits_extends: "visits web dec s uri result w out \<Longrightarrow> snd out = Ret (Inr all) \<Longrightarrow> \<exists>more. all = result @ more"
  by (induction rule: visits.induct) auto

text \<open>The first page of a listing has releases.\<close>

definition page_with_releases ::
  "('w, 'b) web \<Rightarrow> ('b \<Rightarrow> goerror + githubRelease list) \<Rightarrow> GithubReleaseSource \<Rightarrow> string \<Rightarrow> 'w \<Rightarrow> bool" where
  "page_with_releases web dec s uri w \<longleftrightarrow> (\<forall>w' next. getPage web dec s uri w \<noteq> (w', Inr ([], next)))"

lemma visits_limited:
  assumes "visits web dec (s\<lparr>ghNotOlderThan := None\<rparr>) uri result w out" "snd out = Ret (Inr all)"
    and "newest_first all" "ghNotOlderThan s = Some t"
    and "uri = [] \<or> result \<noteq> [] \<or> page_with_releases web dec s uri w"
  shows "\<exists>w' part rest. visits web dec s uri result w (w', Ret (Inr part)) \<and> all = part @ rest \<and>
    (\<forall>r\<in>set rest. grPublishedAt r < t)"
  using assms
proof (induction rule: visits.induct)
  case (visits_end result w)
  then show ?case using visits.visits_end[of web dec s result w] by fastforce
next
  case (visits_next uri w w' page nxt result out)
  note page = visits_next.hyps(2)[unfolded getPage_limit]
  have ne: "result @ page \<noteq> []"
    using visits_next.prems(4) visits_next.hyps(1) page by (auto simp: page_with_releases_def)
  obtain more where more: "all = (result @ page) @ more" using visits_extends[OF visits_next.hyps(4)] visits_next.prems(1) by auto
  show ?case
  proof (cases "grPublishedAt (last (result @ page)) < t")
    case True
    from visits_stop[OF visits_next.hyps(1) page \<open>ghNotOlderThan s = Some t\<close> ne True]
    have "visits web dec s uri result w (w', Ret (Inr (result @ page)))" .
    moreover have "\<forall>r\<in>set more. grPublishedAt r < t"
      using newest_first_rest[OF \<open>newest_first all\<close>[unfolded more] ne] True by fastforce
    ultimately show ?thesis using more by blast
  next
    case False
    from visits_next.IH[OF visits_next.prems(1-3)] ne obtain w2 part rest where
      "visits web dec s nxt (result @ page) w' (w2, Ret (Inr part))" "all = part @ rest" "\<forall>r\<in>set rest. grPublishedAt r < t"
      by blast
    with visits.visits_next[OF visits_next.hyps(1) page _ this(1)] False ne \<open>ghNotOlderThan s = Some t\<close> show ?thesis
      by fastforce
  qed
qed auto

section \<open>Links\<close>

text \<open>A \<^verbatim>\<open>Link\<close> header as servers write it.\<close>

definition formatLink :: "string \<times> string \<Rightarrow> string" where
  "formatLink l = ''<'' @ fst l @ ''>; rel='' @ [CHR 0x22] @ snd l @ [CHR 0x22]"

definition formatLinks :: "(string \<times> string) list \<Rightarrow> string" where
  "formatLinks ls = join '','' (case ls of [] \<Rightarrow> [] | l # rest \<Rightarrow> formatLink l # map (\<lambda>l. CHR '' '' # formatLink l) rest)"

lemma linkTarget_space: "linkTarget (CHR '' '' # s) = linkTarget s"
  by (simp add: linkTarget_def trimSpace_def is_space_def)

lemma linkTarget_formatLink:
  assumes "CHR '';'' \<notin> set (fst l)"
  shows "linkTarget (formatLink l) = (if snd l = ''next'' then Some (fst l) else None)"
proof -
  have t: "trimSpace (formatLink l) = formatLink l"
    by (rule trimSpace_id) (simp_all add: formatLink_def is_space_def)
  have m: "trimSpace ('' rel='' @ [CHR 0x22] @ snd l @ [CHR 0x22]) = ''rel='' @ [CHR 0x22] @ snd l @ [CHR 0x22]"
    using trimSpace_id[of "''rel='' @ [CHR 0x22] @ snd l @ [CHR 0x22]"]
    by (simp add: trimSpace_def is_space_def)
  have f: "formatLink l = (''<'' @ fst l @ ''>'') @ CHR '';'' # ('' rel='' @ [CHR 0x22] @ snd l @ [CHR 0x22])"
    by (simp add: formatLink_def)
  have "CHR '';'' \<notin> set (''<'' @ fst l @ ''>'')" using assms by simp
  then have c: "cut (CHR '';'') (formatLink l) = Some (''<'' @ fst l @ ''>'', '' rel='' @ [CHR 0x22] @ snd l @ [CHR 0x22])"
    unfolding f by (rule cut_append)
  have "cutPrefix (''<'' @ fst l @ ''>'') ''<'' = Some (fst l @ ''>'')" "cutSuffix (fst l @ ''>'') ''>'' = Some (fst l)"
    by (simp_all add: cutPrefix_Some_iff cutSuffix_Some_iff)
  then show ?thesis unfolding linkTarget_def t c by (simp add: m[simplified])
qed

lemma firstTarget_find:
  "firstTarget links = (case List.find (\<lambda>l. linkTarget l \<noteq> None) links of None \<Rightarrow> [] | Some l \<Rightarrow> the (linkTarget l))"
  by (induction links) (auto split: option.splits)

lemma firstTarget_formatLinks:
  "\<forall>l\<in>set ls. CHR '';'' \<notin> set (fst l) \<Longrightarrow>
     firstTarget (map (\<lambda>l. CHR '' '' # formatLink l) ls) =
     (case List.find (\<lambda>l. snd l = ''next'') ls of None \<Rightarrow> [] | Some l \<Rightarrow> fst l)"
  by (induction ls) (auto simp: linkTarget_space linkTarget_formatLink)

lemma split_formatLinks:
  assumes "\<forall>l\<in>set ls. CHR '','' \<notin> set (fst l) \<and> CHR '','' \<notin> set (snd l)" "ls \<noteq> []"
  shows "split_on (CHR '','') (formatLinks ls) = (case ls of [] \<Rightarrow> [] | l # rest \<Rightarrow> formatLink l # map (\<lambda>l. CHR '' '' # formatLink l) rest)"
proof -
  have "CHR '','' \<notin> set (formatLink l)" if "l \<in> set ls" for l using assms(1) that by (simp add: formatLink_def)
  then show ?thesis unfolding formatLinks_def using assms(2) by (cases ls) (auto intro!: split_on_join)
qed

text \<open>Finding the next page. From a header in the format of RFC 8288 the link with the relation
  \<^verbatim>\<open>next\<close> is read back, whatever other relations there are; without one the listing ends.\<close>

theorem link_roundtrip:
  assumes "\<forall>l\<in>set ls. CHR '','' \<notin> set (fst l) \<and> CHR '','' \<notin> set (snd l) \<and> CHR '';'' \<notin> set (fst l)"
  shows "nextPage (formatLinks ls) = (case List.find (\<lambda>l. snd l = ''next'') ls of None \<Rightarrow> [] | Some l \<Rightarrow> fst l)"
proof (cases ls)
  case Nil
  then show ?thesis by (simp add: nextPage_def formatLinks_def)
next
  case (Cons l rest)
  have "formatLinks ls \<noteq> []" using Cons by (cases rest) (simp_all add: formatLinks_def formatLink_def)
  moreover have "split_on (CHR '','') (formatLinks ls) = formatLink l # map (\<lambda>l. CHR '' '' # formatLink l) rest"
    using split_formatLinks[of ls] assms Cons by simp
  moreover have "firstTarget (map (\<lambda>l. CHR '' '' # formatLink l) rest) =
     (case List.find (\<lambda>l. snd l = ''next'') rest of None \<Rightarrow> [] | Some l \<Rightarrow> fst l)"
    by (rule firstTarget_formatLinks) (use assms Cons in simp)
  moreover have "linkTarget (formatLink l) = (if snd l = ''next'' then Some (fst l) else None)"
    by (rule linkTarget_formatLink) (use assms Cons in simp)
  ultimately show ?thesis by (simp add: nextPage_def Cons)
qed

theorem link_roundtrip_witness:
  "nextPage (formatLinks [(''http://h/?page=1'', ''prev''), (''http://h/?page=3'', ''next'')]) = ''http://h/?page=3''"
  using link_roundtrip[of "[(''http://h/?page=1'', ''prev''), (''http://h/?page=3'', ''next'')]"] by simp

section \<open>Which repositories are accepted\<close>

definition repoTailRx :: rx where
  "repoTailRx = Seq (Optional (Lit ''/'')) Eol"

definition repoNameRx :: rx where
  "repoNameRx = Seq (Grp 2 (Some_of repo_char)) repoTailRx"

definition repoOwnerRx :: rx where
  "repoOwnerRx = Seq (Grp 1 (Some_of repo_char)) (Seq (Lit ''/'') repoNameRx)"

lemma githubRepoRx_eq: "githubRepoRx = Seq Bol (Seq (Lit ''/'') repoOwnerRx)"
  by (simp add: githubRepoRx_def repoOwnerRx_def repoNameRx_def repoTailRx_def)

lemma matches_repoTailRx:
  "matches repoTailRx (p, s) =
     (if s = [] then [((p, []), [])] else if s = ''/'' then [((Some (CHR ''/''), []), [])] else [])"
  by (cases s) (auto simp: repoTailRx_def Optional_def hasPrefix_def advance_def)

lemma refuses_repoTailRx: "refuses repoTailRx repo_char"
  by (auto simp: refuses_def matches_repoTailRx repo_char_def)

lemma matches_repoNameRx:
  "map (\<lambda>m. group (snd m) 2) (matches repoNameRx (p, s)) =
     (if takeWhile repo_char s \<noteq> [] \<and> dropWhile repo_char s \<in> {[], ''/''} then [takeWhile repo_char s] else [])"
  "\<forall>m\<in>set (matches repoNameRx (p, s)). group (snd m) 1 = []"
  unfolding repoNameRx_def matches_Grp_Some_of[OF refuses_repoTailRx] by (auto simp: matches_repoTailRx)

definition repo_parts :: "string \<Rightarrow> (string \<times> string) option" where
  "repo_parts path =
     Option.bind (cutPrefix path ''/'') (\<lambda>t.
       if takeWhile repo_char t = [] then None
       else Option.bind (cutPrefix (dropWhile repo_char t) ''/'') (\<lambda>u.
         if takeWhile repo_char u \<noteq> [] \<and> dropWhile repo_char u \<in> {[], ''/''}
         then Some (takeWhile repo_char t, takeWhile repo_char u) else None))"

lemma first_group_of:
  "(case map (\<lambda>(q, g). (q, (1, x) # g)) ms of [] \<Rightarrow> None | (q, g) # _ \<Rightarrow> Some (group g 1, group g 2)) =
     (case map (\<lambda>m. group (snd m) 2) ms of [] \<Rightarrow> None | y # _ \<Rightarrow> Some (x, y))"
  by (cases ms) (auto split: prod.splits)

lemma repoOf_eq: "repoOf path = repo_parts path"
proof (cases "cutPrefix path ''/''")
  case None
  then show ?thesis
    unfolding repoOf_def githubRepoRx_eq find_submatch_anchored matches_Lit_Seq repo_parts_def by simp
next
  case (Some t)
  have r: "refuses (Seq (Lit ''/'') repoNameRx) repo_char" by (simp add: repo_char_def)
  have m: "map_option h (case ms of [] \<Rightarrow> None | (q, g) # _ \<Rightarrow> Some g) = (case ms of [] \<Rightarrow> None | (q, g) # _ \<Rightarrow> Some (h g))"
    for h :: "groups \<Rightarrow> string \<times> string" and ms :: "(pos \<times> groups) list"
    by (cases ms) auto
  show ?thesis
  proof (cases "takeWhile repo_char t = []")
    case True
    then show ?thesis
      unfolding repoOf_def githubRepoRx_eq find_submatch_anchored matches_Lit_Seq repo_parts_def Some
        repoOwnerRx_def matches_Grp_Some_of[OF r] by simp
  next
    case False
    show ?thesis
    proof (cases "cutPrefix (dropWhile repo_char t) ''/''")
      case None
      then show ?thesis
        unfolding repoOf_def githubRepoRx_eq find_submatch_anchored matches_Lit_Seq repo_parts_def Some
          repoOwnerRx_def matches_Grp_Some_of[OF r] by simp
    next
      case (Some u)
      note u = this
      show ?thesis
        unfolding repoOf_def githubRepoRx_eq find_submatch_anchored m matches_Lit_Seq repo_parts_def
          \<open>cutPrefix path ''/'' = Some t\<close> option.case repoOwnerRx_def matches_Grp_Some_of[OF r] if_not_P[OF False] first_group_of
          Some matches_repoNameRx using False by (simp add: u)
    qed
  qed
qed

lemma repo_parts_iff:
  "repo_parts path = Some (owner, repo) \<longleftrightarrow>
     (\<exists>slash. path = ''/'' @ owner @ ''/'' @ repo @ slash \<and> (slash = [] \<or> slash = ''/'') \<and>
        owner \<noteq> [] \<and> list_all repo_char owner \<and> repo \<noteq> [] \<and> list_all repo_char repo)"
proof
  assume "repo_parts path = Some (owner, repo)"
  then obtain t u where 1: "path = ''/'' @ t" "owner = takeWhile repo_char t" "owner \<noteq> []"
    "dropWhile repo_char t = ''/'' @ u" "repo = takeWhile repo_char u" "repo \<noteq> []" "dropWhile repo_char u \<in> {[], ''/''}"
    by (auto simp: repo_parts_def bind_eq_Some_conv cutPrefix_Some_iff split: if_splits)
  then have "path = ''/'' @ owner @ ''/'' @ repo @ dropWhile repo_char u" by (metis takeWhile_dropWhile_id)
  moreover have "list_all repo_char owner" "list_all repo_char repo"
    using 1(2,5) by (auto simp: list_all_iff dest: set_takeWhileD)
  ultimately show "\<exists>slash. path = ''/'' @ owner @ ''/'' @ repo @ slash \<and> (slash = [] \<or> slash = ''/'') \<and>
        owner \<noteq> [] \<and> list_all repo_char owner \<and> repo \<noteq> [] \<and> list_all repo_char repo"
    using 1 by blast
next
  assume "\<exists>slash. path = ''/'' @ owner @ ''/'' @ repo @ slash \<and> (slash = [] \<or> slash = ''/'') \<and>
        owner \<noteq> [] \<and> list_all repo_char owner \<and> repo \<noteq> [] \<and> list_all repo_char repo"
  then obtain slash where s: "path = ''/'' @ owner @ ''/'' @ repo @ slash" "slash = [] \<or> slash = ''/''"
    "owner \<noteq> []" "\<forall>c\<in>set owner. repo_char c" "repo \<noteq> []" "\<forall>c\<in>set repo. repo_char c" by (auto simp: list_all_iff)
  have "takeWhile repo_char (owner @ ''/'' @ repo @ slash) = owner \<and>
      dropWhile repo_char (owner @ ''/'' @ repo @ slash) = ''/'' @ repo @ slash"
    by (rule takeWhile_split[OF s(4)]) (simp add: repo_char_def)
  moreover have "takeWhile repo_char (repo @ slash) = repo \<and> dropWhile repo_char (repo @ slash) = slash"
    by (rule takeWhile_split[OF s(6)]) (use s(2) in \<open>auto simp: repo_char_def\<close>)
  ultimately show "repo_parts path = Some (owner, repo)"
    unfolding repo_parts_def s(1) using s(2,3,5) by (simp only: cutPrefix_append Option.bind.simps) auto
qed

text \<open>Which GitHub sources are valid, and where their releases are listed. Validate reports no error
  exactly for an http or https URL without query and fragment whose path is an owner and a repository
  name, with at most a slash after them; servers other than github.com need a token. The endpoint is
  the one for this owner and repository on the API server.\<close>

theorem Github_Validate_iff:
  "GithubReleaseSource_Validate web s name = (s', []) \<longleftrightarrow>
     (\<exists>u owner repo slash base ref.
        wbParse web (ghURLString s) = Inr u \<and> uScheme u \<in> {''http'', ''https''} \<and>
        uRawQuery u = [] \<and> uFragment u = [] \<and>
        uPath u = ''/'' @ owner @ ''/'' @ repo @ slash \<and> slash \<in> {[], ''/''} \<and>
        owner \<noteq> [] \<and> list_all repo_char owner \<and> repo \<noteq> [] \<and> list_all repo_char repo \<and>
        apiBaseURL web u = Inr base \<and> wbParse web (endpointPath owner repo) = Inr ref \<and>
        \<not> (Hostname u \<noteq> ''github.com'' \<and> ghToken s = []) \<and>
        s' = s\<lparr>ghRepoURL := Some u, ghReleaseEndpointURL := Some (wbResolve web base ref)\<rparr>)"
  (is "?l \<longleftrightarrow> ?r")
proof
  assume ?l
  then obtain u where u: "wbParse web (ghURLString s) = Inr u"
    by (auto simp: GithubReleaseSource_Validate_def split: sum.splits)
  with \<open>?l\<close> have c: "uScheme u \<in> {''http'', ''https''}" "uRawQuery u = []" "uFragment u = []"
    by (auto simp: GithubReleaseSource_Validate_def Let_def split: if_splits)
  with \<open>?l\<close> u obtain owner repo where o: "repoOf (uPath u) = Some (owner, repo)"
    by (cases "repoOf (uPath u)") (auto simp: GithubReleaseSource_Validate_def Let_def)
  with \<open>?l\<close> u c obtain base where b: "apiBaseURL web u = Inr base"
    by (cases "apiBaseURL web u") (auto simp: GithubReleaseSource_Validate_def Let_def)
  with \<open>?l\<close> u c o obtain ref where r: "wbParse web (endpointPath owner repo) = Inr ref"
    by (cases "wbParse web (endpointPath owner repo)") (auto simp: GithubReleaseSource_Validate_def Let_def)
  from \<open>?l\<close> u c o b r have "\<not> (Hostname u \<noteq> ''github.com'' \<and> ghToken s = [])"
    "s' = s\<lparr>ghRepoURL := Some u, ghReleaseEndpointURL := Some (wbResolve web base ref)\<rparr>"
    by (auto simp: GithubReleaseSource_Validate_def Let_def split: if_splits)
  with u c b r o[unfolded repoOf_eq repo_parts_iff] show ?r by blast
next
  assume ?r
  then obtain u owner repo slash base ref where r: "wbParse web (ghURLString s) = Inr u" "uScheme u \<in> {''http'', ''https''}"
    "uRawQuery u = []" "uFragment u = []" "uPath u = ''/'' @ owner @ ''/'' @ repo @ slash" "slash \<in> {[], ''/''}"
    "owner \<noteq> []" "list_all repo_char owner" "repo \<noteq> []" "list_all repo_char repo"
    "apiBaseURL web u = Inr base" "wbParse web (endpointPath owner repo) = Inr ref"
    "\<not> (Hostname u \<noteq> ''github.com'' \<and> ghToken s = [])"
    "s' = s\<lparr>ghRepoURL := Some u, ghReleaseEndpointURL := Some (wbResolve web base ref)\<rparr>"
    by (elim exE conjE) (rule that)
  have "repoOf (uPath u) = Some (owner, repo)"
    unfolding repoOf_eq repo_parts_iff using r(5-10) by (intro exI[of _ slash] conjI) simp_all
  with r(1-4,11-14) show ?l by (auto simp: GithubReleaseSource_Validate_def Let_def)
qed

section \<open>A toy server\<close>

text \<open>
  Bodies are decoded pages. The first page has a release of time 50 and the link to the second page,
  with releases of the times 20 and 10; a third one is empty.
\<close>

definition release_at :: "gotime \<Rightarrow> githubRelease" where
  "release_at t =
     \<lparr>grTagName = ''v'' @ decimal (nat t), grIsDraft = False, grIsPrerelease = False, grPublishedAt = t,
      grAssets = [\<lparr>gaDownloadURL = ''u'', gaName = ''a'', gaUpdatedAt = t\<rparr>]\<rparr>"

definition page_response :: "githubRelease list \<Rightarrow> string \<Rightarrow> githubRelease list response" where
  "page_response page next =
     \<lparr>resp_status = ''200 OK'', resp_code = 200,
      resp_header = (if next = [] then no_header else header_set no_header ''Link'' (formatLinks [(next, ''next'')])),
      resp_length = -1, resp_body = page\<rparr>"

definition toy_client :: "(unit, githubRelease list) client" where
  "toy_client =
     \<lparr>cl_newRequest = (\<lambda>uri. None),
      cl_do = (\<lambda>w req. (w,
        if req_uri req = ''p1'' then Inr (page_response [release_at 50] ''p2'')
        else if req_uri req = ''p2'' then Inr (page_response [release_at 20, release_at 10] ''p3'')
        else if req_uri req = ''p3'' then Inr (page_response [] [])
        else Inl (Err ''no such page''))),
      cl_read = (\<lambda>b n. ([], Some EOF, b)), cl_close = (\<lambda>b. None)\<rparr>"

definition toy_web :: "(unit, githubRelease list) web" where
  "toy_web =
     \<lparr>wbParse = (\<lambda>s. Inr (path_url s)), wbResolve = (\<lambda>base ref. base), wbString = uPath,
      wbClient = (\<lambda>c. toy_client), wbReadAll = (\<lambda>b. ([], None)), wbTokens = (\<lambda>b. []), wbVersion = ''1.0''\<rparr>"

definition toy_github :: "string \<Rightarrow> gotime option \<Rightarrow> GithubReleaseSource" where
  "toy_github endpoint limit =
     \<lparr>ghURLString = ''https://github.com/o/r'', ghToken = [], ghTagNamePattern = \<lparr>rxText = [], rxMatchString = (\<lambda>s. True)\<rparr>,
      ghIncludeDraft = False, ghIncludePrerelease = False, ghRepoURL = Some (path_url []),
      ghReleaseEndpointURL = Some (path_url endpoint), ghNotOlderThan = limit\<rparr>"

lemma toy_pages:
  "getPage toy_web Inr s ''p1'' () = ((), Inr ([release_at 50], ''p2''))"
  "getPage toy_web Inr s ''p2'' () = ((), Inr ([release_at 20, release_at 10], ''p3''))"
  "getPage toy_web Inr s ''p3'' () = ((), Inr ([], []))"
proof -
  have n: "nextPage (formatLinks [(p, ''next'')]) = p" if "CHR '','' \<notin> set p" "CHR '';'' \<notin> set p" for p
    using link_roundtrip[of "[(p, ''next'')]"] that by simp
  have e: "nextPage [] = []" by (simp add: nextPage_def)
  show "getPage toy_web Inr s ''p1'' () = ((), Inr ([release_at 50], ''p2''))"
    "getPage toy_web Inr s ''p2'' () = ((), Inr ([release_at 20, release_at 10], ''p3''))"
    "getPage toy_web Inr s ''p3'' () = ((), Inr ([], []))"
    by (simp_all add: getPage_def toy_web_def toy_client_def page_response_def status_defs n e del: cut.simps)
qed

section \<open>Properties of the listing\<close>

definition endpoint :: "('w, 'b) web \<Rightarrow> GithubReleaseSource \<Rightarrow> string" where
  "endpoint web s = wbString web (the (ghReleaseEndpointURL s))"

lemma getReleases_visits: "getReleases web dec s w = Some out \<longleftrightarrow> visits web dec s (endpoint web s) [] w out"
  by (simp add: getReleases_def endpoint_def visits_iff)

lemma visits_panics:
  "visits web dec s uri result w out \<Longrightarrow> snd out = Panic m \<Longrightarrow>
     result = [] \<and> m = ''index out of range'' \<and> uri \<noteq> [] \<and> ghNotOlderThan s \<noteq> None \<and>
     (\<exists>next. getPage web dec s uri w = (fst out, Inr ([], next)))"
  by (induction rule: visits.induct) auto

lemma Github_panics:
  "GithubReleaseSource_ListAllFiles web dec s w = Some (w', Panic m) \<longleftrightarrow>
     m = ''index out of range'' \<and> endpoint web s \<noteq> [] \<and> ghNotOlderThan s \<noteq> None \<and>
     (\<exists>next. getPage web dec s (endpoint web s) w = (w', Inr ([], next)))"
proof -
  have "visits web dec s (endpoint web s) [] w (w', Panic m) \<longleftrightarrow>
     m = ''index out of range'' \<and> endpoint web s \<noteq> [] \<and> ghNotOlderThan s \<noteq> None \<and>
     (\<exists>next. getPage web dec s (endpoint web s) w = (w', Inr ([], next)))" (is "?l \<longleftrightarrow> ?r")
  proof
    assume ?l
    from visits_panics[OF this] show ?r by auto
  next
    assume ?r
    then obtain nxt t where "endpoint web s \<noteq> []" "getPage web dec s (endpoint web s) w = (w', Inr ([], nxt))"
      "ghNotOlderThan s = Some t" "m = ''index out of range''" by blast
    then show ?l by (auto intro: visits_panic)
  qed
  moreover have "GithubReleaseSource_ListAllFiles web dec s w = Some (w', Panic m) \<longleftrightarrow>
      getReleases web dec s w = Some (w', Panic m)"
  proof (cases "getReleases web dec s w")
    case (Some out)
    then show ?thesis
      by (cases out; cases "snd out") (auto simp: GithubReleaseSource_ListAllFiles_def split: sum.splits)
  qed (simp add: GithubReleaseSource_ListAllFiles_def)
  ultimately show ?thesis by (simp only: getReleases_visits)
qed

text \<open>C21: what the limit on the age of releases changes. Suppose that all releases, listed without the limit,
  come newest first. If the first page has at least one release, then the limit only saves requests: the
  listing sends exactly the assets of the wanted releases among those that it has seen, and every release
  it has not seen was published before the limit. If the first page has no release, as for a repository
  without any, then the listing with the limit panics, while the one without it succeeds.\<close>

theorem Github_early_stop:
  assumes "getReleases web dec (s\<lparr>ghNotOlderThan := None\<rparr>) w = Some (w1, Ret (Inr all))" "newest_first all"
    and "ghNotOlderThan s = Some t"
  shows "if endpoint web s = [] \<or> page_with_releases web dec s (endpoint web s) w
    then \<exists>w' seen rest. all = seen @ rest \<and> (\<forall>r\<in>set rest. grPublishedAt r < t) \<and>
      GithubReleaseSource_ListAllFiles web dec s w = Some (w', Ret (assetsOf s seen, None))
    else \<exists>w'. GithubReleaseSource_ListAllFiles web dec s w = Some (w', Panic ''index out of range'')"
proof (cases "endpoint web s = [] \<or> page_with_releases web dec s (endpoint web s) w")
  case False
  then obtain w' nxt where "endpoint web s \<noteq> []" "getPage web dec s (endpoint web s) w = (w', Inr ([], nxt))"
    by (auto simp: page_with_releases_def)
  with False assms(3) Github_panics[of web dec s w w'] show ?thesis by auto
next
  case first: True
  have e: "endpoint web (s\<lparr>ghNotOlderThan := None\<rparr>) = endpoint web s" by (simp add: endpoint_def)
  from assms(1) have v: "visits web dec (s\<lparr>ghNotOlderThan := None\<rparr>) (endpoint web s) [] w (w1, Ret (Inr all))"
    unfolding getReleases_visits e .
  have "snd (w1, Ret (Inr all) :: (goerror + githubRelease list) outcome) = Ret (Inr all)" by simp
  from visits_limited[OF v this assms(2,3)] first obtain w' seen rest where
    "visits web dec s (endpoint web s) [] w (w', Ret (Inr seen))" "all = seen @ rest" "\<forall>r\<in>set rest. grPublishedAt r < t"
    by blast
  moreover from this(1) have "GithubReleaseSource_ListAllFiles web dec s w = Some (w', Ret (assetsOf s seen, None))"
    using getReleases_visits[of web dec s w "(w', Ret (Inr seen))"]
    by (auto simp: GithubReleaseSource_ListAllFiles_def sendReleases_eq)
  ultimately show ?thesis using first by auto
qed

lemma toy_all: "getReleases toy_web Inr (toy_github ''p1'' None) () =
    Some ((), Ret (Inr [release_at 50, release_at 20, release_at 10]))"
proof -
  have e: "endpoint toy_web (toy_github ''p1'' None) = ''p1''"
    by (simp add: endpoint_def toy_github_def toy_web_def path_url_def)
  have n: "ghNotOlderThan (toy_github ''p1'' None) = None" by (simp add: toy_github_def)
  show ?thesis unfolding getReleases_def endpoint_def[symmetric] e
    by (simp add: getReleasesFrom.simps toy_pages n)
qed

theorem Github_early_stop_witness:
  "\<exists>w' seen rest. [release_at 50, release_at 20, release_at 10] = seen @ rest \<and> (\<forall>r\<in>set rest. grPublishedAt r < 30) \<and>
    GithubReleaseSource_ListAllFiles toy_web Inr (toy_github ''p1'' (Some 30)) () =
      Some (w', Ret (assetsOf (toy_github ''p1'' (Some 30)) seen, None))"
proof -
  have "(toy_github ''p1'' (Some 30))\<lparr>ghNotOlderThan := None\<rparr> = toy_github ''p1'' None" by (simp add: toy_github_def)
  then have "getReleases toy_web Inr ((toy_github ''p1'' (Some 30))\<lparr>ghNotOlderThan := None\<rparr>) () =
    Some ((), Ret (Inr [release_at 50, release_at 20, release_at 10]))" using toy_all by simp
  moreover have "newest_first [release_at 50, release_at 20, release_at 10]" by (simp add: newest_first_def release_at_def)
  moreover have "ghNotOlderThan (toy_github ''p1'' (Some 30)) = Some 30" by (simp add: toy_github_def)
  moreover have "endpoint toy_web (toy_github ''p1'' (Some 30)) = ''p1''"
    by (simp add: endpoint_def toy_github_def toy_web_def path_url_def)
  then have "page_with_releases toy_web Inr (toy_github ''p1'' (Some 30)) (endpoint toy_web (toy_github ''p1'' (Some 30))) ()"
    by (simp add: page_with_releases_def toy_pages)
  ultimately show ?thesis using Github_early_stop[of toy_web Inr "toy_github ''p1'' (Some 30)" "()"] by simp
qed

text \<open>When listing releases panics: exactly if there is a limit on their age and the first page has no
  release, for example for a repository without releases.\<close>

theorem Github_panics_iff:
  "GithubReleaseSource_ListAllFiles web dec s w = Some (w', Panic m) \<longleftrightarrow>
     m = ''index out of range'' \<and> endpoint web s \<noteq> [] \<and> ghNotOlderThan s \<noteq> None \<and>
     (\<exists>next. getPage web dec s (endpoint web s) w = (w', Inr ([], next)))"
  by (rule Github_panics)

text \<open>Listing releases ends when following the links to further pages does, here stated with a rank of
  page URLs that goes down with every link.\<close>

theorem Github_terminates:
  assumes "\<forall>uri w w' page next. getPage web dec s uri w = (w', Inr (page, next)) \<longrightarrow>
    next = [] \<or> (rank next :: nat) < rank uri"
  shows "\<exists>w' r. GithubReleaseSource_ListAllFiles web dec s w = Some (w', r)"
proof -
  have "\<exists>out. getReleasesFrom web dec s uri result w = Some out" for uri result w
  proof (induction uri arbitrary: result w rule: measure_induct_rule[where f = rank])
    case (less uri)
    show ?case
    proof (cases "uri = [] \<or> (\<exists>w' err. getPage web dec s uri w = (w', Inl err))")
      case True
      then show ?thesis by (subst getReleasesFrom.simps) auto
    next
      case False
      then obtain w' page nxt where p: "getPage web dec s uri w = (w', Inr (page, nxt))"
        by (metis prod.exhaust sum.exhaust)
      have "\<exists>out. getReleasesFrom web dec s nxt (result @ page) w' = Some out"
      proof (cases "nxt = []")
        case True
        then show ?thesis by (subst getReleasesFrom.simps) simp
      next
        case False
        with assms p have "rank nxt < rank uri" by blast
        then show ?thesis by (rule less.IH)
      qed
      with p False show ?thesis by (subst getReleasesFrom.simps) (auto split: option.split)
    qed
  qed
  then show ?thesis unfolding GithubReleaseSource_ListAllFiles_def getReleases_def by fastforce
qed

theorem Github_terminates_witness:
  "\<exists>w' r. GithubReleaseSource_ListAllFiles toy_web Inr (toy_github ''p1'' (Some 5)) () = Some (w', r)"
proof (rule Github_terminates[where rank = "\<lambda>uri. if uri = ''p1'' then 2 else if uri = ''p2'' then 1 else 0"])
  show "\<forall>uri w w' page next. getPage toy_web Inr (toy_github ''p1'' (Some 5)) uri w = (w', Inr (page, next)) \<longrightarrow>
    next = [] \<or> (if next = ''p1'' then 2 else if next = ''p2'' then 1 else 0)
      < (if uri = ''p1'' then 2 else if uri = ''p2'' then 1 else (0 :: nat))"
  proof (intro allI impI)
    fix uri w w' page nxt
    assume g: "getPage toy_web Inr (toy_github ''p1'' (Some 5)) uri w = (w', Inr (page, nxt))"
    have "uri = ''p1'' \<or> uri = ''p2'' \<or> uri = ''p3''"
    proof (rule ccontr)
      assume "\<not> (uri = ''p1'' \<or> uri = ''p2'' \<or> uri = ''p3'')"
      then have "\<exists>e. getPage toy_web Inr (toy_github ''p1'' (Some 5)) uri w = (w, Inl e)"
        by (simp add: getPage_def toy_web_def toy_client_def Let_def)
      with g show False by auto
    qed
    with g show "nxt = [] \<or> (if nxt = ''p1'' then 2 else if nxt = ''p2'' then 1 else 0)
      < (if uri = ''p1'' then 2 else if uri = ''p2'' then 1 else (0 :: nat))"
      by (elim disjE) (auto simp: toy_pages)
  qed
qed

end
