(* ===== verification/ConfigClaims.thy ===== *)
theory ConfigClaims
  imports Config SwiftClaims GpgClaims
begin

text \<open>
  The properties of the configuration: a job that compiles without errors is ready to run, nothing is
  contacted for a job with errors, and when compiling panics.
\<close>

section \<open>Validating and connecting keep the type of a source\<close>

lemma Source_Validate_type:
  assumes "Source_Validate web src name = Ret (src', errs)"
  shows "isSwiftSource (Some src') = isSwiftSource (Some src)" "isURLSource (Some src') = isURLSource (Some src)"
    "isGithubReleaseSource (Some src') = isGithubReleaseSource (Some src)"
  using assms by (cases src; auto split: prod.splits outcome.splits)+

lemma Source_Connect_type:
  assumes "Source_Connect sv src name st = (st', src', err)"
  shows "isSwiftSource (Some src') = isSwiftSource (Some src)" "isURLSource (Some src') = isURLSource (Some src)"
    "isGithubReleaseSource (Some src') = isGithubReleaseSource (Some src)"
  using assms by (cases src; auto split: prod.splits)+

lemma limitReleases_type [simp]:
  "isSwiftSource (limitReleases cutoff src) = isSwiftSource src" "isURLSource (limitReleases cutoff src) = isURLSource src"
  "isGithubReleaseSource (limitReleases cutoff src) = isGithubReleaseSource src" "limitReleases cutoff src = None \<longleftrightarrow> src = None"
  by (cases "(cutoff, src)" rule: limitReleases.cases; simp)+

lemma errorList_Nil [simp]: "errorList err = [] \<longleftrightarrow> err = None"
  by (simp add: errorList_def split: option.split)

section \<open>The checks of a job\<close>

text \<open>What can be checked without a connection.\<close>

definition valid_job ::
  "('w, 'b) web \<Rightarrow> JobConfiguration \<Rightarrow> string \<Rightarrow> SwiftLocation \<Rightarrow> bool" where
  "valid_job web cfg name swift \<longleftrightarrow>
     (\<exists>src src' t. jcSource cfg = Some src \<and> Source_Validate web src (name @ ''.from'') = Ret (src', []) \<and>
        jcTarget cfg = Some t \<and> valid_location (inheritCredentials swift t) \<and>
        (jcNotOlderThan cfg \<noteq> None \<longrightarrow> isSwiftSource (Some src) \<or> isGithubReleaseSource (Some src)) \<and>
        (jcSimplisticComparison cfg \<noteq> None \<longrightarrow> isURLSource (Some src) \<or> isSwiftSource (Some src)) \<and>
        (\<forall>sg. jcSegmenting cfg = Some sg \<longrightarrow> MinObjectSize sg \<noteq> 0 \<and> SegmentSize sg \<noteq> 0) \<and>
        jcCleanup cfg \<in> {KeepUnknownFiles, DeleteUnknownFiles, ReportUnknownFiles})"

lemma compileSegmenting_ok:
  assumes "compileSegmenting segmenting target name = Ret (segmenting', [])"
  shows "(\<forall>sg. segmenting = Some sg \<longrightarrow> MinObjectSize sg \<noteq> 0 \<and> SegmentSize sg \<noteq> 0) \<and>
    (\<forall>sg. segmenting' = Some sg \<longrightarrow> MinObjectSize sg \<noteq> 0 \<and> SegmentSize sg \<noteq> 0 \<and> sgContainerName sg \<noteq> [])"
  using assms by (auto simp: compileSegmenting_def Let_def split: option.splits if_splits)

lemma validateSource_ok:
  "validateSource web jobSrc name = Ret (s, []) \<longleftrightarrow>
     (\<exists>src src'. jobSrc = Some src \<and> s = Some src' \<and> Source_Validate web src (name @ ''.from'') = Ret (src', []))"
  by (auto simp: validateSource_def split: option.splits outcome.splits)

lemma validateTarget_ok:
  assumes "validateTarget target name swift = (t', [])"
  shows "\<exists>t prefix. target = Some t \<and> valid_location (inheritCredentials swift t) \<and>
    t' = Some ((inheritCredentials swift t)\<lparr>ObjectNamePrefix := prefix\<rparr>) \<and> (prefix = [] \<or> hasSuffix prefix ''/'')"
proof -
  from assms obtain t t1 where t: "target = Some t" "t' = Some t1"
    "SwiftLocation_Validate (inheritCredentials swift t) (name @ ''.to'') = (t1, [])"
    by (auto simp: validateTarget_def split: option.splits prod.splits)
  note v = Validate_accepts[of "inheritCredentials swift t" "name @ ''.to''", unfolded t(3) snd_conv]
  from Validate_normalizes[of "inheritCredentials swift t" "name @ ''.to''", unfolded t(3) fst_conv] obtain prefix where "t1 = (inheritCredentials swift t)\<lparr>ObjectNamePrefix := prefix\<rparr>"
    "prefix = [] \<or> hasSuffix prefix ''/''" by (elim conjE exE) (rule that)
  with v t(1,2) show ?thesis by (intro exI conjI) simp_all
qed

lemma matchErrors_Nil_iff:
  "matchErrors cfg src name = [] \<longleftrightarrow>
     (jcNotOlderThan cfg \<noteq> None \<longrightarrow> isSwiftSource src \<or> isGithubReleaseSource src) \<and>
     (jcSimplisticComparison cfg \<noteq> None \<longrightarrow> isURLSource src \<or> isSwiftSource src)"
  by (auto simp: matchErrors_def)

lemma cleanupErrors_Nil_iff:
  "cleanupErrors ufs name = [] \<longleftrightarrow> ufs \<in> {KeepUnknownFiles, DeleteUnknownFiles, ReportUnknownFiles}"
  by (simp add: cleanupErrors_def)

text \<open>A compilation without errors so far: all checks, and the job that was made.\<close>

lemma compileOffline_ok:
  assumes "compileOffline web now cfg name swift = Ret (job, [])"
  obtains src src' t prefix segmenting where
    "jcSource cfg = Some src" "Source_Validate web src (name @ ''.from'') = Ret (src', [])"
    "jcTarget cfg = Some t" "valid_location (inheritCredentials swift t)" "prefix = [] \<or> hasSuffix prefix ''/''"
    "compileSegmenting (jcSegmenting cfg) (Some ((inheritCredentials swift t)\<lparr>ObjectNamePrefix := prefix\<rparr>)) name =
       Ret (segmenting, [])"
    "matchErrors cfg (Some src') name = []" "cleanupErrors (jcCleanup cfg) name = []"
    "job = \<lparr>cjSource = limitReleases (NotOlderThan (compileMatcher cfg now)) (Some src'),
            cjTarget = Some ((inheritCredentials swift t)\<lparr>ObjectNamePrefix := prefix\<rparr>),
            cjMatcher = compileMatcher cfg now, cjSegmenting = segmenting,
            cjExpiration = compileExpiration (jcExpiration cfg), cjCleanup = jcCleanup cfg\<rparr>"
proof -
  obtain jobSrc srcErrs where s: "validateSource web (jcSource cfg) name = Ret (jobSrc, srcErrs)"
    using assms by (auto simp: compileOffline_def split: outcome.splits)
  obtain target targetErrs where t: "validateTarget (jcTarget cfg) name swift = (target, targetErrs)" by fastforce
  obtain segmenting segErrs where g: "compileSegmenting (jcSegmenting cfg) target name = Ret (segmenting, segErrs)"
    using assms s t by (auto simp: compileOffline_def split: outcome.splits)
  from assms s t g have nil: "srcErrs = []" "targetErrs = []" "matchErrors cfg jobSrc name = []" "segErrs = []"
    "cleanupErrors (jcCleanup cfg) name = []"
    and job: "job = \<lparr>cjSource = limitReleases (NotOlderThan (compileMatcher cfg now)) jobSrc, cjTarget = target,
            cjMatcher = compileMatcher cfg now, cjSegmenting = segmenting,
            cjExpiration = compileExpiration (jcExpiration cfg), cjCleanup = jcCleanup cfg\<rparr>"
    by (auto simp: compileOffline_def Let_def)
  from s[unfolded nil validateSource_ok] obtain src src' where src: "jcSource cfg = Some src" "jobSrc = Some src'"
    "Source_Validate web src (name @ ''.from'') = Ret (src', [])" by blast
  from validateTarget_ok[OF t[unfolded nil]] obtain t0 prefix where t0: "jcTarget cfg = Some t0"
    "valid_location (inheritCredentials swift t0)" "target = Some ((inheritCredentials swift t0)\<lparr>ObjectNamePrefix := prefix\<rparr>)"
    "prefix = [] \<or> hasSuffix prefix ''/''" by blast
  from that[OF src(1,3) t0(1,2,4)] g nil job src(2) t0(3) show ?thesis by simp
qed

lemma Compile_cases:
  assumes "Compile sv cfg name swift st = (st', r)"
  obtains (panic) m where "compileOffline (svWeb sv) (svNow sv (fst st)) cfg name swift = Panic m" "st' = st" "r = Panic m"
  | (errors) job errs where "compileOffline (svWeb sv) (svNow sv (fst st)) cfg name swift = Ret (job, errs)" "errs \<noteq> []"
      "st' = st" "r = Ret (job, errs)"
  | (connect) job job' errs where "compileOffline (svWeb sv) (svNow sv (fst st)) cfg name swift = Ret (job, [])"
      "connectJob sv job name st = (st', job', errs)" "r = Ret (job', errs)"
  using assms by (auto simp: Compile_def split: outcome.splits if_splits prod.splits)

text \<open>C28: nothing is contacted for a job that is not valid. If compiling a job changes anything outside, or
  if it reports no error, then source and target are given, the source is valid and the target has a
  complete set of inherited credentials, the options of the job are supported by its type of source,
  the segment sizes are positive and the cleanup strategy is one of the three.\<close>

theorem Compile_checks_first:
  assumes "Compile sv cfg name swift st = (st', r)"
    and "st' \<noteq> st \<or> (\<exists>job. r = Ret (job, []))"
  shows "valid_job (svWeb sv) cfg name swift"
  using assms(1)
proof (cases rule: Compile_cases)
  case (connect job job' errs)
  from compileOffline_ok[OF connect(1)] obtain src src' t prefix segmenting where
    c: "jcSource cfg = Some src" "Source_Validate (svWeb sv) src (name @ ''.from'') = Ret (src', [])"
    "jcTarget cfg = Some t" "valid_location (inheritCredentials swift t)"
    "compileSegmenting (jcSegmenting cfg) (Some ((inheritCredentials swift t)\<lparr>ObjectNamePrefix := prefix\<rparr>)) name =
       Ret (segmenting, [])"
    "matchErrors cfg (Some src') name = []" "cleanupErrors (jcCleanup cfg) name = []" by metis
  with compileSegmenting_ok[OF c(5)] show ?thesis
    unfolding valid_job_def matchErrors_Nil_iff cleanupErrors_Nil_iff Source_Validate_type[OF c(2)] by blast
qed (use assms(2) in auto)

section \<open>Jobs that are ready\<close>

text \<open>A target that is connected: with the account of its credentials, its container and its listing.\<close>

definition connected :: "('w, 'r, 'lo) swift \<Rightarrow> SwiftLocation \<Rightarrow> bool" where
  "connected sw t \<longleftrightarrow>
     (\<exists>c. Container t = Some c \<and> Account t = Some (cnAccount c) \<and> cnName c = ContainerName t \<and> ContainerName t \<noteq> [] \<and>
        (\<exists>w w' infos. swObjects sw c (listPrefix t) w = (w', infos, None) \<and>
           FileExists t = set (map (obName \<circ> oiObject) infos)))"

definition ready :: "('w, 'r, 'lo) swift \<Rightarrow> SwiftLocation \<Rightarrow> CompiledJob \<Rightarrow> bool" where
  "ready sw swift job \<longleftrightarrow>
     (\<exists>src t. cjSource job = Some src \<and> cjTarget job = Some t \<and> connected sw t \<and>
        key_fields t = key_fields swift \<and> (ObjectNamePrefix t = [] \<or> hasSuffix (ObjectNamePrefix t) ''/'') \<and>
        (\<forall>sg. cjSegmenting job = Some sg \<longrightarrow> MinObjectSize sg \<noteq> 0 \<and> SegmentSize sg \<noteq> 0 \<and>
           (\<exists>sc. sgContainer sg = Some sc \<and> Some (cnAccount sc) = Account t \<and> cnName sc = sgContainerName sg \<and>
              sgContainerName sg \<noteq> [])) \<and>
        (NotOlderThan (cjMatcher job) \<noteq> None \<longrightarrow> isSwiftSource (Some src) \<or> isGithubReleaseSource (Some src)) \<and>
        (SimplisticComparison (cjMatcher job) \<noteq> None \<longrightarrow> isURLSource (Some src) \<or> isSwiftSource (Some src)) \<and>
        (Enabled (cjExpiration job) = (EnabledIn (cjExpiration job) \<noteq> Some False)) \<and>
        cjCleanup job \<in> {KeepUnknownFiles, DeleteUnknownFiles, ReportUnknownFiles})"

lemma connectLocation_ok:
  assumes "connectLocation sv s name st = (st', s', None)" "Account s = None" "ContainerName s \<noteq> []"
  shows "\<exists>a. s' = s\<lparr>Account := Some a, Container := Some \<lparr>cnAccount = a, cnName = ContainerName s\<rparr>\<rparr>"
  using assms
  by (auto simp: connectLocation_def SwiftLocation_Connect_def ensureContainer_def Let_def
      split: prod.splits option.splits sum.splits if_splits)

lemma DiscoverExistingFiles_ok:
  assumes "DiscoverExistingFiles sw s w = (w', s', None)"
  shows "\<exists>c infos. Container s = Some c \<and> swObjects sw c (listPrefix s) w = (w', infos, None) \<and>
    s' = s\<lparr>FileExists := set (map (obName \<circ> oiObject) infos)\<rparr>"
  using assms by (auto simp: DiscoverExistingFiles_def Let_def split: option.splits prod.splits)

lemma connectJob_ok:
  assumes "connectJob sv job name st = (st', job', [])" "cjSource job = Some src" "cjTarget job = Some t"
    and "Account t = None" "ContainerName t \<noteq> []"
    and "\<forall>sg. cjSegmenting job = Some sg \<longrightarrow> MinObjectSize sg \<noteq> 0 \<and> SegmentSize sg \<noteq> 0 \<and> sgContainerName sg \<noteq> []"
  shows "\<exists>src' a w w' infos segmenting. job' = job\<lparr>cjSource := Some src',
      cjTarget := Some (t\<lparr>Account := Some a, Container := Some \<lparr>cnAccount = a, cnName = ContainerName t\<rparr>,
        FileExists := set (map (obName \<circ> oiObject) infos)\<rparr>), cjSegmenting := segmenting\<rparr> \<and>
    swObjects (svSwift sv) \<lparr>cnAccount = a, cnName = ContainerName t\<rparr> (listPrefix t) w = (w', infos, None) \<and>
    isSwiftSource (Some src') = isSwiftSource (Some src) \<and> isURLSource (Some src') = isURLSource (Some src) \<and>
    isGithubReleaseSource (Some src') = isGithubReleaseSource (Some src) \<and>
    (\<forall>sg. segmenting = Some sg \<longrightarrow> MinObjectSize sg \<noteq> 0 \<and> SegmentSize sg \<noteq> 0 \<and> sgContainerName sg \<noteq> [] \<and>
       sgContainer sg = Some \<lparr>cnAccount = a, cnName = sgContainerName sg\<rparr>)"
proof -
  obtain st1 src' err1 where s: "Source_Connect sv src (name @ ''.from'') st = (st1, src', err1)"
    by (metis prod_cases3)
  obtain st2 target err2 where t: "connectLocation sv t (name @ ''.to'') st1 = (st2, target, err2)"
    by (metis prod_cases3)
  obtain st3 segmenting errs3 where g: "ensureSegments (svSwift sv) target (cjSegmenting job) st2 = (st3, segmenting, errs3)"
    by (metis prod_cases3)
  obtain w4 target' err4 where d: "DiscoverExistingFiles (svSwift sv) target (fst st3) = (w4, target', err4)"
    by (metis prod_cases3)
  from assms(1-3) s t g d have nil: "err1 = None" "err2 = None" "errs3 = []" "err4 = None"
    and job': "job' = job\<lparr>cjSource := Some src', cjTarget := Some target', cjSegmenting := segmenting\<rparr>"
    by (auto simp: connectJob_def)
  from connectLocation_ok[OF t[unfolded nil] assms(4,5)] obtain a where
    a: "target = t\<lparr>Account := Some a, Container := Some \<lparr>cnAccount = a, cnName = ContainerName t\<rparr>\<rparr>" by blast
  from DiscoverExistingFiles_ok[OF d[unfolded nil]] a obtain infos where
    infos: "swObjects (svSwift sv) \<lparr>cnAccount = a, cnName = ContainerName t\<rparr> (listPrefix target) (fst st3) = (w4, infos, None)"
    "target' = target\<lparr>FileExists := set (map (obName \<circ> oiObject) infos)\<rparr>" by auto
  have p: "listPrefix target = listPrefix t" by (simp add: a listPrefix_def)
  from g assms(6) a have "\<forall>sg. segmenting = Some sg \<longrightarrow> MinObjectSize sg \<noteq> 0 \<and> SegmentSize sg \<noteq> 0 \<and>
      sgContainerName sg \<noteq> [] \<and> sgContainer sg = Some \<lparr>cnAccount = a, cnName = sgContainerName sg\<rparr>"
    by (auto simp: ensureSegments_def Let_def split: option.splits prod.splits)
  note sg = this
  have "job' = job\<lparr>cjSource := Some src', cjTarget := Some (t\<lparr>Account := Some a,
      Container := Some \<lparr>cnAccount = a, cnName = ContainerName t\<rparr>, FileExists := set (map (obName \<circ> oiObject) infos)\<rparr>),
      cjSegmenting := segmenting\<rparr>"
    unfolding job' infos(2) a ..
  note facts = this infos(1)[unfolded p] Source_Connect_type[OF s] sg
  show ?thesis
    by (rule exI[of _ src'], rule exI[of _ a], rule exI[of _ "fst st3"], rule exI[of _ w4], rule exI[of _ infos],
        rule exI[of _ segmenting], intro conjI; fact facts)
qed

text \<open>A job that compiles without errors is ready. Its target has the connection parameters of the global
  credentials, their account, a container of the configured name and the names of the objects that are
  in it; its prefix ends in a slash. Segments have positive sizes and a container in the same
  account. Options that need a certain type of source have one, and the cleanup strategy is legal.\<close>

lemma Compile_ready:
  assumes "Compile sv cfg name swift st = (st', Ret (job, []))"
    and "\<forall>t. jcTarget cfg = Some t \<longrightarrow> Account t = None \<and> \<not> ValidateIgnoreEmptyContainer t"
  shows "ready (svSwift sv) swift job"
  using assms(1)
proof (cases rule: Compile_cases)
  case (connect job0 job' errs)
  then have run: "connectJob sv job0 name st = (st', job, [])" by simp
  from compileOffline_ok[OF connect(1)] obtain src src' t prefix segmenting where
    c: "jcSource cfg = Some src" "Source_Validate (svWeb sv) src (name @ ''.from'') = Ret (src', [])"
    "jcTarget cfg = Some t" "valid_location (inheritCredentials swift t)" "prefix = [] \<or> hasSuffix prefix ''/''"
    "compileSegmenting (jcSegmenting cfg) (Some ((inheritCredentials swift t)\<lparr>ObjectNamePrefix := prefix\<rparr>)) name =
       Ret (segmenting, [])"
    "matchErrors cfg (Some src') name = []" "cleanupErrors (jcCleanup cfg) name = []"
    and job0: "job0 = \<lparr>cjSource = limitReleases (NotOlderThan (compileMatcher cfg (svNow sv (fst st)))) (Some src'),
            cjTarget = Some ((inheritCredentials swift t)\<lparr>ObjectNamePrefix := prefix\<rparr>),
            cjMatcher = compileMatcher cfg (svNow sv (fst st)), cjSegmenting = segmenting,
            cjExpiration = compileExpiration (jcExpiration cfg), cjCleanup = jcCleanup cfg\<rparr>" .
  let ?t = "(inheritCredentials swift t)\<lparr>ObjectNamePrefix := prefix\<rparr>"
  from assms(2) c(3,4) have t: "Account ?t = None" "ContainerName ?t \<noteq> []"
    by (auto simp: inheritCredentials_def valid_location_def)
  obtain src1 where src1: "cjSource job0 = Some src1" "isSwiftSource (Some src1) = isSwiftSource (Some src')"
    "isURLSource (Some src1) = isURLSource (Some src')" "isGithubReleaseSource (Some src1) = isGithubReleaseSource (Some src')"
    by (cases "limitReleases (NotOlderThan (compileMatcher cfg (svNow sv (fst st)))) (Some src')")
      (auto simp: job0, (metis limitReleases_type(1-3))+)
  have tgt: "cjTarget job0 = Some ?t" by (simp add: job0)
  have seg: "\<forall>sg. cjSegmenting job0 = Some sg \<longrightarrow> MinObjectSize sg \<noteq> 0 \<and> SegmentSize sg \<noteq> 0 \<and> sgContainerName sg \<noteq> []"
    using compileSegmenting_ok[OF c(6)] by (simp add: job0)
  from connectJob_ok[OF run src1(1) tgt t seg] obtain src2 a w w' infos sg where r:
    "job = job0\<lparr>cjSource := Some src2, cjTarget := Some (?t\<lparr>Account := Some a,
        Container := Some \<lparr>cnAccount = a, cnName = ContainerName ?t\<rparr>, FileExists := set (map (obName \<circ> oiObject) infos)\<rparr>),
        cjSegmenting := sg\<rparr>"
    "swObjects (svSwift sv) \<lparr>cnAccount = a, cnName = ContainerName ?t\<rparr> (listPrefix ?t) w = (w', infos, None)"
    "isSwiftSource (Some src2) = isSwiftSource (Some src1)" "isURLSource (Some src2) = isURLSource (Some src1)"
    "isGithubReleaseSource (Some src2) = isGithubReleaseSource (Some src1)"
    "\<forall>s. sg = Some s \<longrightarrow> MinObjectSize s \<noteq> 0 \<and> SegmentSize s \<noteq> 0 \<and> sgContainerName s \<noteq> [] \<and>
       sgContainer s = Some \<lparr>cnAccount = a, cnName = sgContainerName s\<rparr>"
    by (elim exE conjE) (rule that)
  let ?t' = "?t\<lparr>Account := Some a, Container := Some \<lparr>cnAccount = a, cnName = ContainerName ?t\<rparr>,
    FileExists := set (map (obName \<circ> oiObject) infos)\<rparr>"
  have lp: "listPrefix ?t' = listPrefix ?t" by (simp add: listPrefix_def)
  have "\<exists>w w' infos'. swObjects (svSwift sv) \<lparr>cnAccount = a, cnName = ContainerName ?t\<rparr> (listPrefix ?t') w = (w', infos', None) \<and>
      FileExists ?t' = set (map (obName \<circ> oiObject) infos')"
    unfolding lp by (rule exI[of _ w], rule exI[of _ w'], rule exI[of _ infos]) (use r(2) in simp)
  with t(2) have "connected (svSwift sv) ?t'"
    unfolding connected_def by (intro exI[of _ "\<lparr>cnAccount = a, cnName = ContainerName ?t\<rparr>"] conjI) simp_all
  moreover have "key_fields ?t' = key_fields swift" by (simp add: key_fields_def inheritCredentials_def)
  ultimately show ?thesis
    using r(3-6) src1 c(5,7,8) unfolding matchErrors_Nil_iff cleanupErrors_Nil_iff ready_def
    by (intro exI[of _ src2] exI[of _ ?t'])
      (auto simp: r(1) job0 compileMatcher_def compileExpiration_def split: option.split)
qed auto

section \<open>A toy configuration\<close>

definition toy_services :: "(store, bytes, object, unit, unit, document) services" where
  "toy_services =
     \<lparr>svWeb = site_web demo_site, svSwift = mem_swift, svOpenstack = demo_openstack, svLoadKeyPair = (\<lambda>c k. None),
      svReadFile = (\<lambda>p. Inr []), svShowDebug = False, svNow = (\<lambda>w. 0)\<rparr>"

definition toy_job :: JobConfiguration where
  "toy_job =
     \<lparr>jcSource = Some (PlainSource site_source), jcTarget = Some demo_location, jcExcludePattern = None,
      jcIncludePattern = None, jcImmutableFilePattern = None, jcNotOlderThan = None, jcSimplisticComparison = None,
      jcSegmenting = Some \<lparr>MinObjectSize = 1, SegmentSize = 1, sgContainerName = [], sgContainer = None\<rparr>,
      jcExpiration = \<lparr>EnabledIn = None, Enabled = False, DelaySeconds = 0\<rparr>, jcCleanup = DeleteUnknownFiles\<rparr>"

definition toy_config :: Configuration where
  "toy_config =
     \<lparr>cfSwift = demo_location, cfTransferWorkers = 0, cfStatsdHostName = [], cfStatsdPort = 0, cfStatsdPrefix = [],
      cfCacheContainerName = None, cfKeyserverURLPatterns = [], cfJobConfigs = [toy_job], cfJobs = []\<rparr>"

lemma toy_valid:
  "SwiftLocation_Validate demo_location name = (demo_location, [])"
  "SwiftLocation_Validate (demo_location\<lparr>ValidateIgnoreEmptyContainer := b\<rparr>) name =
     (demo_location\<lparr>ValidateIgnoreEmptyContainer := b\<rparr>, [])"
  "inheritCredentials demo_location demo_location = demo_location"
  "inheritCredentials (demo_location\<lparr>ValidateIgnoreEmptyContainer := b\<rparr>) demo_location = demo_location"
  by (simp_all add: SwiftLocation_Validate_def demo_location_def inheritCredentials_def missing_def hasSuffix_def hasPrefix_def)

lemma toy_connect:
  "connectLocation toy_services demo_location name (empty_store, Map.empty) =
     ((empty_store, [cacheKey False demo_location name \<mapsto> demo_account]),
      demo_location\<lparr>Account := Some demo_account, Container := Some demo_container\<rparr>, None)"
  by (simp add: connectLocation_def toy_services_def SwiftLocation_Connect_def newAccount_def demo_openstack_def
      ensureContainer_def Let_def demo_location_def demo_container_def)

lemma toy_offline:
  assumes "inheritCredentials swift demo_location = demo_location"
  shows "\<exists>src. compileOffline (site_web demo_site :: (store, document) web) 0 toy_job name swift =
     Ret (\<lparr>cjSource = Some (PlainSource src), cjTarget = Some demo_location, cjMatcher = compileMatcher toy_job 0,
        cjSegmenting = Some \<lparr>MinObjectSize = 1, SegmentSize = 1, sgContainerName = ''c_segments'', sgContainer = None\<rparr>,
        cjExpiration = compileExpiration (jcExpiration toy_job), cjCleanup = DeleteUnknownFiles\<rparr>, []) \<and>
     usClientCertificatePath src = [] \<and> usClientCertificateKeyPath src = [] \<and> usServerCAPath src = []"
proof -
  have u: "\<exists>src. URLSource_Validate (site_web demo_site :: (store, document) web) site_source (name @ ''.from'') = Ret (src, []) \<and>
      usClientCertificatePath src = [] \<and> usClientCertificateKeyPath src = [] \<and> usServerCAPath src = []"
    by (simp add: URLSource_Validate_def validateURL_def validateCertificate_def site_source_def)
  then obtain src where src: "URLSource_Validate (site_web demo_site :: (store, document) web) site_source (name @ ''.from'') = Ret (src, [])"
    "usClientCertificatePath src = []" "usClientCertificateKeyPath src = []" "usServerCAPath src = []" by blast
  have c: "ContainerName demo_location = ''c''" by (simp add: demo_location_def)
  show ?thesis
    by (rule exI[of _ src])
      (simp add: compileOffline_def validateSource_def toy_job_def src validateTarget_def assms toy_valid matchErrors_def
        compileSegmenting_def c cleanupErrors_def)
qed

lemma toy_compile:
  assumes "inheritCredentials swift demo_location = demo_location"
  shows "\<exists>st' job. Compile toy_services toy_job name swift (empty_store, Map.empty) = (st', Ret (job, []))"
proof -
  have sv: "svWeb toy_services = site_web demo_site" "svNow toy_services w = 0" "svSwift toy_services = mem_swift" for w
    by (simp_all add: toy_services_def)
  obtain src where "compileOffline (site_web demo_site :: (store, document) web) 0 toy_job name swift =
     Ret (\<lparr>cjSource = Some (PlainSource src), cjTarget = Some demo_location, cjMatcher = compileMatcher toy_job 0,
        cjSegmenting = Some \<lparr>MinObjectSize = 1, SegmentSize = 1, sgContainerName = ''c_segments'', sgContainer = None\<rparr>,
        cjExpiration = compileExpiration (jcExpiration toy_job), cjCleanup = DeleteUnknownFiles\<rparr>, [])"
     "usClientCertificatePath src = []" "usClientCertificateKeyPath src = []" "usServerCAPath src = []"
    using toy_offline[OF assms, of name] by (elim exE conjE) (rule that)
  moreover from this(2-4) have "\<exists>src'. URLSource_Connect (svLoadKeyPair toy_services) (svReadFile toy_services) src = (src', None)"
    by (simp add: URLSource_Connect_def)
  ultimately show ?thesis
    by (auto simp: Compile_def sv connectJob_def toy_connect ensureSegments_def DiscoverExistingFiles_def Let_def errorList_def)
qed

theorem Compile_checks_first_witness:
  "valid_job (svWeb toy_services) toy_job ''j'' demo_location"
proof -
  obtain st' job where c: "Compile toy_services toy_job ''j'' demo_location (empty_store, Map.empty) = (st', Ret (job, []))"
    using toy_compile[OF toy_valid(3)] by blast
  show ?thesis by (rule Compile_checks_first[OF c]) simp
qed

section \<open>Panics\<close>

fun urlOf :: "ConfiguredSource \<Rightarrow> string option" where
  "urlOf (PlainSource s) = Some (usURLString s)"
| "urlOf (YumRepository s) = Some (ysURLString s)"
| "urlOf (DebianRepository s) = Some (dsURLString s)"
| "urlOf _ = None"

lemma Source_Validate_panics:
  "panics (Source_Validate web src name) \<longleftrightarrow> (\<exists>u err. urlOf src = Some u \<and> u \<noteq> [] \<and> wbParse web u = Inl err)"
proof -
  have p: "panics (URLSource_Validate web s name) \<longleftrightarrow> usURLString s \<noteq> [] \<and> (\<exists>err. wbParse web (usURLString s) = Inl err)"
    for s by (auto simp: URLSource_Validate_def validateURL_def split: outcome.splits sum.splits if_splits)
  have l: "panics (case x of Panic m \<Rightarrow> Panic m | Ret y \<Rightarrow> Ret (f y)) = panics x" for x :: "'x outcome" and f :: "'x \<Rightarrow> 'y"
    by (cases x) simp_all
  have l2: "(case x of Panic m \<Rightarrow> Panic m | Ret (a, b) \<Rightarrow> Ret (f a b)) = (case x of Panic m \<Rightarrow> Panic m | Ret y \<Rightarrow> Ret (f (fst y) (snd y)))"
    for x :: "('x \<times> 'y) outcome" and f :: "'x \<Rightarrow> 'y \<Rightarrow> 'z"
    by (cases x) (auto split: prod.splits)
  show ?thesis
  proof (cases src)
    case (SwiftSource s)
    then show ?thesis by (simp split: prod.split)
  next
    case (PlainSource s)
    then show ?thesis by (simp add: l2 l p)
  next
    case (YumRepository s)
    then show ?thesis by (simp add: YumSource_Validate_def l2 l p repoURLSource_def)
  next
    case (DebianRepository s)
    then show ?thesis by (simp add: DebianSource_Validate_def l2 l p repoURLSource_def)
  next
    case (GithubReleases s)
    then show ?thesis by (simp split: prod.split)
  qed
qed

text \<open>Compiling a job panics exactly if the URL of its source cannot be parsed, or if there is no target
  although segmenting without a container name asks for the name of the target's container.\<close>

theorem Compile_panics_iff:
  "panics (snd (Compile sv cfg name swift st)) \<longleftrightarrow>
     (\<exists>src u err. jcSource cfg = Some src \<and> urlOf src = Some u \<and> u \<noteq> [] \<and> wbParse (svWeb sv) u = Inl err) \<or>
     (\<exists>sg. jcTarget cfg = None \<and> jcSegmenting cfg = Some sg \<and> sgContainerName sg = [])"
proof -
  have s: "panics (validateSource web jobSrc n) \<longleftrightarrow>
      (\<exists>src u err. jobSrc = Some src \<and> urlOf src = Some u \<and> u \<noteq> [] \<and> wbParse web u = Inl err)"
    for jobSrc n and web :: "('a, 'f) web"
    using Source_Validate_panics[of web "the jobSrc" "n @ ''.from''"]
    by (auto simp: validateSource_def split: option.split outcome.split)
  have g: "panics (compileSegmenting segmenting (fst (validateTarget target name swift)) name) \<longleftrightarrow>
      (\<exists>sg. target = None \<and> segmenting = Some sg \<and> sgContainerName sg = [])" for segmenting target
    by (auto simp: compileSegmenting_def validateTarget_def Let_def split: option.split prod.split)
  have "panics (compileOffline (svWeb sv) now cfg name swift) \<longleftrightarrow>
      panics (validateSource (svWeb sv) (jcSource cfg) name) \<or>
      panics (compileSegmenting (jcSegmenting cfg) (fst (validateTarget (jcTarget cfg) name swift)) name)" for now
    by (auto simp: compileOffline_def Let_def split: outcome.split prod.split)
  moreover have "panics (snd (Compile sv cfg name swift st)) \<longleftrightarrow>
      panics (compileOffline (svWeb sv) (svNow sv (fst st)) cfg name swift)"
    by (auto simp: Compile_def split: outcome.split prod.split)
  ultimately show ?thesis by (simp only: s g)
qed

section \<open>The whole configuration\<close>

definition decoded :: "JobConfiguration \<Rightarrow> bool" where
  "decoded cfg \<longleftrightarrow> (\<forall>t. jcTarget cfg = Some t \<longrightarrow> Account t = None \<and> \<not> ValidateIgnoreEmptyContainer t)"

lemma compileJobs_ready:
  assumes "compileJobs sv swift idx cfgs st = (st', Ret (jobs, []))" "list_all decoded cfgs"
  shows "list_all (ready (svSwift sv) swift) jobs \<and> length jobs = length cfgs"
  using assms
proof (induction cfgs arbitrary: idx st st' jobs)
  case (Cons cfg cfgs)
  obtain st1 r where r: "Compile sv cfg (jobName idx) swift st = (st1, r)" by fastforce
  from Cons.prems(1) r obtain job errs where j: "r = Ret (job, errs)" by (cases r) auto
  obtain st2 r2 where r2: "compileJobs sv swift (Suc idx) cfgs st1 = (st2, r2)" by fastforce
  from Cons.prems(1) r j r2 obtain jobs' errs' where j2: "r2 = Ret (jobs', errs')" by (cases r2) auto
  from Cons.prems(1) r j r2 j2 have nil: "errs = []" "errs' = []" "jobs = job # jobs'" by auto
  from Compile_ready[OF r[unfolded j nil(1)]] Cons.prems(2) have "ready (svSwift sv) swift job" by (auto simp: decoded_def)
  moreover from Cons.IH[OF r2[unfolded j2 nil(2)]] Cons.prems(2)
  have "list_all (ready (svSwift sv) swift) jobs' \<and> length jobs' = length cfgs" by simp
  ultimately show ?case by (simp add: nil(3))
qed simp

text \<open>C15: a configuration that is read without errors is ready to run: there is one job for each job of the
  file, every job has a connected target with the global credentials and a container of its own
  account for segments, there is at least one transfer worker, statsd has a port if it has a host
  name and always a prefix, and there are servers to ask for public keys. The file is decoded into
  targets that are not connected yet.\<close>

theorem ReadConfiguration_ready:
  assumes "ReadConfiguration sv (pg :: ('w, 'r, 'e) pgp) unmarshal path st = (st', Ret (result, []))"
    and "\<forall>buf cfg. unmarshal buf = Inr cfg \<longrightarrow> cfJobs cfg = [] \<and> list_all decoded (cfJobConfigs cfg)"
  shows "\<exists>cfg gpgKeyRing. result = Some (cfg, gpgKeyRing) \<and>
    list_all (ready (svSwift sv) (cfSwift cfg)) (cfJobs cfg) \<and> length (cfJobs cfg) = length (cfJobConfigs cfg) \<and>
    cfTransferWorkers cfg \<noteq> 0 \<and> cfStatsdPrefix cfg \<noteq> [] \<and>
    (cfStatsdHostName cfg \<noteq> [] \<longrightarrow> cfStatsdPort cfg \<noteq> 0) \<and> krKeyserverURLPatterns gpgKeyRing \<noteq> []"
proof -
  from assms(1) obtain buf where buf: "svReadFile sv path = Inr buf"
    by (cases "svReadFile sv path") (auto simp: ReadConfiguration_def)
  with assms(1) obtain cfg0 where cfg0: "unmarshal buf = Inr cfg0"
    by (cases "unmarshal buf") (auto simp: ReadConfiguration_def)
  let ?cfg = "setDefaults cfg0"
  obtain swift errors where v: "SwiftLocation_Validate ((cfSwift ?cfg)\<lparr>ValidateIgnoreEmptyContainer := True\<rparr>) ''swift'' =
      (swift, errors)" by fastforce
  obtain st1 cntr cntrErrs where g: "gpgCacheContainer sv swift (cfCacheContainerName ?cfg) st = (st1, cntr, cntrErrs)"
    by (metis prod_cases3)
  obtain w2 ring where k: "NewGPGKeyRing (svSwift sv) pg cntr (cfKeyserverURLPatterns ?cfg) (fst st1) = (w2, ring)" by fastforce
  obtain st3 r where j: "compileJobs sv swift 0 (cfJobConfigs ?cfg) (w2, snd st1) = (st3, r)" by fastforce
  from assms(1) buf cfg0 v g k j obtain jobs jobErrs where r: "r = Ret (jobs, jobErrs)"
    by (cases r) (auto simp: ReadConfiguration_def Let_def)
  from assms(1) buf cfg0 v g k j r have nil: "errors = []" "cntrErrs = []" "jobErrs = []"
    and res: "result = Some (?cfg\<lparr>cfSwift := swift, cfJobs := cfJobs ?cfg @ jobs\<rparr>, ring)"
    by (auto simp: ReadConfiguration_def Let_def)
  have d: "cfJobs ?cfg = []" "cfJobConfigs ?cfg = cfJobConfigs cfg0" "list_all decoded (cfJobConfigs cfg0)"
    "cfTransferWorkers ?cfg \<noteq> 0" "cfStatsdPrefix ?cfg \<noteq> []" "cfStatsdHostName ?cfg \<noteq> [] \<longrightarrow> cfStatsdPort ?cfg \<noteq> 0"
    using assms(2) cfg0 by (simp_all add: setDefaults_def)
  have "krKeyserverURLPatterns ring \<noteq> []"
    using k by (auto simp: NewGPGKeyRing_def Let_def defaultKeyservers_def split: option.splits prod.splits if_splits)
  with compileJobs_ready[OF j[unfolded r nil(3) d(2)] d(3)] d(1,2,4-6) show ?thesis
    by (rule_tac exI, rule_tac exI) (auto simp: res)
qed

theorem ReadConfiguration_ready_witness:
  "\<exists>st' cfg gpgKeyRing. ReadConfiguration toy_services toy_pgp (\<lambda>buf. Inr toy_config) [] (empty_store, Map.empty) =
     (st', Ret (Some (cfg, gpgKeyRing), [])) \<and> list_all (ready mem_swift (cfSwift cfg)) (cfJobs cfg) \<and> length (cfJobs cfg) = 1"
proof -
  let ?swift = "demo_location\<lparr>ValidateIgnoreEmptyContainer := True\<rparr>"
  obtain st' job where c: "Compile toy_services toy_job (jobName 0) ?swift (empty_store, Map.empty) = (st', Ret (job, []))"
    using toy_compile[OF toy_valid(4)] by blast
  have sd: "setDefaults toy_config = toy_config\<lparr>cfTransferWorkers := 1, cfStatsdPrefix := ''swift_http_import''\<rparr>"
    by (simp add: setDefaults_def toy_config_def)
  have f: "cfSwift toy_config = demo_location" "cfCacheContainerName toy_config = None"
    "cfKeyserverURLPatterns toy_config = []" "cfJobConfigs toy_config = [toy_job]" "cfJobs toy_config = []"
    by (simp_all add: toy_config_def)
  have sv: "svReadFile toy_services p = Inr []" "svSwift toy_services = mem_swift" for p by (simp_all add: toy_services_def)
  obtain cfg ring where r: "ReadConfiguration toy_services toy_pgp (\<lambda>buf. Inr toy_config) [] (empty_store, Map.empty) =
     (st', Ret (Some (cfg, ring), []))" "cfJobs cfg = [job]"
    using c by (simp add: ReadConfiguration_def sd f sv toy_valid gpgCacheContainer_def NewGPGKeyRing_def Let_def)
  have "\<forall>buf cfg. (Inr toy_config :: goerror + Configuration) = Inr cfg \<longrightarrow> cfJobs cfg = [] \<and> list_all decoded (cfJobConfigs cfg)"
    by (simp add: toy_config_def decoded_def toy_job_def demo_location_def)
  from ReadConfiguration_ready[OF r(1) this] have "list_all (ready mem_swift (cfSwift cfg)) (cfJobs cfg)"
    unfolding sv by blast
  with r show ?thesis by auto
qed

end
