(* ===== verification/Spec2Isabelle.thy ===== *)
theory Spec2Isabelle
  imports DownloadClaims DownloadRobust SwiftClaims ReportRun MainRun NetworkClaims WebMirror GpgClaims YumClaims DebianClaims
    GithubClaims ConfigClaims
begin

text \<open>
  A model of swift-http-import, the program that mirrors the files of HTTP servers, Yum, Debian and GitHub
  repositories and Swift containers into Swift containers, with the properties that make it correct.

  \<^bold>\<open>How the program works.\<close> \<^verbatim>\<open>main.go\<close> reads a configuration file (\<^verbatim>\<open>pkg/objects/config.go\<close>) with a
  list of jobs. A job has a source, a target location, a matcher that says which files it includes, and
  options for segmenting, expiration and clean-up. Then four kinds of actors (\<^verbatim>\<open>pkg/actors\<close>) run
  concurrently: the scraper lists the directories of the sources, from a stack, and sends each included
  file into a channel; the transferors receive files, transfer them, and send what became of them to the
  cleaner; the cleaner waits for all transferors and deletes the objects of the targets that are not at the
  sources any more; the report counts what the others report and decides on the exit code. A transfer
  (\<^verbatim>\<open>pkg/objects/file.go\<close>) asks the target for the headers of the object, the source for the file under
  the condition that it has changed, and uploads it; files on web servers are downloaded in segments
  (\<^verbatim>\<open>pkg/util/http.go\<close>), with retries, and the signatures of repositories are verified with keys that are
  fetched when they are needed (\<^verbatim>\<open>pkg/util/gpg.go\<close>).

  \<^bold>\<open>Conventions.\<close> Go's strings are lists of 8-bit characters, \<^verbatim>\<open>uint64\<close> and \<^verbatim>\<open>int64\<close> are words whose
  arithmetic wraps, structs are records with Go's field names (with a prefix where two structs share a
  name), a pointer or interface that can be nil is an option, an error result is a sum or an option of
  \<open>goerror\<close>, and \<open>outcome\<close> tells a return from a panic. The outside world is a state \<open>'w\<close> that each request
  threads; code that is not in the repository is a record of functions on it, so that every theorem holds
  for any behaviour of servers and libraries that its hypotheses do not exclude:
    \<^item> \<open>client\<close> (net/http), \<open>web\<close> (net/url, the HTML tokenizer, the clients with their certificates),
    \<^item> \<open>swift\<close> (schwift), \<open>openstack\<close> (gophercloud), \<open>pgp\<close> (the OpenPGP library),
    \<^item> \<open>repoLib\<close> (decompressors, XML and control file decoders), \<open>statsd\<close> (the statsd client),
    \<^item> the functions that stand for the JSON and YAML decoders, the file system and the clock.
  Loops that follow the answers of a server are \<open>partial_function (option)\<close>, without fuel, so that \<open>None\<close> is a
  loop that runs on: \<open>FullReader_loop\<close>, \<open>Scraper_loop\<close>, \<open>listFrom\<close>, \<open>getReleasesFrom\<close>. That they return
  is proved where it is true (\<open>download_complete\<close>, \<open>scraper_terminates\<close>, \<open>Github_terminates\<close>), and where
  it is not there is a theorem as well (\<open>stalled_download_diverges\<close>).

  \<^bold>\<open>The theories\<close>, in the order of their imports.
    \<^item> \<open>Prelude\<close>, \<open>GoStrings\<close>, \<open>GoPath\<close>, \<open>GoRegexp\<close>: the types, and what the program uses of Go's strings,
      strconv, path and regexp packages; the lemmas give them their usual specifications (splitting, decimal
      round trips, cleaning of paths, matching by unfolding an expression).
    \<^item> \<open>Numeric\<close> (\<^verbatim>\<open>numeric.go\<close>), \<open>Http\<close> (headers, requests, responses).
    \<^item> \<open>IoReader\<close> (\<^verbatim>\<open>io.go\<close>): readers, and the locales \<open>io_reader\<close>, \<open>content_reader\<close> and \<open>progress_reader\<close> in
      which the reading of a whole stream by \<open>FullReader_Read\<close> is proved once.
    \<^item> \<open>Downloader\<close>, \<open>DownloaderProps\<close>, \<open>DownloadClaims\<close>, \<open>DownloadRobust\<close> (\<^verbatim>\<open>http.go\<close>): \<open>EnhancedGet\<close> and the
      reader \<open>downloader\<close>, an instance of \<open>progress_reader\<close>. What is read is exactly the file; without
      failures all of it is read; with any server each chunk after the first bytes belongs to the offset reached,
      and the restarts that a \<open>session\<close> of reads sends are bounded. What the hypotheses exclude is shown by
      examples (\<open>stalled_download_diverges\<close>, \<open>error_page_delivered\<close>).
    \<^item> \<open>Datatypes\<close> (\<^verbatim>\<open>datatypes.go\<close>): ages and compressed formats. \<open>Objects\<close> (\<^verbatim>\<open>source.go\<close>): file
      specifications and listing errors. \<open>Matcher\<close> (\<^verbatim>\<open>match.go\<close>): inclusion of a file is the inclusion of
      all directories on the way to it.
    \<^item> \<open>Swift\<close>, \<open>SwiftStore\<close>, \<open>SwiftClaims\<close> (\<^verbatim>\<open>swift.go\<close>): locations, connections and the account cache, and a
      server in memory for the witnesses.
    \<^item> \<open>File\<close>, \<open>FileClaims\<close>, \<open>Mirror\<close> (\<^verbatim>\<open>file.go\<close>): \<open>PerformTransfer\<close>. Which requests a transfer sends, that it
      is not repeated (locale \<open>remembers\<close>, and sources that answer conditional requests), and that the target has the bytes of the file (locales
      \<open>object_store\<close>, \<open>file_source\<close>, \<open>mirror\<close> and \<open>readable_store\<close>, whose locations are sources).
    \<^item> \<open>UrlSource\<close>, \<open>UrlClaims\<close> (\<^verbatim>\<open>source.go\<close>): directory listings and files of web servers. \<open>WebMirror\<close>: such a
      source keeps the contract of \<open>mirror\<close> (locale \<open>web_server\<close>), so that its files reach Swift unchanged, and
      answers conditional requests if its server does. \<open>Gpg\<close>, \<open>GpgClaims\<close>
      (\<^verbatim>\<open>gpg.go\<close>): the key ring. \<open>Lister\<close>: the sequencing of steps that Yum and Debian share, with the locale
      \<open>kept_relation\<close> for what every sequence keeps.
    \<^item> \<open>Yum\<close>, \<open>YumClaims\<close> (\<^verbatim>\<open>yum.go\<close>), \<open>Debian\<close>, \<open>DebianClaims\<close> (\<^verbatim>\<open>debian.go\<close>), \<open>Github\<close>, \<open>GithubClaims\<close>
      (\<^verbatim>\<open>github.go\<close>): what these sources list, in which order, and that it was verified: the theorems name the
      requests of the run, the state in which each was sent, and the key ring that a signature was checked with.
    \<^item> \<open>Config\<close>, \<open>ConfigClaims\<close> (\<^verbatim>\<open>config.go\<close>): a configuration without errors has only jobs that can run.
    \<^item> \<open>Report\<close>, \<open>ReportRun\<close> (\<^verbatim>\<open>report.go\<close>), \<open>Scraper\<close>, \<open>ScraperProps\<close>, \<open>ScraperClaims\<close> (\<^verbatim>\<open>scraper.go\<close>, with the locale
      \<open>work_stack\<close> for \<^verbatim>\<open>directory.go\<close>'s stack), \<open>Transferor\<close> (\<^verbatim>\<open>transfer.go\<close>), \<open>Cleaner\<close> (\<^verbatim>\<open>cleaner.go\<close>): the
      actors one by one, each as a function of what it receives. What a transferor receives after a
      cancellation it discards (\<open>drainLoop\<close>), without a report.
    \<^item> \<open>Pipeline\<close>: a complete run as a relation between what the actors did. \<open>Network\<close>, \<open>NetworkProps\<close>,
      \<open>NetworkClaims\<close> (\<^verbatim>\<open>main.go\<close>, \<^verbatim>\<open>actor.go\<close>): the concurrent actors with their bounded channels, as a
      transition system. Its complete runs are those of \<open>Pipeline\<close>, no schedule gets stuck and none goes on
      for ever. \<open>MainRun\<close> (\<^verbatim>\<open>main.go\<close>): the command line and the exit code.
    \<^item> This theory: what all parts together guarantee under every schedule, for the objects that are deleted and
      for the contents of those that are mirrored.

  \<^bold>\<open>Hypotheses.\<close> The theorems about a source that does not change say so (\<open>stable_source\<close>); those about
  servers name what is used of HTTP for one URL (\<open>body_law\<close>, \<open>range_law\<close>, \<open>reliable\<close>, \<open>has_file\<close>) or of
  Swift (the locales above). Each such hypothesis holds for a concrete function, on which the witness evaluates
  the property.

  \<^bold>\<open>Not modelled.\<close>
    \<^item> Log lines, except those of the report, and the switch for them in \<^verbatim>\<open>log.go\<close>: they have no influence
      on the rest.
    \<^item> Signals, whose effect is that the context is cancelled, and the options of the HTTP transport.
    \<^item> The user info of URLs, and the lock of the key ring: listings run one after the other in the scraper.
    \<^item> Panics and endless loops of listings inside the network: a job has its source as a record of total
      functions, and what lists of Yum, Debian and GitHub sources do otherwise is the subject of their own
      theories. A transfer that panics ends the process, so that the network has no move for it.
    \<^item> The vendored libraries, which are the parameters above.
\<close>

section \<open>What a run of the program does\<close>

text \<open>
  The report receives the events of all actors, in any order. The clean-up starts when all transferors
  have returned; it sees the cancellation of the context, which lasts.
\<close>

lemma network_mainRun:
  assumes "scheduled jobs perform cancelled w ws s" "finished s" "undisturbed s" "ws \<noteq> []"
    and "mset evs = mset (scReport (nwScraper s) @ concat (map (trReport \<circ> prState) (nwTransferors s)) @
      clReport (Cleaner_Run bulk jobs cancelled' (scIncomplete (nwScraper s)) order (nwCollected s) v))"
  shows "mainRun jobs perform bulk cancelled cancelled' w (nwScraper s) (map prState (nwTransferors s)) (nwCollected s)
    evs (Report_ExitCode evs)"
  unfolding mainRun_def
  using finished_pipelineRun[OF assms(1-4)] assms(5)
  by (intro exI[of _ "map (\<lambda>p. (prEvents p, prStart p)) (nwTransferors s)"] exI[of _ order] exI[of _ v]) simp

text \<open>C1: cleaning up never deletes what the source still has. Take any schedule of the concurrent actors after
  which all have returned; if a transferor or the scraper was cancelled, the cleaner sees it as well.
  Let the source of job j be stable, and let the targets of other jobs not overlap with that of
  job j. Then no file of job j that is listed at the source in included directories, and is included
  itself, has its target object deleted, whatever listings or transfers failed, in whatever order the
  files went through the pipeline, and whether or not the clean-up is cancelled halfway.\<close>

theorem cleanup_keeps_listed_files:
  assumes "scheduled jobs perform cancelled w ws s" "finished s" "ws \<noteq> []"
    and "undisturbed s \<and> \<not> cancelled (scWorld (nwScraper s)) \<or> cancelled' (w', [])"
    and "set order = dom (isFileTransferred (collect jobs (nwCollected s)))"
    and "\<forall>k<length jobs. finite (FileExists (jbTarget (jobs ! k)))"
    and "j < length jobs" "stable_source (jbSource (jobs ! j)) ents"
    and "listed_file (\<lambda>fs. CheckFile (jbMatcher (jobs ! j)) fs = None) ents fs"
    and "\<forall>k<length jobs. k \<noteq> j \<longrightarrow> Container (jbTarget (jobs ! k)) \<noteq> Container (jbTarget (jobs ! j)) \<or>
      obName (TargetObject (jobs ! j) fs) \<notin> FileExists (jbTarget (jobs ! k))"
    and "\<forall>k<length jobs. Container (jbTarget (jobs ! k)) \<noteq> None"
    and "(a, objs) \<in> set (snd (clWorld (Cleaner_Run (logDeletions bulk) jobs cancelled' (scIncomplete (nwScraper s)) order
      (nwCollected s) (w', []))))"
  shows "TargetObject (jobs ! j) fs \<notin> set objs"
proof (cases "cancelled' (w', [])")
  case True
  with assms(12) show ?thesis by (simp add: Cleaner_Run_def Let_def)
next
  case False
  with assms(4) have "undisturbed s" "\<not> cancelled (scWorld (nwScraper s))" by simp_all
  with run_keeps_listed_files[OF finished_pipelineRun[OF assms(1,2) _ assms(3)] _ assms(5-12)] show ?thesis by simp
qed

text \<open>C2: the exit code 0 means that everything was mirrored. Take any schedule of the concurrent actors that is not
  interrupted and after which all have returned. If the program ends with exit code 0 and its report
  counts no skipped job, then every file of every job that is listed at the source in included
  directories, and is included itself, has gone through the pipeline, and its last transfer did not
  fail.\<close>

theorem exit_code_zero:
  assumes "scheduled jobs perform cancelled w ws s" "finished s" "undisturbed s" "ws \<noteq> []"
    and "mset evs = mset (scReport (nwScraper s) @ concat (map (trReport \<circ> prState) (nwTransferors s)) @
      clReport (Cleaner_Run bulk jobs cancelled' (scIncomplete (nwScraper s)) order (nwCollected s) v))"
    and "Report_ExitCode evs = 0" "JobsSkipped (Report_stats evs) = 0" "length evs < 2 ^ 64"
    and "\<not> cancelled (scWorld (nwScraper s))"
    and "j < length jobs" "stable_source (jbSource (jobs ! j)) ents" "listed_file (accepted jobs j) ents fs"
  shows "\<exists>i\<in>set (nwCollected s). fiFile i = (j, fs) \<and> \<not> fiFailed i"
  using run_exit_code_zero[OF network_mainRun[OF assms(1-5), unfolded assms(6)] assms(8,7,9-12)] .

text \<open>C3: a successful run has mirrored the contents. Take a run as before, in which the transferors call
  PerformTransfer, and let the target keep what is uploaded to it and the source of job j deliver its
  files (the locale \<open>mirror\<close>, which URL sources and Swift locations interpret). If the program ends with
  exit code 0 and counts no skipped job, then for every file of job j that is listed at the source, is
  included and is no symlink, one of the transferors has made a transfer of it, in the state of the world
  to which its transfers before had led, with one of three results: it went through, and after it the
  target object had exactly the bytes of the file; or it was skipped, because the source, asked with the
  metadata of the target object, said that the file has not changed; or it was skipped, because the file
  is immutable and exists at the target.\<close>

theorem contents_mirrored:
  assumes "scheduled jobs (transferFile sw pt jobs) cancelled w ws s" "finished s" "undisturbed s" "ws \<noteq> []"
    and "mset evs = mset (scReport (nwScraper s) @ concat (map (trReport \<circ> prState) (nwTransferors s)) @
      clReport (Cleaner_Run bulk jobs cancelled' (scIncomplete (nwScraper s)) order (nwCollected s) v0))"
    and "Report_ExitCode evs = 0" "JobsSkipped (Report_stats evs) = 0" "length evs < 2 ^ 64"
    and "\<not> cancelled (scWorld (nwScraper s))"
    and "j < length jobs" "stable_source (jbSource (jobs ! j)) ents" "listed_file (accepted jobs j) ents fs"
    and "mirror sw content body segments target (jbSource (jobs ! j)) files" "SymlinkTargetPath fs = []"
  shows "\<exists>p\<in>set (nwTransferors s). \<exists>rs v v' result n. set rs \<subseteq> set (received (prEvents p)) \<and>
    ((j, fs), v) \<in> set (visited (transferFile sw pt jobs) (received (prEvents p) @ rs) (prStart p)) \<and>
    PerformTransfer sw pt (jobs ! j) fs v = (v', Ret (result, n)) \<and>
    (if result = TransferSuccess then content v' (TargetObject (jobs ! j) fs) = wanted files fs v
     else result = TransferSkipped \<and> (immutable (jobs ! j) fs \<or> reported_unchanged sw pt (jobs ! j) fs v))"
proof -
  from run_exit_code_zero[OF network_mainRun[OF assms(1-5), unfolded assms(6)] assms(8,7,9-12)]
  obtain i where i: "i \<in> set (nwCollected s)" "fiFile i = (j, fs)" "\<not> fiFailed i" by blast
  from pipeline_succeeded[OF finished_pipelineRun[OF assms(1-4)] i(1,3)] i(2) obtain p rs where
    p: "p \<in> set (nwTransferors s)" "set rs \<subseteq> set (received (prEvents p))"
    and "succeeded (transferFile sw pt jobs) (prStart p) (received (prEvents p) @ rs) (j, fs)" by auto
  then obtain v v' result n where
    v: "((j, fs), v) \<in> set (visited (transferFile sw pt jobs) (received (prEvents p) @ rs) (prStart p))"
    and t: "PerformTransfer sw pt (jobs ! j) fs v = (v', Ret (result, n))" "result \<noteq> TransferFailed"
    by (auto simp: succeeded_def transferFile_def)
  have "if result = TransferSuccess then content v' (TargetObject (jobs ! j) fs) = wanted files fs v
     else result = TransferSkipped \<and> (immutable (jobs ! j) fs \<or> reported_unchanged sw pt (jobs ! j) fs v)"
  proof (cases result)
    case TransferSuccess
    with t(1) have "PerformTransfer sw pt (jobs ! j) fs v = (v', Ret (TransferSuccess, n))" by simp
    from mirror.PerformTransfer_content[OF assms(13) this refl assms(14)] TransferSuccess show ?thesis by simp
  next
    case TransferSkipped
    with t(1) skipped_transfer_reason[OF _ assms(14), of sw pt "jobs ! j" v v' n] show ?thesis by simp
  qed (use t(2) in simp)
  with p v t(1) show ?thesis by blast
qed

section \<open>The properties on a schedule\<close>

theorem cleanup_keeps_listed_files_witness:
  "snd (clWorld (Cleaner_Run (logDeletions (swBulkDelete mem_swift)) [clean_job] (\<lambda>w. False) {} [0]
     (nwCollected demo_network) (empty_store, []))) = [(demo_account, [obj_b])] \<and>
   TargetObject clean_job (fileSpec ''a'') \<notin> set [obj_b]"
proof -
  have col: "nwCollected demo_network = clean_infos" "nwScraper demo_network = clean_scraped"
    by (simp_all add: demo_network_def one_network_def clean_scraped_def)
  have dom: "set [0] = dom (isFileTransferred (collect [clean_job] (nwCollected demo_network)))"
    by (simp add: col clean_collect)
  have stable: "stable_source (jbSource ([clean_job] ! 0)) (\<lambda>p. [fileSpec ''a''])" by (simp add: stable_source_def)
  have listed: "listed_file (\<lambda>fs. CheckFile (jbMatcher ([clean_job] ! 0)) fs = None) (\<lambda>p. [fileSpec ''a'']) (fileSpec ''a'')"
    using clean_accepts by (auto simp: listed_file_def intro!: listed_dir.root simp del: clean_job_sel)
  have job: "\<forall>k<length [clean_job]. finite (FileExists (jbTarget ([clean_job] ! k)))"
    "\<forall>k<length [clean_job]. Container (jbTarget ([clean_job] ! k)) \<noteq> None"
    by (simp_all add: clean_job_def demo_location_def)
  have mem: "(demo_account, [obj_b]) \<in> set (snd (clWorld (Cleaner_Run (logDeletions (swBulkDelete mem_swift))
      [clean_job] (\<lambda>w. False) (scIncomplete (nwScraper demo_network)) [0] (nwCollected demo_network) (empty_store, []))))"
    using clean_run by (simp add: col clean_scraped_def one_scraped_def)
  have "TargetObject ([clean_job] ! 0) (fileSpec ''a'') \<notin> set [obj_b]"
    by (rule cleanup_keeps_listed_files[OF demo_scheduled demo_finished(1) _ _ dom job(1) _ stable listed _ job(2) mem])
      (use demo_finished(2) in simp_all)
  with clean_run show ?thesis by (simp add: col)
qed

theorem exit_code_zero_witness:
  "Report_ExitCode [fileEvent TransferSuccess 1, directoryEvent False] = 0 \<and>
   (\<exists>i\<in>set (nwCollected demo_network). fiFile i = (0, fileSpec ''a'') \<and> \<not> fiFailed i)"
proof -
  let ?evs = "[fileEvent TransferSuccess 1, directoryEvent False]"
  have exit: "Report_ExitCode ?evs = 0" by (simp add: Report_ExitCode_failing failing_def)
  have "clReport (Cleaner_Run (swBulkDelete mem_swift) [clean_job] (\<lambda>w. True) (scIncomplete (nwScraper demo_network)) []
      (nwCollected demo_network) empty_store) = []" by (simp add: Cleaner_Run_def Let_def)
  then have evs: "mset ?evs = mset (scReport (nwScraper demo_network) @
      concat (map (trReport \<circ> prState) (nwTransferors demo_network)) @
      clReport (Cleaner_Run (swBulkDelete mem_swift) [clean_job] (\<lambda>w. True) (scIncomplete (nwScraper demo_network)) []
        (nwCollected demo_network) empty_store))"
    by (simp add: demo_network_def one_network_def one_scraped_def add_mset_commute)
  have skipped: "JobsSkipped (Report_stats ?evs) = 0"
    by (simp add: Report_stats_def tally_def event_defs zeroStats_def)
  have stable: "stable_source (jbSource ([clean_job] ! 0)) (\<lambda>p. [fileSpec ''a''])" by (simp add: stable_source_def)
  have listed: "listed_file (accepted [clean_job] 0) (\<lambda>p. [fileSpec ''a'']) (fileSpec ''a'')"
    using clean_accepts by (auto simp: listed_file_def accepted_def intro!: listed_dir.root simp del: clean_job_sel)
  have "\<exists>i\<in>set (nwCollected demo_network). fiFile i = (0, fileSpec ''a'') \<and> \<not> fiFailed i"
    by (rule exit_code_zero[OF demo_scheduled demo_finished _ evs exit skipped _ _ _ stable listed]) simp_all
  with exit show ?thesis by blast
qed

text \<open>A file of a web server is listed, downloaded in three segments, and uploaded.\<close>

theorem contents_mirrored_witness:
  "\<exists>v v' n. PerformTransfer (web_swift (file_client demo_file) 100) (\<lambda>t. Inr 0) web_job (fileSpec ''a'') v =
       (v', Ret (TransferSuccess, n)) \<and>
     map_option stBody (map_of (stObjects v') (TargetObject web_job (fileSpec ''a''))) = Some [10, 20, 30, 40, 50]"
proof -
  let ?sw = "web_swift (file_client demo_file) 100"
  let ?evs = "\<lambda>n. [fileEvent TransferSuccess n, directoryEvent False]"
  obtain v' n where t: "PerformTransfer ?sw (\<lambda>t. Inr 0) web_job (fileSpec ''a'') empty_store = (v', Ret (TransferSuccess, n))"
    using web_run[of web_job "''a''" "\<lambda>t. Inr 0"] by (auto simp: web_job_sel)
  let ?s = "one_network empty_store empty_store v' n"
  have acc: "CheckFile (jbMatcher web_job) f = None" for f
    using clean_accepts[of f] by (simp add: web_job_def demo_job_def clean_job_def)
  have "lists_one web_job" using acc by (simp add: lists_one_def web_job_sel)
  then have sched: "scheduled [web_job] (transferFile ?sw (\<lambda>t. Inr 0) [web_job]) (\<lambda>w. False) empty_store [empty_store] ?s"
    using t by (intro one_schedule) (simp_all add: transferFile_def)
  have exit: "Report_ExitCode (?evs n) = 0" by (simp add: Report_ExitCode_failing failing_def)
  have skipped: "JobsSkipped (Report_stats (?evs n)) = 0"
    by (simp add: Report_stats_def tally_def event_defs zeroStats_def)
  have "clReport (Cleaner_Run (swBulkDelete ?sw) [web_job] (\<lambda>w. True) (scIncomplete (nwScraper ?s)) []
      (nwCollected ?s) empty_store) = []" by (simp add: Cleaner_Run_def Let_def)
  then have evs: "mset (?evs n) = mset (scReport (nwScraper ?s) @ concat (map (trReport \<circ> prState) (nwTransferors ?s)) @
      clReport (Cleaner_Run (swBulkDelete ?sw) [web_job] (\<lambda>w. True) (scIncomplete (nwScraper ?s)) []
        (nwCollected ?s) empty_store))"
    by (simp add: one_network_def one_scraped_def add_mset_commute)
  have stable: "stable_source (jbSource ([web_job] ! 0)) (\<lambda>p. [fileSpec ''a''])"
    by (simp add: stable_source_def web_job_sel)
  have listed: "listed_file (accepted [web_job] 0) (\<lambda>p. [fileSpec ''a'']) (fileSpec ''a'')"
    using acc by (auto simp: listed_file_def accepted_def intro!: listed_dir.root)
  have cl: "wbClient (file_web demo_file :: (store, bytes) web) (the (usHTTPClient web_source)) = file_client demo_file"
    by (simp add: file_web_def)
  have m: "mirror ?sw (\<lambda>w obj. map_option stBody (map_of (stObjects w) obj))
      (\<lambda>w. readsTo (file_client demo_file :: (store, bytes) client)) stPending (\<lambda>lo. lo)
      (jbSource ([web_job] ! 0)) (\<lambda>w path. Some demo_file)"
    using web_server.mirror_from[OF demo_web_server web_job_sel(1) web_store.object_store_axioms[of demo_file 100, folded cl]]
    by (simp add: cl)
  have no: "SymlinkTargetPath (fileSpec ''a'') = []" "\<not> immutable web_job (fileSpec ''a'')"
    "wanted (\<lambda>w path. Some demo_file) (fileSpec ''a'') v = Some [10, 20, 30, 40, 50]" for v :: store
    by (simp_all add: fileSpec_def immutable_def web_job_sel wanted_def demo_file_def)
  from contents_mirrored[OF sched one_finished _ evs exit skipped _ _ _ stable listed m no(1)] no(2,3) web_not_unchanged[of ?sw "\<lambda>t. Inr 0" "''a''"]
  obtain v v' result m where "PerformTransfer ?sw (\<lambda>t. Inr 0) web_job (fileSpec ''a'') v = (v', Ret (result, m))"
    "result = TransferSuccess"
    "map_option stBody (map_of (stObjects v') (TargetObject web_job (fileSpec ''a''))) = Some [10, 20, 30, 40, 50]"
    by (auto split: if_splits)
  then show ?thesis by blast
qed

end
